(* ===== verification/Prelude.thy ===== *)
theory Prelude
  imports Complex_Main "HOL-Library.AList" "HOL-Library.Multiset"
begin

text \<open>
  Shared vocabulary of the development.

  \<^item> Go integers: \<open>int32\<close> and \<open>int64\<close> values are HOL integers, and every operation that
    can leave the range is followed by \<open>i32\<close> or \<open>i64\<close>, the two's-complement wrap-around
    of the language. \<open>tdiv\<close> and \<open>tmod\<close> are Go's truncating division and remainder.
  \<^item> Go strings are byte strings, so they are HOL strings (lists of 8-bit characters).
  \<^item> A Go map is an association list with distinct keys (\<open>gomap\<close>): a lookup is \<open>map_of\<close>,
    a store is \<open>AList.update\<close>, a delete is \<open>AList.delete\<close>. The order of the list is the
    order in which \<open>range\<close> visits the entries. Go leaves that order unspecified; the
    theorems hold for every list, hence for every order.
\<close>

named_theorems go_int \<open>range facts about Go integers\<close>
named_theorems go_str \<open>facts about string helpers\<close>
named_theorems go_map \<open>facts about Go maps\<close>

section \<open>Machine integers\<close>

type_synonym int32 = int
type_synonym int64 = int

definition i32 :: "int \<Rightarrow> int32" where
  "i32 x = (x + 2147483648) mod 4294967296 - 2147483648"

definition i64 :: "int \<Rightarrow> int64" where
  "i64 x = (x + 9223372036854775808) mod 18446744073709551616 - 9223372036854775808"

definition in_i32 :: "int \<Rightarrow> bool" where
  "in_i32 x \<longleftrightarrow> - 2147483648 \<le> x \<and> x \<le> 2147483647"

definition in_i64 :: "int \<Rightarrow> bool" where
  "in_i64 x \<longleftrightarrow> - 9223372036854775808 \<le> x \<and> x \<le> 9223372036854775807"

lemma i32_id [go_int]: "in_i32 x \<Longrightarrow> i32 x = x"
  by (simp add: i32_def in_i32_def)

lemma i64_id [go_int]: "in_i64 x \<Longrightarrow> i64 x = x"
  by (simp add: i64_def in_i64_def)

lemma in_i32_i32 [go_int, simp]: "in_i32 (i32 x)"
proof -
  have "0 \<le> (x + 2147483648) mod 4294967296" and "(x + 2147483648) mod 4294967296 < 4294967296"
    by simp_all
  then show ?thesis unfolding in_i32_def i32_def by linarith
qed

lemma in_i64_i64 [go_int, simp]: "in_i64 (i64 x)"
proof -
  have "0 \<le> (x + 9223372036854775808) mod 18446744073709551616"
    and "(x + 9223372036854775808) mod 18446744073709551616 < 18446744073709551616"
    by simp_all
  then show ?thesis unfolding in_i64_def i64_def by linarith
qed

lemma i32_i32 [simp]: "i32 (i32 x) = i32 x"
  by (simp add: i32_id)

lemma i64_i64 [simp]: "i64 (i64 x) = i64 x"
  by (simp add: i64_id)

lemma i32_bounds: "- 2147483648 \<le> i32 x" "i32 x \<le> 2147483647"
  using in_i32_i32 [of x] by (simp_all add: in_i32_def)

lemma in_i32_in_i64 [go_int]: "in_i32 x \<Longrightarrow> in_i64 x"
  by (simp add: in_i32_def in_i64_def)

lemma i32_0 [simp]: "i32 0 = 0" and i32_1 [simp]: "i32 1 = 1" and i64_0 [simp]: "i64 0 = 0"
  by (simp_all add: i32_def i64_def)

text \<open>Go's \<open>/\<close> and \<open>%\<close> truncate towards zero.\<close>

definition tdiv :: "int \<Rightarrow> int \<Rightarrow> int" where
  "tdiv a b = sgn a * sgn b * (\<bar>a\<bar> div \<bar>b\<bar>)"

definition tmod :: "int \<Rightarrow> int \<Rightarrow> int" where
  "tmod a b = a - b * tdiv a b"

lemma tdiv_nonneg: "0 \<le> a \<Longrightarrow> 0 < b \<Longrightarrow> tdiv a b = a div b"
  by (cases "a = 0") (simp_all add: tdiv_def)

lemma tmod_nonneg: "0 \<le> a \<Longrightarrow> 0 < b \<Longrightarrow> tmod a b = a mod b"
  by (simp add: tmod_def tdiv_nonneg minus_mult_div_eq_mod)

section \<open>Go maps\<close>

type_synonym ('k, 'v) gomap = "('k \<times> 'v) list"

definition wf_map :: "('k, 'v) gomap \<Rightarrow> bool" where
  "wf_map m \<longleftrightarrow> distinct (map fst m)"

abbreviation mget :: "('k, 'v) gomap \<Rightarrow> 'k \<Rightarrow> 'v option" where
  "mget m k \<equiv> map_of m k"

definition mgetd :: "'v \<Rightarrow> ('k, 'v) gomap \<Rightarrow> 'k \<Rightarrow> 'v" where
  \<comment> \<open>\<open>m[k]\<close> with the zero value for an absent key\<close>
  "mgetd z m k = (case map_of m k of None \<Rightarrow> z | Some v \<Rightarrow> v)"

abbreviation mput :: "'k \<Rightarrow> 'v \<Rightarrow> ('k, 'v) gomap \<Rightarrow> ('k, 'v) gomap" where
  "mput k v m \<equiv> AList.update k v m"

abbreviation mdel :: "'k \<Rightarrow> ('k, 'v) gomap \<Rightarrow> ('k, 'v) gomap" where
  "mdel k m \<equiv> AList.delete k m"

lemma mget_mput [simp, go_map]: "mget (mput k v m) k' = (if k' = k then Some v else mget m k')"
  by (simp add: update_conv')

lemma mget_mdel [simp, go_map]: "mget (mdel k m) k' = (if k' = k then None else mget m k')"
  by (simp add: delete_conv')

lemma mgetd_mput [simp, go_map]: "mgetd z (mput k v m) k' = (if k' = k then v else mgetd z m k')"
  by (simp add: mgetd_def)

lemma mgetd_Some: "mget m k = Some v \<Longrightarrow> mgetd z m k = v"
  by (simp add: mgetd_def)

lemma mgetd_Nil [simp]: "mgetd z [] k = z"
  by (simp add: mgetd_def)

lemma wf_map_Nil [simp]: "wf_map []"
  by (simp add: wf_map_def)

lemma wf_map_mput [simp, go_map]: "wf_map m \<Longrightarrow> wf_map (mput k v m)"
  by (simp add: wf_map_def distinct_update)

lemma wf_map_mdel [simp, go_map]: "wf_map m \<Longrightarrow> wf_map (mdel k m)"
  by (simp add: wf_map_def distinct_delete)

lemma wf_map_mem: "wf_map m \<Longrightarrow> (k, v) \<in> set m \<longleftrightarrow> mget m k = Some v"
  by (simp add: wf_map_def)

lemma mget_filter [go_map]:
  "wf_map m \<Longrightarrow> mget (filter P m) k =
     (case mget m k of None \<Rightarrow> None | Some v \<Rightarrow> if P (k, v) then Some v else None)"
proof (induction m)
  case (Cons e m)
  then have "fst e \<notin> fst ` set m" by (cases e) (simp add: wf_map_def)
  then have "mget m (fst e) = None" by (simp add: map_of_eq_None_iff)
  moreover have "wf_map m" using Cons.prems by (simp add: wf_map_def)
  ultimately show ?case using Cons.IH by (cases e) (auto split: option.splits)
qed simp

lemma wf_map_filter [go_map, simp]: "wf_map m \<Longrightarrow> wf_map (filter P m)"
  by (simp add: wf_map_def distinct_map_filter)

lemma mdel_filter: "mdel k m = filter (\<lambda>(k', v). k' \<noteq> k) m"
  by (auto simp: AList.delete_eq intro!: filter_cong)

section \<open>Loops over a slice\<close>

text \<open>A \<open>for _, x := range xs\<close> that updates a state is a left fold; its invariants by induction.\<close>

lemma foldl_invariant:
  "P a \<Longrightarrow> (\<And>a x. P a \<Longrightarrow> x \<in> set xs \<Longrightarrow> P (f a x)) \<Longrightarrow> P (foldl f a xs)"
  by (induction xs arbitrary: a) auto

lemma foldl_invariant_list_all:
  "P a \<Longrightarrow> list_all Q xs \<Longrightarrow> (\<And>a x. P a \<Longrightarrow> Q x \<Longrightarrow> P (f a x)) \<Longrightarrow> P (foldl f a xs)"
  by (induction xs arbitrary: a) auto

lemma set_map_filter_iff: "x \<in> set (List.map_filter f xs) \<longleftrightarrow> (\<exists>k \<in> set xs. f k = Some x)"
  by (induction xs) (auto simp: map_filter_simps split: option.splits)

section \<open>Strings\<close>

text \<open>\<open>strings.Index(s, c)\<close> for a one-byte separator, and the text after its first occurrence.\<close>

fun str_index :: "char \<Rightarrow> string \<Rightarrow> nat option" where
  "str_index c [] = None"
| "str_index c (x # xs) = (if x = c then Some 0 else map_option Suc (str_index c xs))"

text \<open>\<open>strings.Split(s, sep)\<close> for a one-byte separator: always at least one part.\<close>

fun str_split :: "char \<Rightarrow> string \<Rightarrow> string list" where
  "str_split c [] = [[]]"
| "str_split c (x # xs) =
     (if x = c then [] # str_split c xs
      else (case str_split c xs of [] \<Rightarrow> [[x]] | p # ps \<Rightarrow> (x # p) # ps))"

text \<open>\<open>strings.TrimSpace\<close> on the ASCII white space.\<close>

definition is_space :: "char \<Rightarrow> bool" where
  "is_space c \<longleftrightarrow> of_char c \<in> {9, 10, 11, 12, 13, 32 :: int}"

definition trim_space :: "string \<Rightarrow> string" where
  "trim_space s = rev (dropWhile is_space (rev (dropWhile is_space s)))"

lemma str_index_None [go_str]: "str_index c s = None \<longleftrightarrow> c \<notin> set s"
  by (induction s) auto

lemma str_index_Some [go_str]:
  "str_index c s = Some i \<Longrightarrow> i < length s \<and> s ! i = c \<and> c \<notin> set (take i s)"
proof (induction s arbitrary: i)
  case Nil
  then show ?case by simp
next
  case (Cons x xs)
  then show ?case
    by (cases "x = c") auto
qed

lemma str_index_append: "c \<notin> set p \<Longrightarrow> str_index c (p @ c # q) = Some (length p)"
  by (induction p) auto

lemma str_split_no_sep [go_str]: "c \<notin> set s \<Longrightarrow> str_split c s = [s]"
  by (induction s) auto

lemma str_split_append [go_str]:
  "c \<notin> set p \<Longrightarrow> str_split c (p @ c # q) = p # str_split c q"
  by (induction p) (auto split: list.splits)

lemma trim_space_id [go_str]:
  assumes "s = [] \<or> \<not> is_space (hd s) \<and> \<not> is_space (last s)"
  shows "trim_space s = s"
proof (cases "s = []")
  case True
  then show ?thesis by (simp add: trim_space_def)
next
  case False
  with assms have h: "\<not> is_space (hd s)" and l: "\<not> is_space (last s)" by simp_all
  from False h have "dropWhile is_space s = s"
    by (cases s) simp_all
  moreover from False l have "dropWhile is_space (rev s) = rev s"
    by (cases s rule: rev_cases) simp_all
  ultimately show ?thesis by (simp add: trim_space_def)
qed

subsection \<open>Decimal integers\<close>

definition digit_char :: "int \<Rightarrow> char" where
  "digit_char d = char_of (48 + d)"

definition is_digit :: "char \<Rightarrow> bool" where
  "is_digit c \<longleftrightarrow> 48 \<le> (of_char c :: int) \<and> (of_char c :: int) \<le> 57"

definition digit_val :: "char \<Rightarrow> int" where
  "digit_val c = of_char c - 48"

function show_digits :: "int \<Rightarrow> string" where
  "show_digits n = (if n < 10 then [digit_char n] else show_digits (n div 10) @ [digit_char (n mod 10)])"
  by pat_completeness auto
termination
  by (relation "measure nat") auto

declare show_digits.simps [simp del]

text \<open>The \<open>%d\<close> verb of \<open>fmt.Sprintf\<close>.\<close>

definition itoa :: "int \<Rightarrow> string" where
  "itoa i = (if i < 0 then CHR ''-'' # show_digits (- i) else show_digits i)"

definition digits_val :: "string \<Rightarrow> int" where
  "digits_val s = foldl (\<lambda>n c. 10 * n + digit_val c) 0 s"

text \<open>
  \<open>strconv.Atoi\<close>: the value and whether \<open>err\<close> is nil. A syntax error gives 0; a value outside
  the 64-bit range gives the nearest bound, and an error.
\<close>

definition atoi :: "string \<Rightarrow> int \<times> bool" where
  "atoi s =
     (let (neg, ds) = (case s of [] \<Rightarrow> (False, [])
                        | c # cs \<Rightarrow> if c = CHR ''-'' then (True, cs)
                                    else if c = CHR ''+'' then (False, cs) else (False, s))
      in if ds = [] \<or> \<not> list_all is_digit ds then (0, False)
         else let v = (if neg then - digits_val ds else digits_val ds)
              in if v > 9223372036854775807 then (9223372036854775807, False)
                 else if v < - 9223372036854775808 then (- 9223372036854775808, False)
                 else (v, True))"

lemma of_char_digit_char: "0 \<le> d \<Longrightarrow> d < 10 \<Longrightarrow> (of_char (digit_char d) :: int) = 48 + d"
  by (simp add: digit_char_def of_char_of)

lemma is_digit_digit_char [simp]: "0 \<le> d \<Longrightarrow> d < 10 \<Longrightarrow> is_digit (digit_char d)"
  by (simp add: is_digit_def of_char_digit_char)

lemma digit_val_digit_char [simp]: "0 \<le> d \<Longrightarrow> d < 10 \<Longrightarrow> digit_val (digit_char d) = d"
  by (simp add: digit_val_def of_char_digit_char)

lemma show_digits_digits: "0 \<le> n \<Longrightarrow> list_all is_digit (show_digits n)"
proof (induction n rule: show_digits.induct)
  case (1 n)
  then show ?case
    by (cases "n < 10") (simp_all add: show_digits.simps [of n])
qed

lemma show_digits_not_Nil [simp]: "show_digits n \<noteq> []"
  by (simp add: show_digits.simps [of n])

lemma digits_val_show_digits [simp]: "0 \<le> n \<Longrightarrow> digits_val (show_digits n) = n"
proof (induction n rule: show_digits.induct)
  case (1 n)
  then show ?case
    by (cases "n < 10") (simp_all add: show_digits.simps [of n] digits_val_def)
qed

lemma is_digit_facts:
  "is_digit c \<Longrightarrow> c \<noteq> CHR ''-'' \<and> c \<noteq> CHR ''+'' \<and> c \<noteq> CHR '':'' \<and> \<not> is_space c"
  by (auto simp: is_digit_def is_space_def)

lemma show_digits_mem: "0 \<le> n \<Longrightarrow> c \<in> set (show_digits n) \<Longrightarrow> is_digit c"
  using show_digits_digits [of n] by (simp add: list_all_iff)

lemma atoi_show_digits [go_str]:
  assumes "0 \<le> n" "in_i64 n"
  shows "atoi (show_digits n) = (n, True)"
proof -
  obtain c cs where c: "show_digits n = c # cs"
    using show_digits_not_Nil by (cases "show_digits n") auto
  then have "is_digit c"
    using show_digits_mem [OF assms(1), of c] by simp
  then have "c \<noteq> CHR ''-''" "c \<noteq> CHR ''+''"
    using is_digit_facts by blast+
  moreover have "list_all is_digit (c # cs)" and "digits_val (c # cs) = n"
    using show_digits_digits [OF assms(1)] digits_val_show_digits [OF assms(1)] c by simp_all
  ultimately show ?thesis
    using assms c by (simp add: atoi_def in_i64_def)
qed

lemma atoi_itoa [go_str]:
  assumes "in_i64 i"
  shows "atoi (itoa i) = (i, True)"
proof (cases "i < 0")
  case True
  with assms show ?thesis
    using show_digits_digits [of "- i"] by (simp add: itoa_def atoi_def in_i64_def)
next
  case False
  with assms show ?thesis
    using atoi_show_digits [of i] by (simp add: itoa_def)
qed

lemma atoi_range: "in_i64 (fst (atoi s))"
  by (auto simp: atoi_def in_i64_def Let_def split: list.splits if_splits)

lemma itoa_colon_free: "CHR '':'' \<notin> set (itoa i)"
proof -
  have "CHR '':'' \<notin> set (show_digits n)" if "0 \<le> n" for n
    using that show_digits_mem is_digit_facts by blast
  then show ?thesis by (cases "i < 0") (simp_all add: itoa_def)
qed

end
