(* ===== verification/Float64.thy ===== *)
theory Float64
  imports Prelude "HOL-Library.Log_Nat"
begin

text \<open>
  IEEE-754 arithmetic as Go uses it. A finite \<open>float64\<close> (\<open>float32\<close>) is the rational number it
  denotes, and every operation computes the exact result and rounds it to the nearest value
  with a 53-bit (24-bit) significand, ties to even. The exponent is not bounded: the program
  handles seconds, counts and probabilities, far from overflow and underflow. Operations are
  not fused, as on amd64. \<open>go_round\<close> is \<open>math.Round\<close>, \<open>f64_to_i32\<close> the conversion to \<open>int32\<close>,
  \<open>go_pow\<close> is \<open>math.Pow\<close> for a non-negative integral exponent.
\<close>

named_theorems f64 \<open>rounding facts\<close>

type_synonym float64 = rat
type_synonym float32 = rat

section \<open>Rounding to a significand of p bits\<close>

definition pow2z :: "int \<Rightarrow> rat" where
  "pow2z e = (if 0 \<le> e then 2 ^ nat e else 1 / 2 ^ nat (- e))"

text \<open>The binary exponent of a non-zero number: \<open>2^e \<le> |x| < 2^(e+1)\<close>.\<close>

definition bin_exp :: "rat \<Rightarrow> int" where
  "bin_exp x =
     (let (p, q) = quotient_of \<bar>x\<bar>; e = bitlen p - bitlen q
      in if pow2z e \<le> \<bar>x\<bar> then e else e - 1)"

text \<open>Round half to even.\<close>

definition round_even :: "rat \<Rightarrow> int" where
  "round_even y =
     (let f = \<lfloor>y\<rfloor>; d = y - of_int f
      in if d < 1 / 2 then f else if 1 / 2 < d then f + 1 else if even f then f else f + 1)"

definition rnd :: "nat \<Rightarrow> rat \<Rightarrow> rat" where
  "rnd p x =
     (if x = 0 then 0
      else let u = pow2z (bin_exp x - int p + 1) in of_int (round_even (x / u)) * u)"

definition f64 :: "rat \<Rightarrow> float64" where
  "f64 x = rnd 53 x"

definition f32 :: "rat \<Rightarrow> float32" where
  "f32 x = rnd 24 x"

section \<open>Go's conversions and library functions\<close>

text \<open>\<open>math.Round\<close>: half away from zero.\<close>

definition go_round :: "float64 \<Rightarrow> float64" where
  "go_round x = (if x < 0 then - of_int \<lfloor>1 / 2 - x\<rfloor> else of_int \<lfloor>x + 1 / 2\<rfloor>)"

text \<open>\<open>int32(x)\<close> truncates towards zero; outside the range the result is the amd64 one.\<close>

definition f64_to_i32 :: "float64 \<Rightarrow> int32" where
  "f64_to_i32 x =
     (let t = (if x < 0 then - \<lfloor>- x\<rfloor> else \<lfloor>x\<rfloor>) in if in_i32 t then t else - 2147483648)"

definition i_to_f64 :: "int \<Rightarrow> float64" where
  "i_to_f64 i = f64 (of_int i)"

text \<open>\<open>math.Pow(x, n)\<close> by repeated squaring, each product rounded.\<close>

function pow_loop :: "float64 \<Rightarrow> float64 \<Rightarrow> nat \<Rightarrow> float64" where
  "pow_loop a b i =
     (if i = 0 then a
      else pow_loop (if odd i then f64 (a * b) else a) (f64 (b * b)) (i div 2))"
  by pat_completeness auto
termination
  by (relation "measure (\<lambda>(a, b, i). i)") auto

declare pow_loop.simps [simp del]

definition go_pow :: "float64 \<Rightarrow> nat \<Rightarrow> float64" where
  "go_pow x n = pow_loop 1 x n"


section \<open>Powers of two\<close>

lemma pow2z_powi: "pow2z e = 2 powi e"
  by (simp add: pow2z_def power_int_def inverse_eq_divide power_one_over)

lemma pow2z_pos [simp]: "0 < pow2z e"
  by (simp add: pow2z_def)

lemma pow2z_nonzero [simp]: "pow2z e \<noteq> 0"
  by (simp add: pow2z_def)

lemma pow2z_nonneg [simp]: "0 \<le> pow2z e"
  by (simp add: pow2z_def)

lemma pow2z_add: "pow2z (a + b) = pow2z a * pow2z b"
  by (simp add: pow2z_powi power_int_add)

lemma pow2z_diff: "pow2z (a - b) = pow2z a / pow2z b"
  by (simp add: pow2z_powi power_int_diff)

lemma pow2z_nat: "pow2z (int n) = 2 ^ n"
  by (simp add: pow2z_def)

lemma pow2z_less: "a < b \<Longrightarrow> pow2z a < pow2z b"
  by (simp add: pow2z_powi power_int_strict_increasing)

lemma pow2z_le: "a \<le> b \<Longrightarrow> pow2z a \<le> pow2z b"
  using pow2z_less [of a b] by (cases "a = b") auto

lemma pow2z_less_iff: "pow2z a < pow2z b \<longleftrightarrow> a < b"
  using pow2z_less [of a b] pow2z_le [of b a] by linarith

lemma pow2z_Suc: "pow2z (e + 1) = 2 * pow2z e"
  using pow2z_add [of e 1] by (simp add: pow2z_def [of 1])

section \<open>The exponent\<close>

lemma bin_exp_bounds:
  assumes "x \<noteq> 0"
  shows "pow2z (bin_exp x) \<le> \<bar>x\<bar> \<and> \<bar>x\<bar> < pow2z (bin_exp x + 1)"
proof -
  obtain p q where pq: "quotient_of \<bar>x\<bar> = (p, q)" by (cases "quotient_of \<bar>x\<bar>")
  then have q: "0 < q" and x: "\<bar>x\<bar> = of_int p / of_int q"
    using quotient_of_denom_pos quotient_of_div by blast+
  moreover have "0 < \<bar>x\<bar>" using assms by simp
  ultimately have p: "0 < p" by (simp add: zero_less_divide_iff)
  define a b where ab: "a = nat (bitlen p - 1)" "b = nat (bitlen q - 1)"
  have bl: "bitlen p = int a + 1" "bitlen q = int b + 1"
    using p q bitlen_nonneg [of p] bitlen_nonneg [of q] bitlen_eq_zero_iff [of p] bitlen_eq_zero_iff [of q]
    by (auto simp: ab)
  have pb: "2 ^ a \<le> p" "p < 2 ^ (a + 1)" and qb: "2 ^ b \<le> q" "q < 2 ^ (b + 1)"
    using bitlen_bounds [OF p] bitlen_bounds [OF q] bl by (simp_all add: nat_add_distrib)
  have pr: "(2::rat) ^ a \<le> of_int p" "of_int p < (2::rat) ^ (a + 1)"
    and qr: "(2::rat) ^ b \<le> of_int q" "of_int q < (2::rat) ^ (b + 1)"
    using pb qb by (metis of_int_le_iff of_int_less_iff of_int_numeral of_int_power)+
  define e where "e = bitlen p - bitlen q"
  have e: "e = int a - int b" by (simp add: e_def bl)
  have up: "\<bar>x\<bar> < pow2z (e + 1)"
  proof -
    have "\<bar>x\<bar> \<le> of_int p / 2 ^ b"
      unfolding x using pr(1) qr(1) p by (intro divide_left_mono) (auto simp: q)
    also have "\<dots> < 2 ^ (a + 1) / 2 ^ b"
      using pr(2) by (intro divide_strict_right_mono) auto
    also have "\<dots> = pow2z (e + 1)"
      unfolding e by (simp add: pow2z_Suc pow2z_diff pow2z_nat)
    finally show ?thesis .
  qed
  have lo: "pow2z (e - 1) < \<bar>x\<bar>"
  proof -
    have "pow2z (e - 1) = 2 ^ a / 2 ^ (b + 1)"
      unfolding e by (simp add: pow2z_diff pow2z_nat) (simp add: pow2z_def)
    also have "\<dots> \<le> of_int p / 2 ^ (b + 1)"
      using pr(1) by (intro divide_right_mono) auto
    also have "\<dots> < of_int p / of_int q"
      using qr(2) p q by (intro divide_strict_left_mono) auto
    finally show ?thesis by (simp add: x)
  qed
  show ?thesis
    using up lo unfolding bin_exp_def Let_def pq prod.case e_def [symmetric]
    by (auto simp: algebra_simps)
qed

lemma bin_exp_unique:
  assumes "pow2z e \<le> \<bar>x\<bar>" "\<bar>x\<bar> < pow2z (e + 1)"
  shows "bin_exp x = e"
proof -
  have "x \<noteq> 0" using assms(1) pow2z_pos [of e] by (auto simp del: pow2z_pos)
  note b = bin_exp_bounds [OF this]
  have "e < bin_exp x + 1" and "bin_exp x < e + 1"
    using assms b le_less_trans pow2z_less_iff by blast+
  then show ?thesis by simp
qed

lemma bin_exp_minus [simp]: "bin_exp (- x) = bin_exp x"
  by (simp add: bin_exp_def)

lemma bin_exp_mono:
  assumes "0 < x" "x \<le> y"
  shows "bin_exp x \<le> bin_exp y"
proof -
  have "pow2z (bin_exp x) < pow2z (bin_exp y + 1)"
    using bin_exp_bounds [of x] bin_exp_bounds [of y] assms by simp
  then show ?thesis by (simp add: pow2z_less_iff)
qed

section \<open>Rounding to an integer\<close>

lemma round_even_err: "\<bar>of_int (round_even y) - y\<bar> \<le> 1 / 2"
proof -
  have "of_int \<lfloor>y\<rfloor> \<le> y" "y < of_int \<lfloor>y\<rfloor> + 1" by linarith+
  then show ?thesis
    unfolding round_even_def Let_def by (auto simp: abs_le_iff)
qed

lemma round_even_int [simp]: "round_even (of_int n) = n"
  by (simp add: round_even_def)

lemma round_even_mono:
  assumes "y \<le> z"
  shows "round_even y \<le> round_even z"
proof -
  have f: "\<lfloor>y\<rfloor> \<le> \<lfloor>z\<rfloor>" using assms by (rule floor_mono)
  show ?thesis
  proof (cases "\<lfloor>y\<rfloor> = \<lfloor>z\<rfloor>")
    case True
    then show ?thesis using assms by (auto simp: round_even_def Let_def)
  next
    case False
    with f have "\<lfloor>y\<rfloor> + 1 \<le> \<lfloor>z\<rfloor>" by simp
    moreover have "round_even y \<le> \<lfloor>y\<rfloor> + 1" "\<lfloor>z\<rfloor> \<le> round_even z"
      by (auto simp: round_even_def Let_def)
    ultimately show ?thesis by linarith
  qed
qed

lemma round_even_ge: "of_int n \<le> y \<Longrightarrow> n \<le> round_even y"
  using round_even_mono [of "of_int n" y] by simp

lemma round_even_le: "y \<le> of_int n \<Longrightarrow> round_even y \<le> n"
  using round_even_mono [of y "of_int n"] by simp

lemma round_even_unique:
  assumes "\<bar>y - of_int m\<bar> < 1 / 2"
  shows "round_even y = m"
proof -
  have "of_int (round_even y - m) < (1 :: rat)" "of_int (m - round_even y) < (1 :: rat)"
    using round_even_err [of y] assms unfolding abs_less_iff abs_le_iff of_int_diff by linarith+
  then have "\<bar>round_even y - m\<bar> < 1" by linarith
  then show ?thesis by simp
qed

lemma round_even_minus: "round_even (- y) = - round_even y"
proof (cases "y = of_int \<lfloor>y\<rfloor>")
  case True
  then have "- y = of_int (- \<lfloor>y\<rfloor>)" by simp
  then show ?thesis using True round_even_int by metis
next
  case False
  have "of_int \<lfloor>y\<rfloor> \<le> y" "y < of_int \<lfloor>y\<rfloor> + 1" by linarith+
  moreover from this False have "of_int \<lfloor>y\<rfloor> < y" by linarith
  ultimately have c: "\<lfloor>- y\<rfloor> = - \<lfloor>y\<rfloor> - 1"
    by (intro floor_unique) simp_all
  have "- y - of_int \<lfloor>- y\<rfloor> = 1 - (y - of_int \<lfloor>y\<rfloor>)" by (simp add: c)
  then show ?thesis
    unfolding round_even_def Let_def c by (auto simp: algebra_simps)
qed

section \<open>Rounding to p bits\<close>

lemma rnd_0 [simp]: "rnd p 0 = 0" and f64_0 [simp]: "f64 0 = 0"
  by (simp_all add: rnd_def f64_def)

lemma rnd_minus: "rnd p (- x) = - rnd p x"
  by (simp add: rnd_def Let_def round_even_minus)

text \<open>The scaled significand lies between \<open>2^(p-1)\<close> and \<open>2^p\<close>.\<close>

lemma scaled_bounds:
  assumes "0 < x" "0 < p"
  shows "2 ^ (p - 1) \<le> x / pow2z (bin_exp x - int p + 1)"
    and "x / pow2z (bin_exp x - int p + 1) < 2 ^ p"
proof -
  have b: "pow2z (bin_exp x) \<le> x" "x < pow2z (bin_exp x + 1)"
    using bin_exp_bounds [of x] assms by simp_all
  have "int (p - 1) + (bin_exp x - int p + 1) = bin_exp x"
    using assms(2) by (simp add: of_nat_diff)
  then have 1: "pow2z (bin_exp x) = 2 ^ (p - 1) * pow2z (bin_exp x - int p + 1)"
    using pow2z_add [of "int (p - 1)" "bin_exp x - int p + 1"] by (simp only: pow2z_nat)
  have "int p + (bin_exp x - int p + 1) = bin_exp x + 1" by simp
  then have 2: "pow2z (bin_exp x + 1) = 2 ^ p * pow2z (bin_exp x - int p + 1)"
    using pow2z_add [of "int p" "bin_exp x - int p + 1"] by (simp only: pow2z_nat)
  show "2 ^ (p - 1) \<le> x / pow2z (bin_exp x - int p + 1)"
    using b(1) unfolding 1 by (simp add: pos_le_divide_eq)
  show "x / pow2z (bin_exp x - int p + 1) < 2 ^ p"
    using b(2) unfolding 2 by (simp add: pos_divide_less_eq)
qed

text \<open>Relative error of one rounding.\<close>

lemma rnd_err:
  assumes "0 < p"
  shows "\<bar>rnd p x - x\<bar> \<le> \<bar>x\<bar> / 2 ^ p"
proof (cases "x = 0")
  case True
  then show ?thesis by simp
next
  case False
  have pos: "\<bar>rnd p x - x\<bar> \<le> \<bar>x\<bar> / 2 ^ p" if x: "0 < x" for x
  proof -
    define u where "u = pow2z (bin_exp x - int p + 1)"
    have u: "0 < u" by (simp add: u_def)
    have "rnd p x - x = (of_int (round_even (x / u)) - x / u) * u"
      unfolding rnd_def Let_def u_def [symmetric] using x u by (simp add: left_diff_distrib)
    then have "\<bar>rnd p x - x\<bar> \<le> 1 / 2 * u"
      using u round_even_err [of "x / u"] by (simp add: abs_mult mult_right_mono)
    also have "\<dots> \<le> x / 2 ^ p"
    proof -
      have "2 ^ (p - 1) * u \<le> x"
        using scaled_bounds(1) [OF x assms] u by (simp add: u_def [symmetric] pos_le_divide_eq)
      then have "2 ^ p * u \<le> 2 * x"
        using assms by (simp add: power_eq_if)
      then show ?thesis by (simp add: field_simps)
    qed
    finally show ?thesis using x by simp
  qed
  show ?thesis
  proof (cases "0 < x")
    case True
    then show ?thesis by (rule pos)
  next
    case neg: False
    then have "0 < - x" using False by simp
    from pos [OF this] show ?thesis by (simp add: rnd_minus abs_minus_commute)
  qed
qed

lemma rnd_nonneg: "0 \<le> x \<Longrightarrow> 0 \<le> rnd p x"
proof -
  assume "0 \<le> x"
  then have "of_int 0 \<le> x / pow2z (bin_exp x - int p + 1)" by simp
  from round_even_ge [OF this] show ?thesis by (simp add: rnd_def Let_def)
qed

lemma rnd_binade:
  assumes "0 < x" "0 < p"
  shows "2 ^ (p - 1) * pow2z (bin_exp x - int p + 1) \<le> rnd p x"
    and "rnd p x \<le> 2 ^ p * pow2z (bin_exp x - int p + 1)"
proof -
  define u where "u = pow2z (bin_exp x - int p + 1)"
  have r: "rnd p x = of_int (round_even (x / u)) * u"
    using assms by (simp add: rnd_def Let_def u_def)
  have "2 ^ (p - 1) \<le> x / u" "x / u < 2 ^ p"
    using scaled_bounds [OF assms] by (simp_all only: u_def)
  then have "2 ^ (p - 1) \<le> round_even (x / u)" "round_even (x / u) \<le> 2 ^ p"
    by (intro round_even_ge round_even_le, simp)+
  then have "2 ^ (p - 1) \<le> (of_int (round_even (x / u)) :: rat)"
    "of_int (round_even (x / u)) \<le> (2 ^ p :: rat)"
    by (metis of_int_le_iff of_int_numeral of_int_power)+
  then show "2 ^ (p - 1) * pow2z (bin_exp x - int p + 1) \<le> rnd p x"
    and "rnd p x \<le> 2 ^ p * pow2z (bin_exp x - int p + 1)"
    unfolding r u_def [symmetric] by (intro mult_right_mono; simp add: u_def)+
qed

lemma rnd_mono_pos:
  assumes "0 < x" "x \<le> y" "0 < p"
  shows "rnd p x \<le> rnd p y"
proof (cases "bin_exp x = bin_exp y")
  case True
  have "round_even (x / pow2z (bin_exp y - int p + 1)) \<le> round_even (y / pow2z (bin_exp y - int p + 1))"
    using assms(2) by (intro round_even_mono divide_right_mono) (auto simp: less_imp_le)
  then show ?thesis
    using assms True by (simp add: rnd_def Let_def mult_right_mono less_imp_le)
next
  case False
  with bin_exp_mono [OF assms(1,2)] have lt: "bin_exp x + 1 \<le> bin_exp y" by simp
  define u v where "u = pow2z (bin_exp x - int p + 1)" and "v = pow2z (bin_exp y - int p + 1)"
  have y: "0 < y" using assms by simp
  have "pow2z (bin_exp x - int p + 1 + 1) \<le> v"
    unfolding v_def using lt by (intro pow2z_le) simp
  then have uv: "0 < u" "2 * u \<le> v"
    unfolding pow2z_Suc [of "bin_exp x - int p + 1"] u_def [symmetric] by (simp_all add: u_def)
  have 1: "rnd p x \<le> 2 ^ p * u" and 2: "2 ^ (p - 1) * v \<le> rnd p y"
    unfolding u_def v_def using rnd_binade assms y by blast+
  have "2 ^ p * u = 2 ^ (p - 1) * (2 * u)"
    using assms(3) by (simp add: power_eq_if)
  also have "\<dots> \<le> 2 ^ (p - 1) * v" using uv(2) by simp
  finally show ?thesis using 1 2 by linarith
qed

lemma rnd_mono:
  assumes "x \<le> y" "0 < p"
  shows "rnd p x \<le> rnd p y"
proof -
  consider "0 < x" | "x \<le> 0" "0 \<le> y" | "y < 0" by linarith
  then show ?thesis
  proof cases
    case 1
    then show ?thesis using assms by (intro rnd_mono_pos)
  next
    case 2
    then have "0 \<le> rnd p (- x)" "0 \<le> rnd p y" by (simp_all add: rnd_nonneg)
    then show ?thesis by (simp add: rnd_minus)
  next
    case 3
    then have "rnd p (- y) \<le> rnd p (- x)" using assms by (intro rnd_mono_pos) simp_all
    then show ?thesis by (simp add: rnd_minus)
  qed
qed

text \<open>A number with at most p significant bits is not changed.\<close>

lemma rnd_exact:
  assumes x: "x = of_int m * pow2z e" and m: "\<bar>m\<bar> < 2 ^ p"
  shows "rnd p x = x"
proof (cases "m = 0")
  case True
  then show ?thesis by (simp add: x)
next
  case False
  then have nz: "x \<noteq> 0" by (simp add: x)
  have "\<bar>x\<bar> < 2 ^ p * pow2z e"
  proof -
    have "of_int \<bar>m\<bar> < (2 ^ p :: rat)" using m by (metis of_int_less_iff of_int_numeral of_int_power)
    then show ?thesis by (simp add: x abs_mult)
  qed
  also have "\<dots> = pow2z (int p + e)" by (simp add: pow2z_add pow2z_nat)
  finally have "pow2z (bin_exp x) < pow2z (int p + e)"
    using bin_exp_bounds [OF nz] by linarith
  then have "bin_exp x - int p + 1 \<le> e" by (simp add: pow2z_less_iff)
  then obtain k where k: "e = bin_exp x - int p + 1 + int k"
    using zle_iff_zadd by blast
  define u where "u = pow2z (bin_exp x - int p + 1)"
  have u: "0 < u" by (simp add: u_def)
  have "pow2z e = 2 ^ k * u"
    unfolding u_def by (subst k) (simp only: pow2z_add [of _ "int k"] pow2z_nat mult.commute)
  with x have "x = of_int (m * 2 ^ k) * u" by simp
  then have "x / u = of_int (m * 2 ^ k)" using u by (simp add: field_simps)
  then have "round_even (x / u) = m * 2 ^ k" by (metis round_even_int)
  then have "rnd p x = of_int (m * 2 ^ k) * u"
    using nz by (simp add: rnd_def Let_def u_def)
  then show ?thesis using \<open>x = of_int (m * 2 ^ k) * u\<close> by simp
qed

text \<open>Evaluation of one rounding: the significand \<open>m\<close> and the exponent \<open>e\<close> are given.\<close>

lemma rnd_idem:
  assumes "0 < p"
  shows "rnd p (rnd p x) = rnd p x"
proof (cases "x = 0")
  case False
  define e where "e = bin_exp x - int p + 1"
  define m where "m = round_even (x / pow2z e)"
  have r: "rnd p x = of_int m * pow2z e"
    using False by (simp add: rnd_def e_def m_def Let_def)
  have "\<bar>x\<bar> / pow2z e < 2 ^ p"
    using scaled_bounds(2) [of "\<bar>x\<bar>" p] False assms by (cases "0 \<le> x") (simp_all add: e_def)
  then have b: "x / pow2z e \<le> of_int (2 ^ p)" "of_int (- (2 ^ p)) \<le> x / pow2z e"
    by (simp_all add: abs_if field_simps split: if_splits)
  have m: "\<bar>m\<bar> \<le> 2 ^ p"
    using round_even_le [OF b(1)] round_even_ge [OF b(2)] by (simp add: m_def abs_le_iff)
  show ?thesis
  proof (cases "\<bar>m\<bar> < 2 ^ p")
    case True
    then show ?thesis using rnd_exact [OF r] by (simp add: r)
  next
    case False
    with m have "\<bar>m\<bar> = 2 * 2 ^ (p - 1)" using assms by (simp add: power_eq_if)
    then obtain n where n: "m = 2 * n" "\<bar>n\<bar> = 2 ^ (p - 1)"
      by (cases "0 \<le> m") (auto simp: abs_if split: if_splits intro: that [of "2 ^ (p - 1)"] that [of "- (2 ^ (p - 1))"])
    have "rnd p x = of_int n * pow2z (e + 1)" by (simp add: r n(1) pow2z_Suc)
    moreover have "\<bar>n\<bar> < 2 ^ p" using assms by (simp add: n(2))
    ultimately show ?thesis using rnd_exact by metis
  qed
qed simp

lemma rnd_eqI:
  assumes "0 < p" "pow2z (e + int p - 1) \<le> x" "x < pow2z (e + int p)"
    and "\<bar>x / pow2z e - of_int m\<bar> < 1 / 2"
  shows "rnd p x = of_int m * pow2z e"
proof -
  have x: "0 < x" using assms(2) pow2z_pos less_le_trans by blast
  then have "bin_exp x = e + int p - 1"
    using assms by (intro bin_exp_unique) simp_all
  then show ?thesis
    using x round_even_unique [OF assms(4)] by (simp add: rnd_def Let_def)
qed

section \<open>Facts about float64\<close>

lemma f64_mono [f64]: "x \<le> y \<Longrightarrow> f64 x \<le> f64 y"
  by (simp add: f64_def rnd_mono)

lemma f64_nonneg [f64]: "0 \<le> x \<Longrightarrow> 0 \<le> f64 x"
  by (simp add: f64_def rnd_nonneg)

lemma f64_minus: "f64 (- x) = - f64 x"
  by (simp add: f64_def rnd_minus)

lemma f64_err: "\<bar>f64 x - x\<bar> \<le> \<bar>x\<bar> / 2 ^ 53"
  unfolding f64_def by (rule rnd_err) simp

lemma f64_pos [f64]: "0 < x \<Longrightarrow> 0 < f64 x"
proof -
  assume x: "0 < x"
  then have "\<bar>x\<bar> / 2 ^ 53 < x" by simp
  with f64_err [of x] have "\<bar>f64 x - x\<bar> < x" by linarith
  then show "0 < f64 x" by linarith
qed

lemma f64_of_int [simp, f64]: "\<bar>n\<bar> < 2 ^ 53 \<Longrightarrow> f64 (of_int n) = of_int n"
  unfolding f64_def by (rule rnd_exact [of _ n 0]) (simp_all add: pow2z_def)

lemma f64_of_i32 [simp, f64]: "in_i32 n \<Longrightarrow> f64 (of_int n) = of_int n"
  by (rule f64_of_int) (auto simp: in_i32_def)

lemma f64_half_int: "\<bar>n\<bar> < 2 ^ 53 \<Longrightarrow> f64 (of_int n / 2) = of_int n / 2"
  unfolding f64_def by (rule rnd_exact [of _ n "- 1"]) (simp_all add: pow2z_def)

lemma f64_idem [simp]: "f64 (f64 x) = f64 x"
  by (simp add: f64_def rnd_idem)

lemma f32_idem [simp]: "f32 (f32 x) = f32 x"
  by (simp add: f32_def rnd_idem)

lemma f64_1 [simp]: "f64 1 = 1"
  using f64_of_int [of 1] by simp

lemma f64_numeral [simp]: "(numeral n :: int) < 2 ^ 53 \<Longrightarrow> f64 (numeral n) = numeral n"
  using f64_of_int [of "numeral n"] by simp

lemma i_to_f64_i32 [simp]: "in_i32 n \<Longrightarrow> i_to_f64 n = of_int n"
  by (simp add: i_to_f64_def)

text \<open>A rounded value stays on its side of any integer below \<open>2^53\<close>.\<close>

lemma f64_ge_int: "of_int n \<le> x \<Longrightarrow> \<bar>n\<bar> < 2 ^ 53 \<Longrightarrow> of_int n \<le> f64 x"
  using f64_mono [of "of_int n" x] by simp

lemma f64_le_int: "x \<le> of_int n \<Longrightarrow> \<bar>n\<bar> < 2 ^ 53 \<Longrightarrow> f64 x \<le> of_int n"
  using f64_mono [of x "of_int n"] by simp

lemma f64_le_1: "x \<le> 1 \<Longrightarrow> f64 x \<le> 1"
  using f64_mono [of x 1] by simp

section \<open>Facts about the conversions\<close>

lemma go_round_of_int [simp]: "go_round (of_int n) = of_int n"
proof -
  have "\<lfloor>of_int n + 1 / 2 :: rat\<rfloor> = n" "\<lfloor>1 / 2 - of_int n :: rat\<rfloor> = - n"
    by linarith+
  then show ?thesis by (simp add: go_round_def)
qed

lemma go_round_is_int: "\<exists>n. go_round x = of_int n"
  by (auto simp: go_round_def intro: exI [of _ "- _"])

lemma go_round_mono: "x \<le> y \<Longrightarrow> go_round x \<le> go_round y"
proof -
  assume xy: "x \<le> y"
  consider "0 \<le> x" | "x < 0" "0 \<le> y" | "y < 0" by linarith
  then show ?thesis
  proof cases
    case 1
    then show ?thesis using xy by (simp add: go_round_def floor_mono)
  next
    case 2
    obtain a b where ab: "a = \<lfloor>1 / 2 - x\<rfloor>" "b = \<lfloor>y + 1 / 2\<rfloor>" by blast
    have "0 \<le> a" "0 \<le> b" unfolding ab using 2 by linarith+
    then have "- of_int a \<le> (of_int b :: rat)" by linarith
    then show ?thesis using 2 by (simp add: go_round_def flip: ab)
  next
    case 3
    then show ?thesis using xy by (simp add: go_round_def floor_mono)
  qed
qed

lemma go_round_err: "\<bar>go_round x - x\<bar> \<le> 1 / 2"
proof (cases "x < 0")
  case True
  have "of_int \<lfloor>1 / 2 - x\<rfloor> \<le> 1 / 2 - x" "1 / 2 - x < of_int \<lfloor>1 / 2 - x\<rfloor> + 1" by linarith+
  then show ?thesis using True unfolding go_round_def abs_le_iff by (simp only: if_True) linarith
next
  case False
  have "of_int \<lfloor>x + 1 / 2\<rfloor> \<le> x + 1 / 2" "x + 1 / 2 < of_int \<lfloor>x + 1 / 2\<rfloor> + 1" by linarith+
  then show ?thesis using False unfolding go_round_def abs_le_iff by (simp only: if_False) linarith
qed

text \<open>Rounding absorbs an error below one half at an integer bound.\<close>

lemma go_round_le: "x < of_int n + 1 / 2 \<Longrightarrow> go_round x \<le> of_int n"
proof -
  assume a: "x < of_int n + 1 / 2"
  obtain m where m: "go_round x = of_int m" using go_round_is_int by blast
  have "of_int m < of_int n + (1 :: rat)"
    using go_round_err [of x] a unfolding m abs_le_iff by linarith
  then have "m < n + 1" by linarith
  then show ?thesis by (simp add: m)
qed

lemma go_round_ge: "of_int n - 1 / 2 < x \<Longrightarrow> of_int n \<le> go_round x"
proof -
  assume a: "of_int n - 1 / 2 < x"
  obtain m where m: "go_round x = of_int m" using go_round_is_int by blast
  have "of_int n - 1 < (of_int m :: rat)"
    using go_round_err [of x] a unfolding m abs_le_iff by linarith
  then have "n - 1 < m" by linarith
  then show ?thesis by (simp add: m)
qed

lemma f64_to_i32_of_int [simp]: "in_i32 n \<Longrightarrow> f64_to_i32 (of_int n) = n"
  by (simp add: f64_to_i32_def Let_def)

lemma in_i32_f64_to_i32 [simp]: "in_i32 (f64_to_i32 x)"
  by (simp add: f64_to_i32_def Let_def) (simp add: in_i32_def)

lemma f64_to_i32_floor: "0 \<le> x \<Longrightarrow> x < 2147483648 \<Longrightarrow> f64_to_i32 x = \<lfloor>x\<rfloor>"
  by (auto simp: f64_to_i32_def Let_def in_i32_def le_floor_iff floor_less_iff)

text \<open>The int32 obtained by rounding lies between two int32 bounds of the argument.\<close>

lemma round_i32_between:
  assumes "of_int a - 1 / 2 < x" "x < of_int b + 1 / 2" "in_i32 a" "in_i32 b"
  shows "a \<le> f64_to_i32 (go_round x) \<and> f64_to_i32 (go_round x) \<le> b"
proof -
  obtain m where m: "go_round x = of_int m" using go_round_is_int by blast
  have "a \<le> m" "m \<le> b"
    using go_round_ge [OF assms(1)] go_round_le [OF assms(2)] by (simp_all add: m)
  moreover from this assms have "in_i32 m" by (simp add: in_i32_def)
  ultimately show ?thesis by (simp add: m)
qed

end
