(* ===== verification/Messages.thy ===== *)
theory Messages
  imports Prelude Float64
begin

text \<open>
  The messages the processes exchange: the generated Go structs of \<open>proto/transit\<close> and the
  part of the GTFS-Realtime structs of \<open>proto/gtfsrt\<close> that the ingestor reads.

  A proto3 message of \<open>proto/transit\<close> is a record; its selectors are the generated getters on a
  non-nil message. Enums are open in proto3, so an unknown number is kept (\<open>..._Other\<close>).
  The GTFS-Realtime messages are proto2: every field is a pointer, so it is an \<open>option\<close>, a
  message pointer is an \<open>option\<close> of the record, and the generated getters, which are safe on
  nil and supply the default, are definitions of their own. Fields no code reads are left out.
\<close>

section \<open>proto/transit\<close>

datatype DelayEvent_EventType =
  ARRIVAL_DELAY | DEPARTURE_DELAY | TRIP_CANCELLED | SKIP_STOP | EventType_Other int32

record DelayEvent =
  ev_AgencyId :: string
  ev_TripId :: string
  ev_RouteId :: string
  ev_StopId :: string
  ev_DelaySeconds :: int32
  ev_ObservedAt :: int64
  ev_ScheduledArrival :: int64
  ev_PredictedArrival :: int64
  ev_Type :: DelayEvent_EventType

datatype TransferImpact_ImpactLevel = AT_RISK | BROKEN | ImpactLevel_Other int32

record TransferImpact =
  ti_FromTripId :: string
  ti_FromRouteId :: string
  ti_ToRouteId :: string
  ti_StationId :: string
  ti_SourceDelaySeconds :: int32
  ti_OriginalTransferMarginSeconds :: int32
  ti_RemainingMarginSeconds :: int32
  ti_Level :: TransferImpact_ImpactLevel
  ti_DetectedAt :: int64
  ti_NextViableTripId :: string
  ti_AdditionalWaitSeconds :: int32
  ti_SchedConnectionDepartureSecs :: int32
  ti_EarliestCatchSecs :: int32

record DownstreamImpact =
  di_RouteId :: string
  di_StopId :: string
  di_PredictedAdditionalDelay :: int32
  di_Confidence :: float32
  di_HopsFromSource :: int32
  di_ImpactType :: string

record PropagationResult =
  pr_SourceTripId :: string
  pr_SourceStopId :: string
  pr_SourceDelaySeconds :: int32
  pr_Impacts :: "DownstreamImpact list"
  pr_ComputedAt :: int64

text \<open>The int32 and int64 fields of a decoded message are in range.\<close>

definition wf_event :: "DelayEvent \<Rightarrow> bool" where
  "wf_event ev \<longleftrightarrow> in_i32 (ev_DelaySeconds ev) \<and> in_i64 (ev_ObservedAt ev)
     \<and> in_i64 (ev_ScheduledArrival ev) \<and> in_i64 (ev_PredictedArrival ev)"

definition wf_impact :: "TransferImpact \<Rightarrow> bool" where
  "wf_impact ti \<longleftrightarrow> in_i32 (ti_SourceDelaySeconds ti) \<and> in_i32 (ti_AdditionalWaitSeconds ti)
     \<and> in_i32 (ti_OriginalTransferMarginSeconds ti) \<and> in_i32 (ti_RemainingMarginSeconds ti)
     \<and> in_i32 (ti_SchedConnectionDepartureSecs ti) \<and> in_i32 (ti_EarliestCatchSecs ti)"

section \<open>proto/gtfsrt\<close>

datatype TripUpdate_StopTimeUpdate_ScheduleRelationship =
  StopTimeUpdate_SCHEDULED | StopTimeUpdate_SKIPPED | StopTimeUpdate_NO_DATA | StopTimeUpdate_UNSCHEDULED

datatype TripDescriptor_ScheduleRelationship =
  TripDescriptor_SCHEDULED | TripDescriptor_ADDED | TripDescriptor_UNSCHEDULED
| TripDescriptor_CANCELED | TripDescriptor_REPLACEMENT | TripDescriptor_DUPLICATED
| TripDescriptor_DELETED | TripDescriptor_NEW

record StopTimeEvent =
  ste_Delay :: "int32 option"
  ste_Time :: "int64 option"

record StopTimeUpdate =
  stu_StopId :: "string option"
  stu_Arrival :: "StopTimeEvent option"
  stu_Departure :: "StopTimeEvent option"
  stu_ScheduleRelationship :: "TripUpdate_StopTimeUpdate_ScheduleRelationship option"

record TripDescriptor =
  td_TripId :: "string option"
  td_RouteId :: "string option"
  td_ScheduleRelationship :: "TripDescriptor_ScheduleRelationship option"

record TripUpdate =
  tu_Trip :: "TripDescriptor option"
  tu_StopTimeUpdate :: "StopTimeUpdate list"

record FeedHeader =
  fh_Timestamp :: "int option"

record FeedEntity =
  fe_TripUpdate :: "TripUpdate option"

record FeedMessage =
  fm_Header :: "FeedHeader option"
  fm_Entity :: "FeedEntity list"

text \<open>
  The generated getters: \<open>opt_field\<close> is the body \<open>if x != nil && x.F != nil \<dots> default\<close> that
  protoc emits for every scalar field.
\<close>

definition opt_field :: "'b \<Rightarrow> ('a \<Rightarrow> 'b option) \<Rightarrow> 'a option \<Rightarrow> 'b" where
  "opt_field d f x = (case x of None \<Rightarrow> d | Some m \<Rightarrow> (case f m of None \<Rightarrow> d | Some v \<Rightarrow> v))"

definition GetDelay_ste :: "StopTimeEvent option \<Rightarrow> int32" where
  "GetDelay_ste x = opt_field 0 ste_Delay x"

definition GetTime :: "StopTimeEvent option \<Rightarrow> int64" where
  "GetTime x = opt_field 0 ste_Time x"

definition GetStopId_stu :: "StopTimeUpdate option \<Rightarrow> string" where
  "GetStopId_stu x = opt_field [] stu_StopId x"

definition GetArrival :: "StopTimeUpdate option \<Rightarrow> StopTimeEvent option" where
  "GetArrival x = (case x of None \<Rightarrow> None | Some m \<Rightarrow> stu_Arrival m)"

definition GetDeparture :: "StopTimeUpdate option \<Rightarrow> StopTimeEvent option" where
  "GetDeparture x = (case x of None \<Rightarrow> None | Some m \<Rightarrow> stu_Departure m)"

definition GetScheduleRelationship_stu ::
  "StopTimeUpdate option \<Rightarrow> TripUpdate_StopTimeUpdate_ScheduleRelationship" where
  "GetScheduleRelationship_stu x = opt_field StopTimeUpdate_SCHEDULED stu_ScheduleRelationship x"

definition GetTripId_td :: "TripDescriptor option \<Rightarrow> string" where
  "GetTripId_td x = opt_field [] td_TripId x"

definition GetRouteId_td :: "TripDescriptor option \<Rightarrow> string" where
  "GetRouteId_td x = opt_field [] td_RouteId x"

definition GetScheduleRelationship_td ::
  "TripDescriptor option \<Rightarrow> TripDescriptor_ScheduleRelationship" where
  "GetScheduleRelationship_td x = opt_field TripDescriptor_SCHEDULED td_ScheduleRelationship x"

definition GetTrip :: "TripUpdate option \<Rightarrow> TripDescriptor option" where
  "GetTrip x = (case x of None \<Rightarrow> None | Some m \<Rightarrow> tu_Trip m)"

definition GetStopTimeUpdate :: "TripUpdate option \<Rightarrow> StopTimeUpdate list" where
  "GetStopTimeUpdate x = (case x of None \<Rightarrow> [] | Some m \<Rightarrow> tu_StopTimeUpdate m)"

definition GetTimestamp :: "FeedHeader option \<Rightarrow> int" where
  "GetTimestamp x = opt_field 0 fh_Timestamp x"

definition GetTripUpdate :: "FeedEntity option \<Rightarrow> TripUpdate option" where
  "GetTripUpdate x = (case x of None \<Rightarrow> None | Some m \<Rightarrow> fe_TripUpdate m)"

definition GetHeader :: "FeedMessage option \<Rightarrow> FeedHeader option" where
  "GetHeader x = (case x of None \<Rightarrow> None | Some m \<Rightarrow> fm_Header m)"

definition GetEntity :: "FeedMessage option \<Rightarrow> FeedEntity list" where
  "GetEntity x = (case x of None \<Rightarrow> [] | Some m \<Rightarrow> fm_Entity m)"

lemma opt_field_simps [simp]:
  "opt_field d f None = d"
  "f m = None \<Longrightarrow> opt_field d f (Some m) = d"
  "f m = Some v \<Longrightarrow> opt_field d f (Some m) = v"
  by (simp_all add: opt_field_def)

lemmas gtfsrt_getters =
  GetDelay_ste_def GetTime_def GetStopId_stu_def GetArrival_def GetDeparture_def
  GetScheduleRelationship_stu_def GetTripId_td_def GetRouteId_td_def GetScheduleRelationship_td_def
  GetTrip_def GetStopTimeUpdate_def GetTimestamp_def GetTripUpdate_def GetHeader_def GetEntity_def

end
