(* ===== verification/Normalizer.thy ===== *)
theory Normalizer
  imports Messages
begin

text \<open>
  \<open>internal/ingest/normalizer.go\<close>: a GTFS-Realtime \<open>TripUpdate\<close> becomes a list of
  \<open>DelayEvent\<close>s. A pointer to a message is an \<open>option\<close>.
\<close>

section \<open>Definitions\<close>

definition ParseRouteFromTripID :: "string \<Rightarrow> string" where
  "ParseRouteFromTripID tripID =
     (if tripID = [] then []
      else (case str_index CHR ''_'' tripID of
              None \<Rightarrow> tripID
            | Some idx \<Rightarrow>
                if idx = length tripID - 1 then tripID
                else let tail = drop (idx + 1) tripID
                     in (case str_index CHR ''.'' tail of
                           Some dot \<Rightarrow> take dot tail
                         | None \<Rightarrow> tail)))"

text \<open>The closure \<open>usable\<close> of \<open>extractDelay\<close>.\<close>

definition usable :: "StopTimeEvent option \<Rightarrow> bool" where
  "usable ev = (case ev of None \<Rightarrow> False | Some e \<Rightarrow> ste_Delay e \<noteq> None \<or> GetTime ev \<noteq> 0)"

record extracted =
  ex_delay :: int32
  ex_predicted :: int64
  ex_scheduled :: int64
  ex_fromDeparture :: bool
  ex_ok :: bool

definition extractDelay :: "StopTimeUpdate option \<Rightarrow> extracted" where
  "extractDelay stu =
     (let arr = GetArrival stu;
          fromDeparture = (\<not> usable arr);
          ev = (if \<not> usable arr then GetDeparture stu else arr)
      in if \<not> usable ev then
           \<lparr>ex_delay = 0, ex_predicted = 0, ex_scheduled = 0, ex_fromDeparture = False, ex_ok = False\<rparr>
         else
           let predicted = GetTime ev
           in (case ev of
                 Some e \<Rightarrow>
                   (case ste_Delay e of
                      Some _ \<Rightarrow>
                        let delay = GetDelay_ste ev
                        in \<lparr>ex_delay = delay, ex_predicted = predicted,
                            ex_scheduled = (if predicted > 0 then i64 (predicted - delay) else 0),
                            ex_fromDeparture = fromDeparture, ex_ok = True\<rparr>
                    | None \<Rightarrow>
                        \<lparr>ex_delay = 0, ex_predicted = predicted, ex_scheduled = 0,
                         ex_fromDeparture = fromDeparture, ex_ok = True\<rparr>)
               | None \<Rightarrow>
                   \<lparr>ex_delay = 0, ex_predicted = predicted, ex_scheduled = 0,
                    ex_fromDeparture = fromDeparture, ex_ok = True\<rparr>))"

text \<open>One iteration of the loop over the stop-time updates: at most one event.\<close>

definition normalize_stu ::
  "string \<Rightarrow> int64 \<Rightarrow> string \<Rightarrow> string \<Rightarrow> StopTimeUpdate \<Rightarrow> DelayEvent list" where
  "normalize_stu agencyID observedAt tripID routeID stu =
     (if GetScheduleRelationship_stu (Some stu) = StopTimeUpdate_SKIPPED then
        let x = extractDelay (Some stu)
        in [\<lparr>ev_AgencyId = agencyID, ev_TripId = tripID, ev_RouteId = routeID,
             ev_StopId = GetStopId_stu (Some stu), ev_DelaySeconds = 0, ev_ObservedAt = observedAt,
             ev_ScheduledArrival = ex_scheduled x, ev_PredictedArrival = ex_predicted x,
             ev_Type = SKIP_STOP\<rparr>]
      else
        let x = extractDelay (Some stu)
        in if \<not> ex_ok x then []
           else [\<lparr>ev_AgencyId = agencyID, ev_TripId = tripID, ev_RouteId = routeID,
                  ev_StopId = GetStopId_stu (Some stu), ev_DelaySeconds = ex_delay x,
                  ev_ObservedAt = observedAt, ev_ScheduledArrival = ex_scheduled x,
                  ev_PredictedArrival = ex_predicted x,
                  ev_Type = (if ex_fromDeparture x then DEPARTURE_DELAY else ARRIVAL_DELAY)\<rparr>])"

definition NormalizeTripUpdate :: "string \<Rightarrow> int64 \<Rightarrow> TripUpdate option \<Rightarrow> DelayEvent list" where
  "NormalizeTripUpdate agencyID observedAt tu =
     (if tu = None \<or> GetTrip tu = None then []
      else let trip = GetTrip tu;
               tripID = GetTripId_td trip;
               routeID0 = GetRouteId_td trip;
               routeID = (if routeID0 = [] then ParseRouteFromTripID tripID else routeID0)
           in if GetScheduleRelationship_td trip = TripDescriptor_CANCELED then
                [\<lparr>ev_AgencyId = agencyID, ev_TripId = tripID, ev_RouteId = routeID, ev_StopId = [],
                  ev_DelaySeconds = 0, ev_ObservedAt = observedAt, ev_ScheduledArrival = 0,
                  ev_PredictedArrival = 0, ev_Type = TRIP_CANCELLED\<rparr>]
              else foldl (\<lambda>events stu. events @ normalize_stu agencyID observedAt tripID routeID stu) []
                     (GetStopTimeUpdate tu))"

section \<open>Lemmas\<close>

lemma foldl_append_concat: "foldl (\<lambda>acc x. acc @ f x) a xs = a @ concat (map f xs)"
  by (induction xs arbitrary: a) auto

lemma usable_cases:
  "usable ev \<longleftrightarrow> (\<exists>e. ev = Some e \<and> (ste_Delay e \<noteq> None \<or> GetTime (Some e) \<noteq> 0))"
  by (auto simp: usable_def split: option.splits)

lemma extractDelay_ok:
  "ex_ok (extractDelay stu) \<longleftrightarrow> usable (GetArrival stu) \<or> usable (GetDeparture stu)"
  by (auto simp: extractDelay_def Let_def split: option.splits)

lemma extractDelay_scheduled:
  "ex_scheduled (extractDelay stu) \<noteq> 0 \<Longrightarrow>
   ex_predicted (extractDelay stu) > 0
   \<and> ex_scheduled (extractDelay stu) = i64 (ex_predicted (extractDelay stu) - ex_delay (extractDelay stu))"
  by (auto simp: extractDelay_def Let_def split: option.splits if_splits)

lemma extractDelay_arrival:
  "usable (GetArrival stu) \<Longrightarrow> \<not> ex_fromDeparture (extractDelay stu)
     \<and> ex_predicted (extractDelay stu) = GetTime (GetArrival stu)
     \<and> ex_delay (extractDelay stu) = GetDelay_ste (GetArrival stu)"
  by (auto simp: extractDelay_def usable_cases Let_def GetDelay_ste_def split: option.splits)

lemma extractDelay_departure:
  "\<not> usable (GetArrival stu) \<Longrightarrow> usable (GetDeparture stu) \<Longrightarrow> ex_fromDeparture (extractDelay stu)
     \<and> ex_predicted (extractDelay stu) = GetTime (GetDeparture stu)
     \<and> ex_delay (extractDelay stu) = GetDelay_ste (GetDeparture stu)"
  by (auto simp: extractDelay_def usable_cases Let_def GetDelay_ste_def split: option.splits)

lemma normalize_stu_eq:
  "normalize_stu a t tr r stu =
     (if GetScheduleRelationship_stu (Some stu) = StopTimeUpdate_SKIPPED
         \<or> usable (GetArrival (Some stu)) \<or> usable (GetDeparture (Some stu))
      then [hd (normalize_stu a t tr r stu)] else [])"
  by (simp add: normalize_stu_def Let_def extractDelay_ok)

section \<open>Properties\<close>

text \<open>The route of an NYCT trip ID is the text between the first underscore and the next dot;
  without a dot it is everything after the underscore, and an ID without an underscore is returned
  unchanged.\<close>

theorem route_of_nyct_trip_id:
  assumes "CHR ''_'' \<notin> set origin" and "CHR ''.'' \<notin> set route" and "route \<noteq> []"
  shows "ParseRouteFromTripID (origin @ ''_'' @ route @ ''.'' @ run) = route
       \<and> ParseRouteFromTripID (origin @ ''_'' @ route) = route
       \<and> ParseRouteFromTripID origin = origin"
proof -
  have u: "str_index CHR ''_'' (origin @ CHR ''_'' # tail) = Some (length origin)" for tail
    by (rule str_index_append [OF assms(1)])
  have n: "str_index CHR ''_'' origin = None" using assms(1) by (simp add: str_index_None)
  have d: "str_index CHR ''.'' (route @ CHR ''.'' # run) = Some (length route)"
    by (rule str_index_append [OF assms(2)])
  have e: "str_index CHR ''.'' route = None" using assms(2) by (simp add: str_index_None)
  show ?thesis
    using assms(3) by (simp add: ParseRouteFromTripID_def u n d e Let_def)
qed

theorem route_of_nyct_trip_id_witness:
  "ParseRouteFromTripID ''094550_GS.N01R'' = ''GS'' \<and> ParseRouteFromTripID ''130200_A'' = ''A''"
  using route_of_nyct_trip_id [of "''094550''" "''GS''" "''N01R''"]
    route_of_nyct_trip_id [of "''130200''" "''A''" "[]"] by simp

text \<open>An update that yields an event.\<close>

definition reportable :: "StopTimeUpdate \<Rightarrow> bool" where
  "reportable stu \<longleftrightarrow> GetScheduleRelationship_stu (Some stu) = StopTimeUpdate_SKIPPED
     \<or> usable (stu_Arrival stu) \<or> usable (stu_Departure stu)"

text \<open>What the event of a stop-time update has to say.\<close>

definition event_of_update :: "StopTimeUpdate \<Rightarrow> DelayEvent \<Rightarrow> bool" where
  "event_of_update stu ev \<longleftrightarrow>
     ev_StopId ev = GetStopId_stu (Some stu)
     \<and> (if GetScheduleRelationship_stu (Some stu) = StopTimeUpdate_SKIPPED
        then ev_Type ev = SKIP_STOP \<and> ev_DelaySeconds ev = 0
        else let src = (if usable (stu_Arrival stu) then stu_Arrival stu else stu_Departure stu)
             in ev_Type ev = (if usable (stu_Arrival stu) then ARRIVAL_DELAY else DEPARTURE_DELAY)
                \<and> ev_DelaySeconds ev = GetDelay_ste src \<and> ev_PredictedArrival ev = GetTime src
                \<and> (ev_ScheduledArrival ev \<noteq> 0 \<longrightarrow>
                     ev_ScheduledArrival ev = i64 (ev_PredictedArrival ev - ev_DelaySeconds ev)))"

lemma normalize_stu_event:
  "reportable stu \<Longrightarrow> \<exists>ev. normalize_stu a t tr r stu = [ev] \<and> event_of_update stu ev
     \<and> ev_AgencyId ev = a \<and> ev_TripId ev = tr \<and> ev_RouteId ev = r \<and> ev_ObservedAt ev = t"
  using extractDelay_arrival [of "Some stu"] extractDelay_departure [of "Some stu"]
    extractDelay_scheduled [of "Some stu"]
  by (auto simp: normalize_stu_def reportable_def event_of_update_def Let_def extractDelay_ok
      GetArrival_def GetDeparture_def)

lemma normalize_stu_none: "\<not> reportable stu \<Longrightarrow> normalize_stu a t tr r stu = []"
  by (simp add: normalize_stu_def reportable_def Let_def extractDelay_ok GetArrival_def GetDeparture_def)

text \<open>C23: a cancelled trip becomes exactly one trip-scoped event; any other trip becomes one event per
  stop-time update that is skipped or carries a delay or a time, in feed order, with the delay and
  time of the arrival when that is usable and else of the departure, and every event carries the
  agency, observation time, trip and route of the update.\<close>

theorem normalize_one_event_per_update:
  assumes "tu_Trip tu = Some td"
  shows "let evs = NormalizeTripUpdate agencyID observedAt (Some tu)
         in (if GetScheduleRelationship_td (Some td) = TripDescriptor_CANCELED
             then length evs = 1 \<and> ev_Type (hd evs) = TRIP_CANCELLED \<and> ev_StopId (hd evs) = []
             else list_all2 event_of_update (filter reportable (tu_StopTimeUpdate tu)) evs)
          \<and> list_all (\<lambda>ev. ev_AgencyId ev = agencyID \<and> ev_ObservedAt ev = observedAt
               \<and> ev_TripId ev = GetTripId_td (Some td)
               \<and> ev_RouteId ev = (if GetRouteId_td (Some td) = [] then ParseRouteFromTripID (GetTripId_td (Some td))
                                  else GetRouteId_td (Some td))) evs"
proof -
  define tr where "tr = GetTripId_td (Some td)"
  have "list_all2 event_of_update (filter reportable us) (concat (map (normalize_stu agencyID observedAt tr r) us))
      \<and> list_all (\<lambda>ev. ev_AgencyId ev = agencyID \<and> ev_ObservedAt ev = observedAt \<and> ev_TripId ev = tr
           \<and> ev_RouteId ev = r) (concat (map (normalize_stu agencyID observedAt tr r) us))" for us r
  proof (induction us)
    case (Cons u us)
    then show ?case
      using normalize_stu_event [of u agencyID observedAt tr r] normalize_stu_none [of u agencyID observedAt tr r]
      by (cases "reportable u") auto
  qed simp
  then show ?thesis
    using assms by (simp add: NormalizeTripUpdate_def GetTrip_def GetStopTimeUpdate_def Let_def
        foldl_append_concat flip: tr_def)
qed

definition demo_update :: TripUpdate where
  "demo_update =
     \<lparr>tu_Trip = Some \<lparr>td_TripId = Some ''055150_6..N03R'', td_RouteId = None, td_ScheduleRelationship = None\<rparr>,
      tu_StopTimeUpdate =
        [\<lparr>stu_StopId = Some ''631N'', stu_Arrival = Some \<lparr>ste_Delay = Some 90, ste_Time = Some 1000\<rparr>,
          stu_Departure = None, stu_ScheduleRelationship = None\<rparr>,
         \<lparr>stu_StopId = Some ''630N'', stu_Arrival = Some \<lparr>ste_Delay = None, ste_Time = None\<rparr>,
          stu_Departure = Some \<lparr>ste_Delay = None, ste_Time = Some 1100\<rparr>, stu_ScheduleRelationship = None\<rparr>,
         \<lparr>stu_StopId = Some ''629N'', stu_Arrival = None, stu_Departure = None, stu_ScheduleRelationship = None\<rparr>]\<rparr>"

theorem normalize_one_event_per_update_witness:
  "map (\<lambda>ev. (ev_RouteId ev, ev_StopId ev, ev_DelaySeconds ev, ev_ScheduledArrival ev, ev_Type ev))
     (NormalizeTripUpdate ''MTA'' 5 (Some demo_update))
   = [(''6'', ''631N'', 90, 910, ARRIVAL_DELAY), (''6'', ''630N'', 0, 0, DEPARTURE_DELAY)]
   \<and> list_all (\<lambda>ev. ev_AgencyId ev = ''MTA'') (NormalizeTripUpdate ''MTA'' 5 (Some demo_update))"
proof -
  have "tu_Trip demo_update = Some \<lparr>td_TripId = Some ''055150_6..N03R'', td_RouteId = None, td_ScheduleRelationship = None\<rparr>"
    by (simp add: demo_update_def)
  from normalize_one_event_per_update [OF this, of "''MTA''" 5]
  have "list_all (\<lambda>ev. ev_AgencyId ev = ''MTA'') (NormalizeTripUpdate ''MTA'' 5 (Some demo_update))"
    by (simp add: Let_def list_all_iff)
  moreover have "map (\<lambda>ev. (ev_RouteId ev, ev_StopId ev, ev_DelaySeconds ev, ev_ScheduledArrival ev, ev_Type ev))
     (NormalizeTripUpdate ''MTA'' 5 (Some demo_update))
   = [(''6'', ''631N'', 90, 910, ARRIVAL_DELAY), (''6'', ''630N'', 0, 0, DEPARTURE_DELAY)]"
    by code_simp
  ultimately show ?thesis by blast
qed

end
