(* ===== verification/Differ.thy ===== *)
theory Differ
  imports Normalizer
begin

text \<open>
  \<open>internal/ingest/differ.go\<close>: the differ keeps the last published observation per
  \<open>trip|stop\<close> key and selects the events that moved since. An instant is its nanoseconds since
  the Unix epoch; every operation takes the \<open>time.Now()\<close> it reads as an argument. The mutex makes
  each operation atomic, so an operation is one state transition.
\<close>

section \<open>Definitions\<close>

text \<open>\<open>Time.Sub\<close> saturates at the bounds of \<open>Duration\<close>.\<close>

definition time_Sub :: "int \<Rightarrow> int \<Rightarrow> int64" where
  "time_Sub t u = max (- 9223372036854775808) (min 9223372036854775807 (t - u))"

definition time_second :: int where "time_second = 1000000000"
definition time_minute :: int where "time_minute = 60 * time_second"

definition DefaultDelayChangeThresholdSeconds :: int32 where
  "DefaultDelayChangeThresholdSeconds = 15"

definition DefaultPredictedChangeThresholdSeconds :: int64 where
  "DefaultPredictedChangeThresholdSeconds = 15"

definition DefaultStalenessWindow :: int64 where
  "DefaultStalenessWindow = 30 * time_minute"

record diffState =
  ds_delay :: int32
  ds_predicted :: int64
  ds_evType :: DelayEvent_EventType
  ds_lastSeen :: int

record Differ =
  thresholdSeconds :: int32
  predictedThreshold :: int64
  staleness :: int64
  prev :: "(string, diffState) gomap"

definition NewDiffer :: Differ where
  "NewDiffer = \<lparr>thresholdSeconds = DefaultDelayChangeThresholdSeconds,
     predictedThreshold = DefaultPredictedChangeThresholdSeconds,
     staleness = DefaultStalenessWindow, prev = []\<rparr>"

definition diffKey :: "DelayEvent \<Rightarrow> string" where
  "diffKey ev = ev_TripId ev @ ''|'' @ ev_StopId ev"

definition abs32 :: "int32 \<Rightarrow> int32" where
  "abs32 x = (if x < 0 then i32 (- x) else x)"

definition abs64 :: "int64 \<Rightarrow> int64" where
  "abs64 x = (if x < 0 then i64 (- x) else x)"

text \<open>The cases of the \<open>switch\<close>: does \<open>ev\<close> differ from the committed observation?\<close>

definition changed :: "Differ \<Rightarrow> DelayEvent \<Rightarrow> diffState \<Rightarrow> bool" where
  "changed d ev obs \<longleftrightarrow>
     (if ev_Type ev \<noteq> ds_evType obs then True
      else if abs32 (i32 (ev_DelaySeconds ev - ds_delay obs)) > thresholdSeconds d then True
      else abs64 (i64 (ev_PredictedArrival ev - ds_predicted obs)) > predictedThreshold d)"

definition diff_step ::
  "int \<Rightarrow> Differ \<times> DelayEvent list \<Rightarrow> DelayEvent \<Rightarrow> Differ \<times> DelayEvent list" where
  "diff_step now st ev =
     (case st of (d, out) \<Rightarrow>
        let key = diffKey ev
        in (case mget (prev d) key of
              None \<Rightarrow> (d, out @ [ev])
            | Some obs0 \<Rightarrow>
                let obs = obs0\<lparr>ds_lastSeen := now\<rparr>;
                    d' = d\<lparr>prev := mput key obs (prev d)\<rparr>
                in (d', if changed d' ev obs then out @ [ev] else out)))"

definition Diff :: "int \<Rightarrow> Differ \<Rightarrow> DelayEvent list \<Rightarrow> Differ \<times> DelayEvent list" where
  "Diff now d events =
     (if events = [] then (d, []) else foldl (diff_step now) (d, []) events)"

definition Commit :: "int \<Rightarrow> Differ \<Rightarrow> DelayEvent \<Rightarrow> Differ" where
  "Commit now d ev =
     d\<lparr>prev := mput (diffKey ev)
        \<lparr>ds_delay = ev_DelaySeconds ev, ds_predicted = ev_PredictedArrival ev,
         ds_evType = ev_Type ev, ds_lastSeen = now\<rparr> (prev d)\<rparr>"

definition prune_step :: "int \<Rightarrow> Differ \<times> int \<Rightarrow> string \<times> diffState \<Rightarrow> Differ \<times> int" where
  "prune_step now acc e =
     (case acc of (d, n) \<Rightarrow> (case e of (key, st) \<Rightarrow>
        if time_Sub now (ds_lastSeen st) > staleness d
        then (d\<lparr>prev := mdel key (prev d)\<rparr>, n + 1) else (d, n)))"

definition Prune :: "int \<Rightarrow> Differ \<Rightarrow> Differ \<times> int" where
  "Prune now d = foldl (prune_step now) (d, 0) (prev d)"

section \<open>Lemmas\<close>

definition observed :: "Differ \<Rightarrow> DelayEvent \<Rightarrow> (int32 \<times> int64 \<times> DelayEvent_EventType) option" where
  \<comment> \<open>the committed values of an event's key\<close>
  "observed d ev = map_option (\<lambda>s. (ds_delay s, ds_predicted s, ds_evType s)) (mget (prev d) (diffKey ev))"

definition selects :: "Differ \<Rightarrow> DelayEvent \<Rightarrow> bool" where
  \<comment> \<open>the selection criterion over the committed values\<close>
  "selects d ev \<longleftrightarrow>
     (case observed d ev of
        None \<Rightarrow> True
      | Some (delay, predicted, ty) \<Rightarrow>
          ev_Type ev \<noteq> ty
          \<or> abs32 (i32 (ev_DelaySeconds ev - delay)) > thresholdSeconds d
          \<or> abs64 (i64 (ev_PredictedArrival ev - predicted)) > predictedThreshold d)"

definition same_policy :: "Differ \<Rightarrow> Differ \<Rightarrow> bool" where
  "same_policy d d' \<longleftrightarrow> thresholdSeconds d' = thresholdSeconds d
     \<and> predictedThreshold d' = predictedThreshold d \<and> staleness d' = staleness d"

lemma same_policy_refl [simp]: "same_policy d d"
  by (simp add: same_policy_def)

lemma diff_step_eq:
  "snd (diff_step now (d, out) ev) = out @ (if selects d ev then [ev] else [])
   \<and> (\<forall>ev'. observed (fst (diff_step now (d, out) ev)) ev' = observed d ev')
   \<and> same_policy d (fst (diff_step now (d, out) ev))
   \<and> (wf_map (prev d) \<longrightarrow> wf_map (prev (fst (diff_step now (d, out) ev))))"
  by (auto simp: diff_step_def Let_def selects_def observed_def changed_def same_policy_def
      split: option.splits)

lemma selects_cong:
  "\<forall>ev. observed d' ev = observed d ev \<Longrightarrow> same_policy d d' \<Longrightarrow> selects d' = selects d"
  by (auto simp: selects_def same_policy_def fun_eq_iff split: option.splits)

lemma foldl_diff_step:
  "snd (foldl (diff_step now) (d, out) evs) = out @ filter (selects d) evs
   \<and> (\<forall>ev. observed (fst (foldl (diff_step now) (d, out) evs)) ev = observed d ev)
   \<and> same_policy d (fst (foldl (diff_step now) (d, out) evs))
   \<and> (wf_map (prev d) \<longrightarrow> wf_map (prev (fst (foldl (diff_step now) (d, out) evs))))"
proof (induction evs arbitrary: d out)
  case Nil
  then show ?case by simp
next
  case (Cons e evs)
  obtain d1 out1 where s: "diff_step now (d, out) e = (d1, out1)" by fastforce
  have h: "out1 = out @ (if selects d e then [e] else [])" "\<forall>ev. observed d1 ev = observed d ev"
    "same_policy d d1" "wf_map (prev d) \<Longrightarrow> wf_map (prev d1)"
    using diff_step_eq [of now d out e] by (simp_all add: s)
  have "selects d1 = selects d" using selects_cong h by blast
  then show ?case
    using Cons [of d1 out1] h by (auto simp: s same_policy_def)
qed

lemma Diff_eq:
  "snd (Diff now d evs) = filter (selects d) evs"
  "observed (fst (Diff now d evs)) ev = observed d ev"
  "same_policy d (fst (Diff now d evs))"
  "wf_map (prev d) \<Longrightarrow> wf_map (prev (fst (Diff now d evs)))"
  using foldl_diff_step [of now d "[]" evs] by (auto simp: Diff_def)

lemma Diff_selects: "selects (fst (Diff now d evs)) = selects d"
  by (rule selects_cong) (auto simp: Diff_eq)

lemma observed_Commit:
  "observed (Commit now d ev) ev' =
     (if diffKey ev' = diffKey ev then Some (ev_DelaySeconds ev, ev_PredictedArrival ev, ev_Type ev)
      else observed d ev')"
  by (simp add: observed_def Commit_def)

lemma selects_Commit_other: "diffKey ev' \<noteq> diffKey ev \<Longrightarrow> selects (Commit now d ev) ev' = selects d ev'"
  by (simp add: selects_def observed_Commit split: option.splits) (simp add: Commit_def)

lemma same_policy_Commit [simp]: "same_policy d (Commit now d ev)"
  by (simp add: same_policy_def Commit_def)

lemma selects_Commit_same:
  "0 \<le> thresholdSeconds d \<Longrightarrow> 0 \<le> predictedThreshold d \<Longrightarrow> \<not> selects (Commit now d ev) ev"
  by (simp add: selects_def observed_Commit abs32_def abs64_def) (simp add: Commit_def)

definition stale :: "int \<Rightarrow> Differ \<Rightarrow> diffState \<Rightarrow> bool" where
  "stale now d st \<longleftrightarrow> time_Sub now (ds_lastSeen st) > staleness d"

lemma foldl_prune:
  "fst (foldl (prune_step now) (d, n) kvs) =
     d\<lparr>prev := filter (\<lambda>(k, st). \<not> (\<exists>st'. (k, st') \<in> set kvs \<and> stale now d st')) (prev d)\<rparr>
   \<and> snd (foldl (prune_step now) (d, n) kvs) = n + int (length (filter (stale now d \<circ> snd) kvs))"
proof (induction kvs arbitrary: d n)
  case Nil
  then show ?case by simp
next
  case (Cons e kvs)
  obtain key st where e: "e = (key, st)" by fastforce
  define d1 where "d1 = (if stale now d st then d\<lparr>prev := mdel key (prev d)\<rparr> else d)"
  have s: "stale now d1 = stale now d" by (auto simp: d1_def stale_def fun_eq_iff)
  have step: "prune_step now (d, n) e = (d1, if stale now d st then n + 1 else n)"
    by (simp add: prune_step_def e d1_def stale_def)
  have f: "filter (\<lambda>(k, st). \<not> (\<exists>st'. (k, st') \<in> set (e # kvs) \<and> stale now d st')) (prev d) =
      filter (\<lambda>(k, st). \<not> (\<exists>st'. (k, st') \<in> set kvs \<and> stale now d st')) (prev d1)"
    by (auto simp: d1_def e mdel_filter intro!: filter_cong)
  have "d1\<lparr>prev := m\<rparr> = d\<lparr>prev := m\<rparr>" for m by (simp add: d1_def)
  then show ?case
    unfolding f using Cons.IH [of d1 "if stale now d st then n + 1 else n"]
    by (simp add: step [unfolded e] s e)
qed

lemma Prune_eq:
  assumes "wf_map (prev d)"
  shows "Prune now d =
    (d\<lparr>prev := filter (\<lambda>(k, st). \<not> stale now d st) (prev d)\<rparr>,
     int (length (filter (stale now d \<circ> snd) (prev d))))"
proof -
  have "filter (\<lambda>(k, st). \<not> (\<exists>st'. (k, st') \<in> set (prev d) \<and> stale now d st')) (prev d) =
      filter (\<lambda>(k, st). \<not> stale now d st) (prev d)"
    using assms by (auto simp: wf_map_mem intro!: filter_cong)
  then show ?thesis
    using foldl_prune [of now d 0 "prev d"] by (simp add: Prune_def prod_eq_iff)
qed

lemma length_filter_partition:
  "length (filter (\<lambda>(k, st). \<not> P st) m) + length (filter (P \<circ> snd) m) = length m"
  by (induction m) auto

section \<open>Properties\<close>

text \<open>\<open>Diff\<close> returns, in feed order, exactly the events whose key was never published or whose
  type, delay or predicted time moved past the threshold from the last committed observation, and it
  commits nothing: a second \<open>Diff\<close> of any list selects as if the first had not run.\<close>

theorem diff_selects_without_committing:
  "snd (Diff now d events) = filter (selects d) events
   \<and> (\<forall>ev. observed (fst (Diff now d events)) ev = observed d ev)
   \<and> snd (Diff now' (fst (Diff now d events)) events') = snd (Diff now' d events')"
  by (simp add: Diff_eq Diff_selects)

lemma abs32_abs: "in_i32 x \<Longrightarrow> x \<noteq> - 2147483648 \<Longrightarrow> abs32 x = \<bar>x\<bar>"
  by (simp add: abs32_def i32_id in_i32_def)

lemma abs64_abs: "in_i64 x \<Longrightarrow> x \<noteq> - 9223372036854775808 \<Longrightarrow> abs64 x = \<bar>x\<bar>"
  by (simp add: abs64_def i64_id in_i64_def)

text \<open>C24: after an event is committed, a later event of the same trip and stop is selected if and only
  if its type differs, its delay moved by more than 15 seconds or its predicted time moved by more
  than 15 seconds (movements that overflow the integer subtraction apart); in particular the
  committed event itself is not selected again.\<close>

theorem commit_sets_the_reference:
  assumes "same_policy NewDiffer d" and "diffKey ev' = diffKey ev"
    and "\<bar>ev_DelaySeconds ev' - ev_DelaySeconds ev\<bar> \<le> 2147483647"
    and "\<bar>ev_PredictedArrival ev' - ev_PredictedArrival ev\<bar> \<le> 9223372036854775807"
  shows "ev' \<in> set (snd (Diff now' (Commit now d ev) events)) \<longleftrightarrow>
           ev' \<in> set events \<and>
           (ev_Type ev' \<noteq> ev_Type ev
            \<or> \<bar>ev_DelaySeconds ev' - ev_DelaySeconds ev\<bar> > 15
            \<or> \<bar>ev_PredictedArrival ev' - ev_PredictedArrival ev\<bar> > 15)"
proof -
  have r: "in_i32 (ev_DelaySeconds ev' - ev_DelaySeconds ev)"
    "in_i64 (ev_PredictedArrival ev' - ev_PredictedArrival ev)"
    using assms(3,4) unfolding in_i32_def in_i64_def by linarith+
  have t: "thresholdSeconds (Commit now d ev) = 15" "predictedThreshold (Commit now d ev) = 15"
    using assms(1)
    by (simp_all add: Commit_def same_policy_def NewDiffer_def
        DefaultDelayChangeThresholdSeconds_def DefaultPredictedChangeThresholdSeconds_def)
  have "selects (Commit now d ev) ev' \<longleftrightarrow> (ev_Type ev' \<noteq> ev_Type ev
      \<or> \<bar>ev_DelaySeconds ev' - ev_DelaySeconds ev\<bar> > 15
      \<or> \<bar>ev_PredictedArrival ev' - ev_PredictedArrival ev\<bar> > 15)"
    using assms(3,4) r
    by (auto simp: selects_def observed_Commit assms(2) t i32_id i64_id abs32_abs abs64_abs)
  then show ?thesis by (simp add: Diff_eq)
qed

definition demo_event :: "int32 \<Rightarrow> int64 \<Rightarrow> DelayEvent" where
  "demo_event d t =
     \<lparr>ev_AgencyId = ''MTA'', ev_TripId = ''W_1'', ev_RouteId = ''A'', ev_StopId = ''a'', ev_DelaySeconds = d,
      ev_ObservedAt = t, ev_ScheduledArrival = 0, ev_PredictedArrival = 0, ev_Type = ARRIVAL_DELAY\<rparr>"

theorem commit_sets_the_reference_witness:
  "demo_event 90 2 \<notin> set (snd (Diff 7 (Commit 5 NewDiffer (demo_event 80 1)) [demo_event 90 2]))
   \<and> demo_event 96 2 \<in> set (snd (Diff 7 (Commit 5 NewDiffer (demo_event 80 1)) [demo_event 96 2]))"
  using commit_sets_the_reference [of NewDiffer "demo_event 90 2" "demo_event 80 1" 7 5 "[demo_event 90 2]"]
    commit_sets_the_reference [of NewDiffer "demo_event 96 2" "demo_event 80 1" 7 5 "[demo_event 96 2]"]
  by (simp add: demo_event_def diffKey_def)

text \<open>\<open>Prune\<close> evicts exactly the keys not seen within the staleness window, keeps every other
  observation unchanged and reports how many it evicted.\<close>

theorem prune_evicts_exactly_stale:
  assumes "wf_map (prev d)" and "Prune now d = (d', n)"
  shows "mget (prev d') k =
           (case mget (prev d) k of
              None \<Rightarrow> None
            | Some st \<Rightarrow> if time_Sub now (ds_lastSeen st) > staleness d then None else Some st)
       \<and> n = int (length (prev d)) - int (length (prev d'))"
proof -
  have p: "prev d' = filter (\<lambda>(k, st). \<not> stale now d st) (prev d)"
    "n = int (length (filter (stale now d \<circ> snd) (prev d)))"
    using assms(2) by (auto simp: Prune_eq [OF assms(1)])
  show ?thesis
    using length_filter_partition [of "stale now d" "prev d"]
    by (auto simp: p mget_filter [OF assms(1)] stale_def split: option.splits)
qed

theorem prune_evicts_exactly_stale_witness:
  "prev (fst (Prune 1800000000001 (Commit 0 NewDiffer (demo_event 80 1)))) = []
   \<and> snd (Prune 1800000000001 (Commit 0 NewDiffer (demo_event 80 1))) = 1"
proof -
  define d where "d = Commit 0 NewDiffer (demo_event 80 1)"
  have d: "prev d = [(''W_1|a'', \<lparr>ds_delay = 80, ds_predicted = 0, ds_evType = ARRIVAL_DELAY, ds_lastSeen = 0\<rparr>)]"
    "staleness d = 1800000000000"
    by (simp_all add: d_def Commit_def NewDiffer_def demo_event_def diffKey_def DefaultStalenessWindow_def
        time_minute_def time_second_def)
  obtain d' n where p: "Prune 1800000000001 d = (d', n)" by fastforce
  have "wf_map (prev d)" by (simp add: d wf_map_def)
  note prune_evicts_exactly_stale [OF this p]
  then have k: "mget (prev d') k = None" and n: "n = 1 - int (length (prev d'))" for k
    by (auto simp: d time_Sub_def split: option.splits if_splits)
  have "prev d' = []" using k by (metis map_of_eq_empty_iff ext)
  then show ?thesis using n p by (simp flip: d_def)
qed

end
