(* ===== verification/Poller.thy ===== *)
theory Poller
  imports Differ "HOL-Library.Sublist"
begin

text \<open>
  \<open>internal/ingest/poller.go\<close> and the \<open>Publish\<close> method of \<open>internal/ingest/kafka.go\<close>.
  The outside world (HTTP client, clock, Kafka producer, protobuf codec) is a state \<open>'w\<close> with
  operations that are arguments: \<open>NewRequest\<close> tells whether a URL is valid, \<open>Do\<close> performs a
  request, \<open>Unmarshal\<close> decodes a body, \<open>Now\<close> reads the clock, \<open>Publish\<close> is the interface of the
  same name (\<open>True\<close> for a nil error). Metrics and logging are left out. The locale
  \<open>event_publisher\<close> is the contract of \<open>Publisher\<close>.
\<close>

section \<open>Definitions\<close>

record http_response =
  StatusCode :: int
  Body :: "string option" \<comment> \<open>\<open>None\<close>: reading the body fails\<close>

datatype fetch_error =
  Err_build_request | Err_http_get | Err_status int | Err_read_body | Err_unmarshal_feed

record 'w poll_env =
  NewRequest :: "string \<Rightarrow> bool"
  Do :: "string \<Rightarrow> 'w \<Rightarrow> http_response option \<times> 'w"
  Unmarshal :: "string \<Rightarrow> FeedMessage option"
  Now :: "'w \<Rightarrow> int \<times> 'w"
  Publish :: "DelayEvent \<Rightarrow> 'w \<Rightarrow> bool \<times> 'w"

record Poller =
  po_Name :: string
  po_URL :: string
  po_AgencyID :: string
  po_Interval :: int64 \<comment> \<open>nanoseconds\<close>
  po_Differ :: Differ
  po_published :: int \<comment> \<open>uint64\<close>

definition NewPoller :: "string \<Rightarrow> string \<Rightarrow> string \<Rightarrow> int64 \<Rightarrow> Poller" where
  "NewPoller name url agencyID interval =
     \<lparr>po_Name = name, po_URL = url, po_AgencyID = agencyID, po_Interval = interval, po_Differ = NewDiffer,
      po_published = 0\<rparr>"

definition Published :: "Poller \<Rightarrow> int" where
  "Published p = po_published p"

definition fetch :: "'w poll_env \<Rightarrow> Poller \<Rightarrow> 'w \<Rightarrow> (fetch_error + FeedMessage) \<times> 'w" where
  "fetch env p w =
     (if \<not> NewRequest env (po_URL p) then (Inl Err_build_request, w)
      else (case Do env (po_URL p) w of
              (None, w1) \<Rightarrow> (Inl Err_http_get, w1)
            | (Some resp, w1) \<Rightarrow>
                if StatusCode resp \<noteq> 200 then (Inl (Err_status (StatusCode resp)), w1)
                else (case Body resp of
                        None \<Rightarrow> (Inl Err_read_body, w1)
                      | Some body \<Rightarrow>
                          (case Unmarshal env body of
                             None \<Rightarrow> (Inl Err_unmarshal_feed, w1)
                           | Some msg \<Rightarrow> (Inr msg, w1)))))"

definition collect_raw :: "string \<Rightarrow> int64 \<Rightarrow> FeedEntity list \<Rightarrow> DelayEvent list" where
  "collect_raw agencyID observedAt entities =
     foldl (\<lambda>raw entity.
       let tu = GetTripUpdate (Some entity)
       in if tu = None then raw else raw @ NormalizeTripUpdate agencyID observedAt tu) [] entities"

definition publish_step :: "'w poll_env \<Rightarrow> Poller \<times> 'w \<Rightarrow> DelayEvent \<Rightarrow> Poller \<times> 'w" where
  "publish_step env st ev =
     (case st of (p, w) \<Rightarrow>
        (case Publish env ev w of
           (False, w1) \<Rightarrow> (p, w1)
         | (True, w1) \<Rightarrow>
             (case Now env w1 of (t, w2) \<Rightarrow>
                (p\<lparr>po_Differ := Commit t (po_Differ p) ev,
                   po_published := (po_published p + 1) mod 2 ^ 64\<rparr>, w2))))"

text \<open>\<open>time.Unix\<close> seconds of an instant in nanoseconds.\<close>

definition time_Unix :: "int \<Rightarrow> int64" where
  "time_Unix t = i64 (t div time_second)"

definition poll_feed :: "'w poll_env \<Rightarrow> Poller \<Rightarrow> FeedMessage \<Rightarrow> 'w \<Rightarrow> Poller \<times> 'w" where
  "poll_feed env p feed w =
     (let ts = i64 (GetTimestamp (GetHeader (Some feed)));
          (observedAt, w1) = (if ts = 0 then (case Now env w of (t, w') \<Rightarrow> (time_Unix t, w')) else (ts, w));
          raw = collect_raw (po_AgencyID p) observedAt (GetEntity (Some feed));
          (now1, w2) = Now env w1;
          (d1, chg) = Diff now1 (po_Differ p) raw;
          (p1, w3) = foldl (publish_step env) (p\<lparr>po_Differ := d1\<rparr>, w2) chg;
          (now2, w4) = Now env w3;
          (d2, pruned) = Prune now2 (po_Differ p1)
      in (p1\<lparr>po_Differ := d2\<rparr>, w4))"

definition pollOnce :: "'w poll_env \<Rightarrow> Poller \<Rightarrow> 'w \<Rightarrow> Poller \<times> 'w" where
  "pollOnce env p w =
     (case fetch env p w of
        (Inl e, w1) \<Rightarrow> (p, w1)
      | (Inr feed, w1) \<Rightarrow> poll_feed env p feed w1)"

text \<open>\<open>Start\<close>: the first poll, then one per tick until the context is done. \<open>None\<close> is the panic of
  \<open>time.NewTicker\<close> for an interval that is not positive.\<close>

datatype select_case = CtxDone | Tick

fun poll_loop :: "'w poll_env \<Rightarrow> Poller \<Rightarrow> 'w \<Rightarrow> select_case list \<Rightarrow> Poller \<times> 'w" where
  "poll_loop env p w [] = (p, w)"
| "poll_loop env p w (CtxDone # cs) = (p, w)"
| "poll_loop env p w (Tick # cs) = (case pollOnce env p w of (p', w') \<Rightarrow> poll_loop env p' w' cs)"

definition Start :: "'w poll_env \<Rightarrow> Poller \<Rightarrow> 'w \<Rightarrow> select_case list \<Rightarrow> (Poller \<times> 'w) option" where
  "Start env p w cs =
     (case pollOnce env p w of
        (p', w') \<Rightarrow> if po_Interval p' \<le> 0 then None else Some (poll_loop env p' w' cs))"

text \<open>\<open>KafkaPublisher.Publish\<close>; marshalling and the producer are arguments.\<close>

record 'b ProducerMessage =
  pm_Topic :: string
  pm_Key :: string
  pm_Value :: 'b

definition KafkaPublisher_Publish ::
  "(DelayEvent \<Rightarrow> 'b option) \<Rightarrow> ('b ProducerMessage \<Rightarrow> 'w \<Rightarrow> bool \<times> 'w) \<Rightarrow> string
   \<Rightarrow> DelayEvent \<Rightarrow> 'w \<Rightarrow> bool \<times> 'w" where
  "KafkaPublisher_Publish marshal SendMessage topic ev w =
     (case marshal ev of
        None \<Rightarrow> (False, w)
      | Some payload \<Rightarrow> SendMessage \<lparr>pm_Topic = topic, pm_Key = ev_RouteId ev, pm_Value = payload\<rparr> w)"

text \<open>A poll changes the differ and the counter of its poller only.\<close>

definition same_feed :: "Poller \<Rightarrow> Poller \<Rightarrow> bool" where
  "same_feed p p' \<longleftrightarrow> po_Name p' = po_Name p \<and> po_URL p' = po_URL p \<and> po_AgencyID p' = po_AgencyID p
     \<and> po_Interval p' = po_Interval p"

lemma publish_step_feed: "publish_step env st ev = (p', w') \<Longrightarrow> same_feed (fst st) p'"
  by (auto simp: publish_step_def same_feed_def split: prod.splits bool.splits)

lemma publish_loop_feed: "foldl (publish_step env) st evs = (p', w') \<Longrightarrow> same_feed (fst st) p'"
proof (induction evs arbitrary: st)
  case (Cons ev evs)
  obtain p1 w1 where "publish_step env st ev = (p1, w1)" by fastforce
  with Cons.IH [of "(p1, w1)"] Cons.prems publish_step_feed [of env st ev] show ?case
    by (simp add: same_feed_def)
qed (simp add: same_feed_def)

lemma pollOnce_feed: "pollOnce env p w = (p', w') \<Longrightarrow> same_feed p p'"
  by (auto simp: pollOnce_def poll_feed_def Let_def same_feed_def split: prod.splits sum.splits
      dest!: publish_loop_feed)

section \<open>The publisher contract\<close>

locale event_publisher =
  fixes env :: "'w poll_env" and published_log :: "'w \<Rightarrow> DelayEvent list"
  assumes publish_ok: "Publish env ev w = (True, w') \<Longrightarrow> published_log w' = published_log w @ [ev]"
    and publish_err: "Publish env ev w = (False, w') \<Longrightarrow> published_log w' = published_log w"
    and now_log: "Now env w = (t, w') \<Longrightarrow> published_log w' = published_log w"
    and do_log: "Do env url w = (resp, w') \<Longrightarrow> published_log w' = published_log w"
begin

lemma publish_step_cases:
  "publish_step env (p, w) ev = (p', w') \<Longrightarrow>
     p' = p \<and> published_log w' = published_log w
   \<or> (\<exists>t. p' = p\<lparr>po_Differ := Commit t (po_Differ p) ev, po_published := (po_published p + 1) mod 2 ^ 64\<rparr>
        \<and> published_log w' = published_log w @ [ev])"
  by (auto simp: publish_step_def split: prod.splits bool.splits
      dest!: publish_ok publish_err now_log)

text \<open>The loop over the changed events: what reached the log is exactly what was committed.\<close>

lemma publish_loop:
  "foldl (publish_step env) (p, w) evs = (p', w') \<Longrightarrow> 0 \<le> po_published p \<Longrightarrow> po_published p < 2 ^ 64 \<Longrightarrow>
   \<exists>acked. subseq acked evs \<and> published_log w' = published_log w @ acked
     \<and> po_published p' = (po_published p + int (length acked)) mod 2 ^ 64
     \<and> same_policy (po_Differ p) (po_Differ p')
     \<and> (wf_map (prev (po_Differ p)) \<longrightarrow> wf_map (prev (po_Differ p')))
     \<and> (\<forall>ev. diffKey ev \<notin> diffKey ` set acked \<longrightarrow> observed (po_Differ p') ev = observed (po_Differ p) ev)
     \<and> (\<forall>ev. ev \<in> set acked \<longrightarrow> distinct (map diffKey evs) \<longrightarrow>
          observed (po_Differ p') ev = Some (ev_DelaySeconds ev, ev_PredictedArrival ev, ev_Type ev))"
proof (induction evs arbitrary: p w)
  case Nil
  then show ?case by (auto intro!: exI [of _ "[]"])
next
  case (Cons e evs)
  obtain p1 w1 where s: "publish_step env (p, w) e = (p1, w1)" by fastforce
  from publish_step_cases [OF s] show ?case
  proof (elim disjE conjE exE)
    assume "p1 = p" "published_log w1 = published_log w"
    with Cons.IH [of p1 w1] Cons.prems s show ?thesis by (fastforce intro: list_emb_Cons)
  next
    fix t assume p1: "p1 = p\<lparr>po_Differ := Commit t (po_Differ p) e,
        po_published := (po_published p + 1) mod 2 ^ 64\<rparr>"
      and w1: "published_log w1 = published_log w @ [e]"
    have "foldl (publish_step env) (p1, w1) evs = (p', w')" using Cons.prems(1) s by simp
    from Cons.IH [OF this] obtain acked where a: "subseq acked evs"
      "published_log w' = published_log w1 @ acked"
      "po_published p' = (po_published p1 + int (length acked)) mod 2 ^ 64"
      "same_policy (po_Differ p1) (po_Differ p')"
      "wf_map (prev (po_Differ p1)) \<longrightarrow> wf_map (prev (po_Differ p'))"
      "\<forall>ev. diffKey ev \<notin> diffKey ` set acked \<longrightarrow> observed (po_Differ p') ev = observed (po_Differ p1) ev"
      "\<forall>ev. ev \<in> set acked \<longrightarrow> distinct (map diffKey evs) \<longrightarrow>
          observed (po_Differ p') ev = Some (ev_DelaySeconds ev, ev_PredictedArrival ev, ev_Type ev)"
      by (auto simp: p1)
    have "set acked \<subseteq> set evs" using a(1) by (auto dest: list_emb_set)
    then have e: "distinct (map diffKey (e # evs)) \<Longrightarrow> diffKey e \<notin> diffKey ` set acked" by auto
    have n: "po_published p' = (po_published p + int (length (e # acked))) mod 2 ^ 64"
      using a(3) by (simp add: p1 mod_simps add.assoc)
    show ?thesis
    proof (intro exI [of _ "e # acked"] conjI)
      show "same_policy (po_Differ p) (po_Differ p')"
        using a(4) by (simp add: p1 same_policy_def Commit_def)
      show "wf_map (prev (po_Differ p)) \<longrightarrow> wf_map (prev (po_Differ p'))"
        using a(5) by (simp add: p1 Commit_def)
      show "\<forall>ev. diffKey ev \<notin> diffKey ` set (e # acked) \<longrightarrow> observed (po_Differ p') ev = observed (po_Differ p) ev"
        using a(6) by (simp add: p1 observed_Commit)
      show "\<forall>ev. ev \<in> set (e # acked) \<longrightarrow> distinct (map diffKey (e # evs)) \<longrightarrow>
          observed (po_Differ p') ev = Some (ev_DelaySeconds ev, ev_PredictedArrival ev, ev_Type ev)"
        using a(6,7) e by (simp add: p1 observed_Commit)
    qed (use a(1,2) w1 n in simp_all)
  qed
qed

lemma poll_feed_delivery:
  assumes "poll_feed env p feed w = (p', w')" "0 \<le> po_published p" "po_published p < 2 ^ 64"
    and "wf_map (prev (po_Differ p))"
  obtains observedAt acked where
    "subseq acked (filter (selects (po_Differ p)) (collect_raw (po_AgencyID p) observedAt (fm_Entity feed)))"
    "published_log w' = published_log w @ acked"
    "po_published p' = (po_published p + int (length acked)) mod 2 ^ 64"
    "\<And>ev. ev \<in> set (collect_raw (po_AgencyID p) observedAt (fm_Entity feed)) \<Longrightarrow>
       selects (po_Differ p) ev \<Longrightarrow> diffKey ev \<notin> diffKey ` set acked \<Longrightarrow> selects (po_Differ p') ev"
    "\<And>ev. ev \<in> set acked \<Longrightarrow> distinct (map diffKey (collect_raw (po_AgencyID p) observedAt (fm_Entity feed))) \<Longrightarrow>
       observed (po_Differ p') ev \<in> {None, Some (ev_DelaySeconds ev, ev_PredictedArrival ev, ev_Type ev)}"
    "GetTimestamp (fm_Header feed) > 0 \<Longrightarrow> in_i64 (GetTimestamp (fm_Header feed)) \<Longrightarrow>
       observedAt = GetTimestamp (fm_Header feed)"
    "wf_map (prev (po_Differ p'))"
proof -
  define ts where "ts = i64 (GetTimestamp (GetHeader (Some feed)))"
  obtain observedAt w1 where o: "(if ts = 0 then (case Now env w of (t, w') \<Rightarrow> (time_Unix t, w')) else (ts, w)) = (observedAt, w1)"
    by fastforce
  define raw where "raw = collect_raw (po_AgencyID p) observedAt (fm_Entity feed)"
  obtain now1 w2 where n1: "Now env w1 = (now1, w2)" by fastforce
  obtain d1 chg where d: "Diff now1 (po_Differ p) raw = (d1, chg)" by fastforce
  obtain p1 w3 where l: "foldl (publish_step env) (p\<lparr>po_Differ := d1\<rparr>, w2) chg = (p1, w3)" by fastforce
  obtain now2 w4 where n2: "Now env w3 = (now2, w4)" by fastforce
  obtain d2 n where pr: "Prune now2 (po_Differ p1) = (d2, n)" by fastforce
  have r: "p' = p1\<lparr>po_Differ := d2\<rparr>" "w' = w4"
    using assms(1) o n1 d l n2 pr
    by (auto simp: poll_feed_def Let_def GetEntity_def raw_def ts_def split: if_splits)
  have chg: "chg = filter (selects (po_Differ p)) raw" "\<forall>ev. observed d1 ev = observed (po_Differ p) ev"
    "same_policy (po_Differ p) d1" "wf_map (prev d1)"
    using Diff_eq [where now = now1 and d = "po_Differ p" and evs = raw] assms(4) by (simp_all add: d)
  have log: "published_log w1 = published_log w" "published_log w2 = published_log w1"
    "published_log w4 = published_log w3"
    using o now_log n1 n2 by (auto split: if_splits prod.splits)
  from publish_loop [OF l] assms(2,3) obtain acked where a: "subseq acked chg"
    "published_log w3 = published_log w2 @ acked"
    "po_published p1 = (po_published p + int (length acked)) mod 2 ^ 64"
    "same_policy d1 (po_Differ p1)" "wf_map (prev (po_Differ p1))"
    "\<And>ev. diffKey ev \<notin> diffKey ` set acked \<Longrightarrow> observed (po_Differ p1) ev = observed d1 ev"
    "\<And>ev. ev \<in> set acked \<Longrightarrow> distinct (map diffKey chg) \<Longrightarrow>
       observed (po_Differ p1) ev = Some (ev_DelaySeconds ev, ev_PredictedArrival ev, ev_Type ev)"
    using chg(4) by auto
  have d2: "observed d2 ev \<in> {None, observed (po_Differ p1) ev}" "same_policy (po_Differ p1) d2" for ev
    using Prune_eq [OF a(5), of now2] pr
    by (auto simp: observed_def mget_filter [OF a(5)] same_policy_def split: option.splits if_splits)
  show ?thesis
  proof (rule that [of acked observedAt])
    show "subseq acked (filter (selects (po_Differ p)) (collect_raw (po_AgencyID p) observedAt (fm_Entity feed)))"
      using a(1) chg(1) by (simp add: raw_def)
    show "published_log w' = published_log w @ acked" using a(2) log r by simp
    show "po_published p' = (po_published p + int (length acked)) mod 2 ^ 64" using a(3) r by simp
    show "selects (po_Differ p') ev" if "selects (po_Differ p) ev" "diffKey ev \<notin> diffKey ` set acked" for ev
    proof -
      have "observed d2 ev \<in> {None, observed (po_Differ p) ev}"
        using d2(1) [of ev] a(6) [OF that(2)] chg(2) by simp
      then show ?thesis
        using that(1) d2(2) a(4) chg(3) r(1)
        by (auto simp: selects_def same_policy_def split: option.splits)
    qed
    show "observed (po_Differ p') ev \<in> {None, Some (ev_DelaySeconds ev, ev_PredictedArrival ev, ev_Type ev)}"
      if "ev \<in> set acked" "distinct (map diffKey (collect_raw (po_AgencyID p) observedAt (fm_Entity feed)))" for ev
    proof -
      have "distinct (map diffKey chg)"
        using that(2) by (simp add: chg(1) raw_def distinct_map_filter)
      then show ?thesis using a(7) [OF that(1)] d2(1) [of ev] r by auto
    qed
    show "observedAt = GetTimestamp (fm_Header feed)"
      if "GetTimestamp (fm_Header feed) > 0" "in_i64 (GetTimestamp (fm_Header feed))"
      using o that by (simp add: ts_def GetHeader_def i64_id)
    show "wf_map (prev (po_Differ p'))" using Prune_eq [OF a(5), of now2] pr a(5) r by auto
  qed
qed

end

section \<open>A Kafka publisher over a scripted broker\<close>

record kafka_world =
  kw_results :: "bool list" \<comment> \<open>outcomes of the next sends; success once exhausted\<close>
  kw_log :: "DelayEvent ProducerMessage list"
  kw_clock :: int

definition kafka_send :: "DelayEvent ProducerMessage \<Rightarrow> kafka_world \<Rightarrow> bool \<times> kafka_world" where
  "kafka_send m w =
     (case kw_results w of
        [] \<Rightarrow> (True, w\<lparr>kw_log := kw_log w @ [m]\<rparr>)
      | r # rs \<Rightarrow> (r, w\<lparr>kw_results := rs, kw_log := (if r then kw_log w @ [m] else kw_log w)\<rparr>))"

definition kafka_env :: "FeedMessage \<Rightarrow> kafka_world poll_env" where
  "kafka_env feed =
     \<lparr>NewRequest = (\<lambda>url. url \<noteq> []),
      Do = (\<lambda>url w. (Some \<lparr>StatusCode = 200, Body = Some ''feed''\<rparr>, w)),
      Unmarshal = (\<lambda>body. if body = ''feed'' then Some feed else None),
      Now = (\<lambda>w. (kw_clock w, w\<lparr>kw_clock := kw_clock w + time_second\<rparr>)),
      Publish = KafkaPublisher_Publish Some kafka_send ''delay-events''\<rparr>"

interpretation kafka: event_publisher "kafka_env feed" "\<lambda>w. map pm_Value (kw_log w)"
  by unfold_locales
    (auto simp: kafka_env_def KafkaPublisher_Publish_def kafka_send_def split: list.splits)

section \<open>Properties\<close>

text \<open>C11: one poll publishes, in feed order, a sub-list of the events the differ selected, and what
  reaches the publisher's log is exactly what is committed: an event whose publish failed is selected
  again by the next poll, an event whose publish succeeded has its values as the committed reference
  (or its key has been pruned), and the counter grows by the number of successes. A failed fetch
  changes nothing.\<close>

theorem poll_publishes_or_retries:
  assumes "event_publisher env published_log"
    and "pollOnce env p w = (p', w')"
    and "0 \<le> Published p" and "Published p < 2 ^ 64" and "wf_map (prev (po_Differ p))"
  shows "case fetch env p w of
           (Inl e, w1) \<Rightarrow> p' = p \<and> w' = w1
         | (Inr feed, w1) \<Rightarrow>
             (\<exists>observedAt acked.
               let raw = collect_raw (po_AgencyID p) observedAt (fm_Entity feed)
               in subseq acked (filter (selects (po_Differ p)) raw)
                \<and> published_log w' = published_log w1 @ acked
                \<and> Published p' = (Published p + int (length acked)) mod 2 ^ 64
                \<and> (\<forall>ev\<in>set raw. selects (po_Differ p) ev \<and> diffKey ev \<notin> diffKey ` set acked
                     \<longrightarrow> selects (po_Differ p') ev)
                \<and> (distinct (map diffKey raw) \<longrightarrow>
                     (\<forall>ev\<in>set acked. observed (po_Differ p') ev
                        \<in> {None, Some (ev_DelaySeconds ev, ev_PredictedArrival ev, ev_Type ev)})))"
proof -
  obtain r w1 where f: "fetch env p w = (r, w1)" by fastforce
  show ?thesis
  proof (cases r)
    case (Inl e)
    then show ?thesis using assms(2) f by (simp add: pollOnce_def)
  next
    case (Inr feed)
    then have "poll_feed env p feed w1 = (p', w')" using assms(2) f by (simp add: pollOnce_def)
    from event_publisher.poll_feed_delivery [OF assms(1) this assms(3-5) [unfolded Published_def]]
    show ?thesis by (simp add: f Inr Published_def Let_def) metis
  qed
qed

definition demo_feed :: FeedMessage where
  "demo_feed =
     \<lparr>fm_Header = Some \<lparr>fh_Timestamp = Some 900\<rparr>, fm_Entity = [\<lparr>fe_TripUpdate = Some demo_update\<rparr>]\<rparr>"

definition demo_poller :: Poller where
  "demo_poller = NewPoller ''F'' ''http://feed'' ''MTA'' 15000000000"

definition demo_world :: kafka_world where
  "demo_world = \<lparr>kw_results = [False, True], kw_log = [], kw_clock = 1000 * time_second\<rparr>"

text \<open>The first of the two events is lost by the broker, the second is accepted.\<close>

theorem poll_publishes_or_retries_witness:
  "map (ev_StopId \<circ> pm_Value) (kw_log (snd (pollOnce (kafka_env demo_feed) demo_poller demo_world))) = [''630N'']
   \<and> (\<exists>acked. map pm_Value (kw_log (snd (pollOnce (kafka_env demo_feed) demo_poller demo_world))) = acked
        \<and> Published (fst (pollOnce (kafka_env demo_feed) demo_poller demo_world)) = int (length acked) mod 2 ^ 64)"
proof -
  obtain p' w' where p: "pollOnce (kafka_env demo_feed) demo_poller demo_world = (p', w')" by fastforce
  have f: "fetch (kafka_env demo_feed) demo_poller demo_world = (Inr demo_feed, demo_world)"
    by (simp add: fetch_def kafka_env_def demo_poller_def NewPoller_def)
  have h: "0 \<le> Published demo_poller" "Published demo_poller < 2 ^ 64" "wf_map (prev (po_Differ demo_poller))"
    "Published demo_poller = 0"
    by (simp_all add: demo_poller_def NewPoller_def NewDiffer_def Published_def)
  have l: "kw_log demo_world = []" by (simp add: demo_world_def)
  from poll_publishes_or_retries [OF kafka.event_publisher_axioms p h(1-3)]
  have "\<exists>acked. map pm_Value (kw_log w') = acked \<and> Published p' = int (length acked) mod 2 ^ 64"
    by (auto simp: f h(4) l Let_def)
  moreover have "map (ev_StopId \<circ> pm_Value)
      (kw_log (snd (pollOnce (kafka_env demo_feed) demo_poller demo_world))) = [''630N'']"
    by code_simp
  ultimately show ?thesis by (simp add: p)
qed

end
