(* ===== verification/Redis.thy ===== *)
theory Redis
  imports Float64
begin

text \<open>
  The two things the stores are written against.

  \<^item> \<open>encoding/json\<close>: a document is its tree (\<open>json\<close>); the text encoding is taken to be
    lossless, and bytes that are no document are \<open>Raw\<close>. Marshalling a struct lists its tagged
    fields in order; unmarshalling takes the zero value for an absent or null field, ignores unknown
    fields and fails on a value of the wrong type or out of the field's range.
  \<^item> \<open>go-redis\<close>, which is not part of the repository: the operations the code calls are the
    fields of \<open>RedisClient\<close>, over an abstract connection state \<open>'r\<close>. The locale \<open>redis_client\<close>
    states the documented effect of each on the keyspace; every operation may fail, and a failed write
    may or may not have been applied. Keys expire between operations, so expiry is a deletion by the
    environment and the time-to-live argument has no effect here. \<open>mem_redis\<close> is an in-memory server
    in the style of the one the repository's tests run against.
\<close>

section \<open>JSON documents\<close>

datatype json =
  JNull | JBool bool | JNum rat | JStr string | JObj "(string \<times> json) list" | Raw string

text \<open>A field of an object: the last of several wins.\<close>

definition jfield :: "string \<Rightarrow> (string \<times> json) list \<Rightarrow> json option" where
  "jfield name fields = map_of (rev fields) name"

definition dec_string :: "json option \<Rightarrow> string option" where
  "dec_string j = (case j of None \<Rightarrow> Some [] | Some JNull \<Rightarrow> Some [] | Some (JStr s) \<Rightarrow> Some s | _ \<Rightarrow> None)"

definition dec_bool :: "json option \<Rightarrow> bool option" where
  "dec_bool j = (case j of None \<Rightarrow> Some False | Some JNull \<Rightarrow> Some False | Some (JBool b) \<Rightarrow> Some b | _ \<Rightarrow> None)"

definition dec_float :: "json option \<Rightarrow> float64 option" where
  "dec_float j = (case j of None \<Rightarrow> Some 0 | Some JNull \<Rightarrow> Some 0 | Some (JNum q) \<Rightarrow> Some (f64 q) | _ \<Rightarrow> None)"

definition dec_int :: "(int \<Rightarrow> bool) \<Rightarrow> json option \<Rightarrow> int option" where
  "dec_int in_range j =
     (case j of
        None \<Rightarrow> Some 0
      | Some JNull \<Rightarrow> Some 0
      | Some (JNum q) \<Rightarrow> if of_int \<lfloor>q\<rfloor> = q \<and> in_range \<lfloor>q\<rfloor> then Some \<lfloor>q\<rfloor> else None
      | _ \<Rightarrow> None)"

abbreviation dec_i32 :: "json option \<Rightarrow> int option" where "dec_i32 \<equiv> dec_int in_i32"
abbreviation dec_i64 :: "json option \<Rightarrow> int option" where "dec_i64 \<equiv> dec_int in_i64"

definition enc_int :: "int \<Rightarrow> json" where
  "enc_int i = JNum (of_int i)"

lemma dec_enc [simp]:
  "dec_string (Some (JStr s)) = Some s" "dec_bool (Some (JBool b)) = Some b"
  "dec_float (Some (JNum q)) = Some (f64 q)"
  "P i \<Longrightarrow> dec_int P (Some (enc_int i)) = Some i"
  by (simp_all add: dec_string_def dec_bool_def dec_float_def dec_int_def enc_int_def)

section \<open>Commands\<close>

datatype redis_error = RedisNil | RedisErr

datatype redis_value = VStr json | VZSet "(json, rat) gomap"

type_synonym keyspace = "string \<Rightarrow> redis_value option"

record 'r RedisClient =
  rd_Get :: "string \<Rightarrow> 'r \<Rightarrow> (redis_error + json) \<times> 'r"
  rd_Set :: "string \<Rightarrow> json \<Rightarrow> int64 \<Rightarrow> 'r \<Rightarrow> redis_error option \<times> 'r"
  rd_SetXX :: "string \<Rightarrow> json \<Rightarrow> 'r \<Rightarrow> redis_error option \<times> 'r"
  rd_Del :: "string list \<Rightarrow> 'r \<Rightarrow> redis_error option \<times> 'r"
  rd_Scan :: "string \<Rightarrow> 'r \<Rightarrow> (string list \<times> redis_error option) \<times> 'r"
  rd_ZAdd :: "string \<Rightarrow> rat \<Rightarrow> json \<Rightarrow> 'r \<Rightarrow> redis_error option \<times> 'r"
  rd_ZRem :: "string \<Rightarrow> json \<Rightarrow> 'r \<Rightarrow> (redis_error + int) \<times> 'r"
  rd_ZRemRangeByScore :: "string \<Rightarrow> rat \<Rightarrow> 'r \<Rightarrow> redis_error option \<times> 'r"
  rd_ZRangeByScore :: "string \<Rightarrow> rat option \<Rightarrow> rat option \<Rightarrow> nat option \<Rightarrow> 'r \<Rightarrow> (redis_error + json list) \<times> 'r"
  rd_Expire :: "string \<Rightarrow> int64 \<Rightarrow> 'r \<Rightarrow> redis_error option \<times> 'r"

text \<open>A pipeline runs its commands in order and reports the first error.\<close>

fun pipe_exec :: "('r \<Rightarrow> redis_error option \<times> 'r) list \<Rightarrow> 'r \<Rightarrow> redis_error option \<times> 'r" where
  "pipe_exec [] r = (None, r)"
| "pipe_exec (c # cs) r =
     (case c r of (e, r1) \<Rightarrow>
        (case pipe_exec cs r1 of (e', r2) \<Rightarrow> (case e of None \<Rightarrow> e' | Some x \<Rightarrow> Some x, r2)))"

text \<open>Key patterns, as the server matches them: \<open>*\<close> stands for any text, \<open>?\<close> for one character, brackets for
  one of a class of characters, and a backslash takes the next character literally. Bytes compare signed.\<close>

definition byte_of :: "char \<Rightarrow> int" where
  "byte_of c = (let n = int (of_char c) in if n < 128 then n else n - 256)"

definition in_range :: "char \<Rightarrow> char \<Rightarrow> char \<Rightarrow> bool" where
  "in_range a b c =
     (min (byte_of a) (byte_of b) \<le> byte_of c \<and> byte_of c \<le> max (byte_of a) (byte_of b))"

text \<open>Whether the character belongs to the class that starts here, and the pattern behind the class.\<close>

fun glob_class :: "char \<Rightarrow> string \<Rightarrow> bool \<times> string" where
  "glob_class c [] = (False, [])"
| "glob_class c (p # ps) =
     (if p = CHR 0x5C \<and> ps \<noteq> [] then (case glob_class c (tl ps) of (m, rest) \<Rightarrow> (hd ps = c \<or> m, rest))
      else if p = CHR '']'' then (False, ps)
      else if 2 \<le> length ps \<and> hd ps = CHR ''-''
           then (case glob_class c (drop 2 ps) of (m, rest) \<Rightarrow> (in_range p (ps ! 1) c \<or> m, rest))
      else (case glob_class c ps of (m, rest) \<Rightarrow> (p = c \<or> m, rest)))"

definition glob_brackets :: "char \<Rightarrow> string \<Rightarrow> bool \<times> string" where
  "glob_brackets c ps =
     (case ps of
        [] \<Rightarrow> (False, [])
      | p # qs \<Rightarrow> if p = CHR ''^'' then (case glob_class c qs of (m, rest) \<Rightarrow> (\<not> m, rest)) else glob_class c ps)"

fun glob :: "string \<Rightarrow> string \<Rightarrow> bool" where
  "glob [] s = (s = [])"
| "glob (p # ps) [] = (p = CHR ''*'' \<and> glob ps [])"
| "glob (p # ps) (c # s) =
     (if p = CHR ''*'' then glob ps (c # s) \<or> glob (p # ps) s
      else if p = CHR ''?'' then glob ps s
      else if p = CHR ''['' then (case glob_brackets c ps of (ok, rest) \<Rightarrow> ok \<and> glob rest s)
      else if p = CHR 0x5C \<and> ps \<noteq> [] then hd ps = c \<and> glob (tl ps) s
      else p = c \<and> glob ps s)"

section \<open>The keyspace\<close>

definition zset :: "keyspace \<Rightarrow> string \<Rightarrow> (json, rat) gomap option" where
  \<comment> \<open>\<open>None\<close>: the key holds a value of another type\<close>
  "zset ks k = (case ks k of None \<Rightarrow> Some [] | Some (VZSet z) \<Rightarrow> Some z | Some (VStr _) \<Rightarrow> None)"

definition put_zset :: "string \<Rightarrow> (json, rat) gomap \<Rightarrow> keyspace \<Rightarrow> keyspace" where
  \<comment> \<open>an empty set does not exist\<close>
  "put_zset k z ks = (if z = [] then ks(k := None) else ks(k \<mapsto> VZSet z))"

definition in_scores :: "rat option \<Rightarrow> rat option \<Rightarrow> json \<times> rat \<Rightarrow> bool" where
  "in_scores lo hi e \<longleftrightarrow>
     (case lo of None \<Rightarrow> True | Some l \<Rightarrow> l \<le> snd e) \<and> (case hi of None \<Rightarrow> True | Some h \<Rightarrow> snd e \<le> h)"

definition zrange :: "rat option \<Rightarrow> rat option \<Rightarrow> nat option \<Rightarrow> (json, rat) gomap \<Rightarrow> json list" where
  "zrange lo hi cnt z =
     (let xs = map fst (sort_key snd (filter (in_scores lo hi) z))
      in case cnt of None \<Rightarrow> xs | Some n \<Rightarrow> take n xs)"

definition glob_free :: "string \<Rightarrow> bool" where
  "glob_free s \<longleftrightarrow> CHR ''*'' \<notin> set s \<and> CHR ''?'' \<notin> set s \<and> CHR ''['' \<notin> set s \<and> CHR 0x5C \<notin> set s"

lemma glob_star [simp]: "glob ''*'' s"
  by (induction s) auto

lemma glob_literal_append: "glob_free p \<Longrightarrow> glob (p @ q) s \<longleftrightarrow> (\<exists>t. s = p @ t \<and> glob q t)"
proof (induction p arbitrary: s)
  case (Cons c p)
  then show ?case by (cases s) (auto simp: glob_free_def)
qed simp

lemma glob_prefix: "glob_free p \<Longrightarrow> glob (p @ ''*'') s \<longleftrightarrow> (\<exists>t. s = p @ t)"
  by (simp add: glob_literal_append)

section \<open>The client's contract\<close>

locale redis_client =
  fixes R :: "'r RedisClient" and ks :: "'r \<Rightarrow> keyspace"
  assumes Get_law: "rd_Get R k r = (res, r') \<Longrightarrow> ks r' = ks r \<and>
      (res = Inl RedisErr \<or> ks r k = None \<and> res = Inl RedisNil \<or> (\<exists>v. ks r k = Some (VStr v) \<and> res = Inr v))"
    and Set_law: "rd_Set R k v ttl r = (e, r') \<Longrightarrow> ks r' = (ks r)(k \<mapsto> VStr v) \<or> e \<noteq> None \<and> ks r' = ks r"
    and SetXX_law: "rd_SetXX R k v r = (e, r') \<Longrightarrow>
      (if ks r k = None then ks r' = ks r \<and> e \<noteq> None
       else ks r' = (ks r)(k \<mapsto> VStr v) \<and> e \<noteq> Some RedisNil \<or> e = Some RedisErr \<and> ks r' = ks r)"
    and Del_law: "rd_Del R keys r = (e, r') \<Longrightarrow>
      ks r' = (\<lambda>k. if k \<in> set keys then None else ks r k) \<or> e \<noteq> None \<and> ks r' = ks r"
    and Scan_law: "rd_Scan R pat r = ((keys, e), r') \<Longrightarrow> ks r' = ks r \<and>
      set keys \<subseteq> {k. ks r k \<noteq> None \<and> glob pat k} \<and> (e = None \<longrightarrow> set keys = {k. ks r k \<noteq> None \<and> glob pat k})"
    and ZAdd_law: "rd_ZAdd R k s m r = (e, r') \<Longrightarrow>
      (\<exists>z. zset (ks r) k = Some z \<and> ks r' = put_zset k (mput m s z) (ks r)) \<or> e \<noteq> None \<and> ks r' = ks r"
    and ZRem_law: "rd_ZRem R k m r = (resi, r') \<Longrightarrow>
      (\<exists>z. zset (ks r) k = Some z \<and> ks r' = put_zset k (mdel m z) (ks r)
         \<and> (resi = Inl RedisErr \<or> resi = Inr (if mget z m = None then 0 else 1)))
      \<or> resi = Inl RedisErr \<and> ks r' = ks r"
    and ZRemRangeByScore_law: "rd_ZRemRangeByScore R k mx r = (e, r') \<Longrightarrow>
      (\<exists>z. zset (ks r) k = Some z \<and> ks r' = put_zset k (filter (\<lambda>x. \<not> snd x \<le> mx) z) (ks r))
      \<or> e \<noteq> None \<and> ks r' = ks r"
    and ZRangeByScore_law: "rd_ZRangeByScore R k lo hi cnt r = (resl, r') \<Longrightarrow> ks r' = ks r \<and>
      (resl = Inl RedisErr \<or>
       (\<exists>z xs. zset (ks r) k = Some z \<and> mset xs = mset (filter (in_scores lo hi) z) \<and> sorted (map snd xs)
          \<and> resl = Inr (map fst (case cnt of None \<Rightarrow> xs | Some n \<Rightarrow> take n xs))))"
    and Expire_law: "rd_Expire R k ttl r = (e, r') \<Longrightarrow> ks r' = ks r"

text \<open>On a healthy connection no command fails but for a key of another type.\<close>

locale healthy_redis = redis_client R ks
  for R :: "'r RedisClient" and ks :: "'r \<Rightarrow> keyspace" +
  fixes healthy :: "'r \<Rightarrow> bool"
  assumes Get_healthy: "healthy r \<Longrightarrow> rd_Get R k r = (res, r') \<Longrightarrow>
      healthy r' \<and> (res = Inl RedisErr \<longrightarrow> (\<exists>z. ks r k = Some (VZSet z)))"
    and Set_healthy: "healthy r \<Longrightarrow> rd_Set R k v ttl r = (e, r') \<Longrightarrow> healthy r' \<and> e = None"
    and SetXX_healthy: "healthy r \<Longrightarrow> rd_SetXX R k v r = (e, r') \<Longrightarrow>
      healthy r' \<and> e = (if ks r k = None then Some RedisNil else None)"
    and Del_healthy: "healthy r \<Longrightarrow> rd_Del R keys r = (e, r') \<Longrightarrow> healthy r' \<and> e = None"
    and Scan_healthy: "healthy r \<Longrightarrow> rd_Scan R pat r = ((keys, e), r') \<Longrightarrow> healthy r' \<and> e = None"
    and ZAdd_healthy: "healthy r \<Longrightarrow> rd_ZAdd R k s m r = (e, r') \<Longrightarrow>
      healthy r' \<and> (zset (ks r) k \<noteq> None \<longrightarrow> e = None)"
    and ZRem_healthy: "healthy r \<Longrightarrow> rd_ZRem R k m r = (resi, r') \<Longrightarrow>
      healthy r' \<and> (zset (ks r) k \<noteq> None \<longrightarrow> resi \<noteq> Inl RedisErr)"
    and ZRemRangeByScore_healthy: "healthy r \<Longrightarrow> rd_ZRemRangeByScore R k mx r = (e, r') \<Longrightarrow>
      healthy r' \<and> (zset (ks r) k \<noteq> None \<longrightarrow> e = None)"
    and ZRangeByScore_healthy: "healthy r \<Longrightarrow> rd_ZRangeByScore R k lo hi cnt r = (resl, r') \<Longrightarrow>
      healthy r' \<and> (zset (ks r) k \<noteq> None \<longrightarrow> resl \<noteq> Inl RedisErr)"
    and Expire_healthy: "healthy r \<Longrightarrow> rd_Expire R k ttl r = (e, r') \<Longrightarrow> healthy r' \<and> e = None"

section \<open>An in-memory server\<close>

text \<open>The keyspace as an association list; \<open>mr_fail\<close> scripts which of the next commands fail.\<close>

record mem_redis =
  mr_data :: "(string, redis_value) gomap"
  mr_fail :: "bool list"

definition mem_ks :: "mem_redis \<Rightarrow> keyspace" where
  "mem_ks r = mget (mr_data r)"

definition mem_try :: "(mem_redis \<Rightarrow> 'a \<times> mem_redis) \<Rightarrow> 'a \<Rightarrow> mem_redis \<Rightarrow> 'a \<times> mem_redis" where
  "mem_try f err r =
     (case mr_fail r of
        [] \<Rightarrow> f r
      | b # bs \<Rightarrow> if b then (err, r\<lparr>mr_fail := bs\<rparr>) else f (r\<lparr>mr_fail := bs\<rparr>))"

definition mem_zset :: "mem_redis \<Rightarrow> string \<Rightarrow> (json, rat) gomap option" where
  "mem_zset r k = zset (mget (mr_data r)) k"

definition mem_put_zset :: "string \<Rightarrow> (json, rat) gomap \<Rightarrow> mem_redis \<Rightarrow> mem_redis" where
  "mem_put_zset k z r = r\<lparr>mr_data := (if z = [] then mdel k (mr_data r) else mput k (VZSet z) (mr_data r))\<rparr>"

definition mem_client :: "mem_redis RedisClient" where
  "mem_client =
     \<lparr>rd_Get = (\<lambda>k. mem_try (\<lambda>r. (case mget (mr_data r) k of
          None \<Rightarrow> Inl RedisNil | Some (VStr v) \<Rightarrow> Inr v | Some (VZSet _) \<Rightarrow> Inl RedisErr, r)) (Inl RedisErr)),
      rd_Set = (\<lambda>k v ttl. mem_try (\<lambda>r. (None, r\<lparr>mr_data := mput k (VStr v) (mr_data r)\<rparr>)) (Some RedisErr)),
      rd_SetXX = (\<lambda>k v. mem_try (\<lambda>r. (case mget (mr_data r) k of
          None \<Rightarrow> (Some RedisNil, r) | Some _ \<Rightarrow> (None, r\<lparr>mr_data := mput k (VStr v) (mr_data r)\<rparr>))) (Some RedisErr)),
      rd_Del = (\<lambda>keys. mem_try (\<lambda>r. (None, r\<lparr>mr_data := filter (\<lambda>(k, v). k \<notin> set keys) (mr_data r)\<rparr>)) (Some RedisErr)),
      rd_Scan = (\<lambda>pat. mem_try (\<lambda>r. ((filter (glob pat) (map fst (mr_data r)), None), r)) ([], Some RedisErr)),
      rd_ZAdd = (\<lambda>k s m. mem_try (\<lambda>r. (case mem_zset r k of
          None \<Rightarrow> (Some RedisErr, r) | Some z \<Rightarrow> (None, mem_put_zset k (mput m s z) r))) (Some RedisErr)),
      rd_ZRem = (\<lambda>k m. mem_try (\<lambda>r. (case mem_zset r k of
          None \<Rightarrow> (Inl RedisErr, r)
        | Some z \<Rightarrow> (Inr (if mget z m = None then 0 else 1), mem_put_zset k (mdel m z) r))) (Inl RedisErr)),
      rd_ZRemRangeByScore = (\<lambda>k hi. mem_try (\<lambda>r. (case mem_zset r k of
          None \<Rightarrow> (Some RedisErr, r)
        | Some z \<Rightarrow> (None, mem_put_zset k (filter (\<lambda>x. \<not> snd x \<le> hi) z) r))) (Some RedisErr)),
      rd_ZRangeByScore = (\<lambda>k lo hi cnt. mem_try (\<lambda>r. (case mem_zset r k of
          None \<Rightarrow> Inl RedisErr | Some z \<Rightarrow> Inr (zrange lo hi cnt z), r)) (Inl RedisErr)),
      rd_Expire = (\<lambda>k ttl. mem_try (\<lambda>r. (None, r)) (Some RedisErr))\<rparr>"

lemma mem_ks_simps [simp]:
  "mem_ks (r\<lparr>mr_fail := bs\<rparr>) = mem_ks r"
  "mem_ks (r\<lparr>mr_data := mput k v d\<rparr>) = (mget d)(k \<mapsto> v)"
  "mget (mr_data r) = mem_ks r"
  "mem_zset (r\<lparr>mr_fail := bs\<rparr>) k = mem_zset r k" "zset (mem_ks r) k = mem_zset r k"
  by (auto simp: mem_ks_def mem_zset_def fun_eq_iff)

lemma mem_ks_put_zset [simp]: "mem_ks (mem_put_zset k z r) = put_zset k z (mem_ks r)"
  by (auto simp: mem_ks_def mem_put_zset_def put_zset_def fun_eq_iff simp del: mem_ks_simps(3))

lemma mem_try_cases:
  "mem_try f err r = (x, r') \<Longrightarrow>
     (\<exists>bs. x = err \<and> r' = r\<lparr>mr_fail := bs\<rparr>) \<or> (\<exists>bs. f (r\<lparr>mr_fail := bs\<rparr>) = (x, r'))"
  by (cases r) (auto simp: mem_try_def split: list.splits if_splits)

lemma mget_filter_keys: "mget (filter (\<lambda>(k, v). k \<notin> K) d) = (\<lambda>k. if k \<in> K then None else mget d k)"
  by (induction d) (auto simp: fun_eq_iff)

lemma mem_del:
  "mem_ks (r\<lparr>mr_data := filter (\<lambda>(k, v). k \<notin> K) d\<rparr>) = (\<lambda>k. if k \<in> K then None else mget d k)"
  by (simp add: mem_ks_def mget_filter_keys)

lemma mem_keys: "k \<in> fst ` set (mr_data r) \<longleftrightarrow> mem_ks r k \<noteq> None"
  by (simp add: map_of_eq_None_iff flip: mem_ks_simps(3) del: mem_ks_simps)

lemma zrange_perm:
  "\<exists>xs. mset xs = mset (filter (in_scores lo hi) z) \<and> sorted (map snd xs)
     \<and> zrange lo hi cnt z = map fst (case cnt of None \<Rightarrow> xs | Some n \<Rightarrow> take n xs)"
  by (rule exI [of _ "sort_key snd (filter (in_scores lo hi) z)"])
    (auto simp: zrange_def Let_def take_map split: option.splits)

interpretation mem: redis_client mem_client mem_ks
proof (unfold_locales, goal_cases)
  case (1 k r res r')
  then show ?case
    by (auto simp: mem_client_def dest!: mem_try_cases split: option.splits redis_value.splits)
next
  case (2 k v ttl r e r')
  then show ?case by (auto simp: mem_client_def dest!: mem_try_cases)
next
  case (3 k v r e r')
  then show ?case
    by (auto simp: mem_client_def dest!: mem_try_cases split: option.splits)
next
  case (4 keys r e r')
  then show ?case
    by (auto simp: mem_client_def mem_del dest!: mem_try_cases)
next
  case (5 pat r keys e r')
  then show ?case
    by (auto simp: mem_client_def mem_keys dest!: mem_try_cases)
next
  case (6 k s m r e r')
  then show ?case by (auto simp: mem_client_def dest!: mem_try_cases split: option.splits)
next
  case (7 k m r res r')
  then show ?case
    by (cases "mem_zset r k"; cases "mget (the (mem_zset r k)) m") (auto simp: mem_client_def dest!: mem_try_cases)
next
  case (8 k hi r e r')
  then show ?case by (auto simp: mem_client_def dest!: mem_try_cases split: option.splits)
next
  case (9 k lo hi cnt r res r')
  then show ?case
    using zrange_perm [of lo hi "the (mem_zset r k)" cnt]
    by (cases "mem_zset r k") (auto simp: mem_client_def simp del: option.case_eq_if dest!: mem_try_cases)
next
  case (10 k ttl r e r')
  then show ?case by (auto simp: mem_client_def dest!: mem_try_cases)
qed

definition mem_healthy :: "mem_redis \<Rightarrow> bool" where
  "mem_healthy r \<longleftrightarrow> mr_fail r = []"

lemma mem_try_healthy: "mem_healthy r \<Longrightarrow> mem_try f err r = f r"
  by (simp add: mem_healthy_def mem_try_def)

lemma mem_healthy_upd [simp]:
  "mem_healthy (r\<lparr>mr_data := d\<rparr>) = mem_healthy r" "mem_healthy (mem_put_zset k z r) = mem_healthy r"
  by (simp_all add: mem_healthy_def mem_put_zset_def)

interpretation mem: healthy_redis mem_client mem_ks mem_healthy
  by unfold_locales
    (auto simp: mem_client_def mem_try_healthy split: option.splits redis_value.splits)

end
