(* ===== verification/Graph.thy ===== *)
theory Graph
  imports Prelude Float64
begin

text \<open>
  The in-memory schedule graph of \<open>internal/graph\<close>: the row types of \<open>types.go\<close>, the
  \<open>TransitGraph\<close> struct and the read operations of \<open>graph.go\<close>. A \<open>*time.Location\<close> is the
  function from a Unix time to the zone's offset from UTC in seconds; the process-local zone
  and the current time are arguments. Schedule times are Go \<open>int\<close>s of a few hundred thousand
  at most; sums and differences of them are exact.
\<close>

section \<open>Row types\<close>

record Stop =
  st_ID :: string
  st_Name :: string
  st_Lat :: float64
  st_Lon :: float64
  st_LocationType :: int
  st_ParentStation :: string

record Route =
  rt_ID :: string
  rt_ShortName :: string
  rt_LongName :: string
  rt_Color :: string

record Trip =
  tr_ID :: string
  tr_RouteID :: string
  tr_ServiceID :: string
  tr_DirectionID :: int

record ScheduledStopTime =
  TripID :: string
  StopID :: string
  ArrivalSecs :: int
  DepartureSecs :: int
  StopSequence :: int

record Transfer =
  FromStopID :: string
  ToStopID :: string
  TransferType :: int
  MinTransferTime :: int

type_synonym location = "int64 \<Rightarrow> int"

record TransitGraph =
  Stops :: "(string, Stop) gomap"
  Routes :: "(string, Route) gomap"
  TripRoute :: "(string, string) gomap"
  TripDirection :: "(string, int) gomap"
  StopTimesByStop :: "(string, ScheduledStopTime list) gomap"
  StopTimesByTrip :: "(string, ScheduledStopTime list) gomap"
  TransfersByStop :: "(string, Transfer list) gomap"
  RoutesAtStop :: "(string, (string, bool) gomap) gomap"
  activeTrips :: "(string, bool) gomap"
  headways :: "(string, float64) gomap option"
  tripSuffix :: "(string, string) gomap"
  tz :: "location option"

section \<open>Time of day\<close>

definition Location :: "location \<Rightarrow> TransitGraph option \<Rightarrow> location" where
  "Location local g =
     (case g of None \<Rightarrow> local | Some gr \<Rightarrow> (case tz gr of None \<Rightarrow> local | Some l \<Rightarrow> l))"

text \<open>
  \<open>t.Hour()*3600 + t.Minute()*60 + t.Second()\<close> of an instant in a zone: the local clock
  reading is the time of day of the instant shifted by the zone's offset.
\<close>

definition clock_secs :: "location \<Rightarrow> int64 \<Rightarrow> int" where
  "clock_secs loc t =
     (let s = (t + loc t) mod 86400 in s div 3600 * 3600 + s mod 3600 div 60 * 60 + s mod 60)"

definition SecsSinceMidnight :: "location \<Rightarrow> int64 \<Rightarrow> TransitGraph option \<Rightarrow> int64 \<Rightarrow> int" where
  "SecsSinceMidnight local now g ts =
     clock_secs (Location local g) (if ts > 0 then ts else now)"

lemma hms_split: "(s::int) div 3600 * 3600 + s mod 3600 div 60 * 60 + s mod 60 = s"
proof -
  have "s mod 3600 mod 60 = s mod 60" by (simp add: mod_mod_cancel)
  then have "s mod 3600 div 60 * 60 + s mod 60 = s mod 3600"
    by (metis div_mult_mod_eq)
  then show ?thesis by (simp add: add.assoc)
qed

lemma clock_secs_eq: "clock_secs loc t = (t + loc t) mod 86400"
  by (simp only: clock_secs_def Let_def hms_split)

lemma SecsSinceMidnight_range:
  "0 \<le> SecsSinceMidnight local now g ts \<and> SecsSinceMidnight local now g ts < 86400"
  by (simp add: SecsSinceMidnight_def clock_secs_eq)

section \<open>Stations\<close>

definition parentStation :: "string \<Rightarrow> (string, Stop) gomap \<Rightarrow> string" where
  "parentStation stopID stops =
     (case mget stops stopID of
        None \<Rightarrow> stopID
      | Some s \<Rightarrow> if st_ParentStation s \<noteq> [] then st_ParentStation s else stopID)"

definition ParentStationID :: "TransitGraph \<Rightarrow> string \<Rightarrow> string" where
  "ParentStationID g stopID = parentStation stopID (Stops g)"

definition GetRoutesAtStop :: "TransitGraph \<Rightarrow> string \<Rightarrow> (string, bool) gomap" where
  "GetRoutesAtStop g stopID = mgetd [] (RoutesAtStop g) (parentStation stopID (Stops g))"

definition GetTransfersFrom :: "TransitGraph \<Rightarrow> string \<Rightarrow> Transfer list" where
  "GetTransfersFrom g stopID = mgetd [] (TransfersByStop g) (parentStation stopID (Stops g))"

section \<open>Departures\<close>

text \<open>\<open>sort.Search\<close>: the smallest index in \<open>[i, j)\<close> where a monotone predicate holds.\<close>

function search_loop :: "(nat \<Rightarrow> bool) \<Rightarrow> nat \<Rightarrow> nat \<Rightarrow> nat" where
  "search_loop f i j =
     (if i < j then
        let h = (i + j) div 2
        in if \<not> f h then search_loop f (h + 1) j else search_loop f i h
      else i)"
  by pat_completeness auto
termination
  by (relation "measure (\<lambda>(f, i, j). j - i)") auto

declare search_loop.simps [simp del]

definition sort_Search :: "nat \<Rightarrow> (nat \<Rightarrow> bool) \<Rightarrow> nat" where
  "sort_Search n f = search_loop f 0 n"

text \<open>The loop that fills \<open>out\<close>.\<close>

fun collect_deps ::
  "TransitGraph \<Rightarrow> string \<Rightarrow> int \<Rightarrow> ScheduledStopTime list \<Rightarrow> ScheduledStopTime list
   \<Rightarrow> ScheduledStopTime list" where
  "collect_deps g routeID n out [] = out"
| "collect_deps g routeID n out (st # rest) =
     (if int (length out) < n then
        collect_deps g routeID n
          (if mgetd [] (TripRoute g) (TripID st) = routeID then out @ [st] else out) rest
      else out)"

definition GetNextDepartures ::
  "TransitGraph \<Rightarrow> string \<Rightarrow> string \<Rightarrow> int \<Rightarrow> int \<Rightarrow> ScheduledStopTime list" where
  "GetNextDepartures g stopID routeID afterSecs n =
     (let parentID = parentStation stopID (Stops g);
          all = mgetd [] (StopTimesByStop g) parentID;
          start = sort_Search (length all) (\<lambda>i. DepartureSecs (all ! i) \<ge> afterSecs)
      in collect_deps g routeID n [] (drop start all))"

definition overnightWindowSecs :: int where
  "overnightWindowSecs = 4 * 3600"

definition NextDeparturesAfter ::
  "TransitGraph \<Rightarrow> string \<Rightarrow> string \<Rightarrow> int \<Rightarrow> int \<Rightarrow> ScheduledStopTime list \<times> int" where
  "NextDeparturesAfter g stopID routeID tod n =
     (let deps = GetNextDepartures g stopID routeID tod n
      in if tod < overnightWindowSecs then
           let wrapped = tod + 86400;
               late = GetNextDepartures g stopID routeID wrapped n
           in if late \<noteq> [] \<and> (deps = [] \<or>
                   DepartureSecs (hd late) - wrapped < DepartureSecs (hd deps) - tod)
              then (late, wrapped) else (deps, tod)
         else (deps, tod))"

section \<open>Downstream stops\<close>

fun downstream_of_trip ::
  "TransitGraph \<Rightarrow> string \<Rightarrow> ScheduledStopTime list \<Rightarrow> ScheduledStopTime list option" where
  "downstream_of_trip g parentID [] = None"
| "downstream_of_trip g parentID (ts # rest) =
     (if parentStation (StopID ts) (Stops g) = parentID \<and> rest \<noteq> [] then Some rest
      else downstream_of_trip g parentID rest)"

fun downstream_loop ::
  "TransitGraph \<Rightarrow> string \<Rightarrow> string \<Rightarrow> int \<Rightarrow> ScheduledStopTime list \<Rightarrow> ScheduledStopTime list" where
  "downstream_loop g routeID parentID directionID [] = []"
| "downstream_loop g routeID parentID directionID (st # sts) =
     (if mgetd [] (TripRoute g) (TripID st) \<noteq> routeID then
        downstream_loop g routeID parentID directionID sts
      else if mgetd 0 (TripDirection g) (TripID st) \<noteq> directionID then
        downstream_loop g routeID parentID directionID sts
      else (case downstream_of_trip g parentID (mgetd [] (StopTimesByTrip g) (TripID st)) of
              Some rest \<Rightarrow> rest
            | None \<Rightarrow> downstream_loop g routeID parentID directionID sts))"

definition GetDownstreamStops ::
  "TransitGraph \<Rightarrow> string \<Rightarrow> string \<Rightarrow> int \<Rightarrow> ScheduledStopTime list" where
  "GetDownstreamStops g routeID stopID directionID =
     (let parentID = parentStation stopID (Stops g)
      in downstream_loop g routeID parentID directionID (mgetd [] (StopTimesByStop g) parentID))"

section \<open>Trip resolution\<close>

definition ResolveTripID :: "TransitGraph \<Rightarrow> string \<Rightarrow> string \<times> bool" where
  "ResolveTripID g rtTripID =
     (if rtTripID = [] then ([], False)
      else if mget (StopTimesByTrip g) rtTripID \<noteq> None then (rtTripID, True)
      else (case mget (tripSuffix g) rtTripID of
              Some full \<Rightarrow> if full \<noteq> [] then (full, True) else ([], False)
            | None \<Rightarrow> ([], False)))"

definition GetScheduledStopTime ::
  "TransitGraph \<Rightarrow> string \<Rightarrow> string \<Rightarrow> ScheduledStopTime option" where
  "GetScheduledStopTime g tripID stopID =
     (let (resolved, ok) = ResolveTripID g tripID
      in if \<not> ok then None
         else let sts = mgetd [] (StopTimesByTrip g) resolved
              in (case find (\<lambda>st. StopID st = stopID) sts of
                    Some st \<Rightarrow> Some st
                  | None \<Rightarrow>
                      let wantParent = parentStation stopID (Stops g)
                      in find (\<lambda>st. parentStation (StopID st) (Stops g) = wantParent) sts))"

section \<open>Statistics\<close>

definition countTransferPairs :: "(string, Transfer list) gomap \<Rightarrow> int" where
  "countTransferPairs m = foldl (\<lambda>n (k, v). n + int (length v)) 0 m"

definition Stats :: "TransitGraph \<Rightarrow> int \<times> int \<times> int \<times> int" where
  "Stats g =
     (let (totalStops, parentStops) =
            foldl (\<lambda>(t, p) (k, s). (t + 1, if st_LocationType s = 1 then p + 1 else p)) (0, 0) (Stops g)
      in (totalStops, parentStops, int (length (Routes g)), countTransferPairs (TransfersByStop g)))"

section \<open>Binary search\<close>

lemma search_loop_spec:
  assumes "i \<le> j" "\<And>a b. a \<le> b \<Longrightarrow> b < n \<Longrightarrow> f a \<Longrightarrow> f b" "j \<le> n"
    and "\<And>k. k < i \<Longrightarrow> \<not> f k" "\<And>k. j \<le> k \<Longrightarrow> k < n \<Longrightarrow> f k"
  shows "let r = search_loop f i j in i \<le> r \<and> r \<le> j \<and> (\<forall>k<r. \<not> f k) \<and> (\<forall>k. r \<le> k \<and> k < n \<longrightarrow> f k)"
  using assms
proof (induction f i j rule: search_loop.induct)
  case (1 f i j)
  show ?case
  proof (cases "i < j")
    case True
    define h where "h = (i + j) div 2"
    have h: "i \<le> h" "h < j" using True by (auto simp: h_def)
    show ?thesis
    proof (cases "f h")
      case False
      have "\<And>k. k < h + 1 \<Longrightarrow> \<not> f k"
        using False "1.prems"(2) h(2) "1.prems"(3) by (metis Suc_eq_plus1 less_Suc_eq_le less_le_trans)
      from "1.IH"(1) [OF True h_def False, OF _ "1.prems"(2) "1.prems"(3) this "1.prems"(5)]
      have "let r = search_loop f (h + 1) j in
        h + 1 \<le> r \<and> r \<le> j \<and> (\<forall>k<r. \<not> f k) \<and> (\<forall>k. r \<le> k \<and> k < n \<longrightarrow> f k)"
        using h by simp
      then show ?thesis
        using True False h by (auto simp: search_loop.simps [of f i j] Let_def simp flip: h_def)
    next
      case fh: True
      have "\<And>k. h \<le> k \<Longrightarrow> k < n \<Longrightarrow> f k" using "1.prems"(2) fh by blast
      from "1.IH"(2) [OF True h_def, OF _ _ "1.prems"(2) _ "1.prems"(4) this]
      have "let r = search_loop f i h in
        i \<le> r \<and> r \<le> h \<and> (\<forall>k<r. \<not> f k) \<and> (\<forall>k. r \<le> k \<and> k < n \<longrightarrow> f k)"
        using h fh "1.prems"(3) by simp
      then show ?thesis
        using True fh h by (auto simp: search_loop.simps [of f i j] Let_def simp flip: h_def)
    qed
  next
    case False
    with "1.prems" have "i = j" by simp
    then show ?thesis
      using "1.prems" by (simp add: search_loop.simps [of f j j] Let_def)
  qed
qed

lemma drop_search_sorted:
  assumes "sorted (map d xs)"
  shows "drop (sort_Search (length xs) (\<lambda>i. a \<le> d (xs ! i))) xs = filter (\<lambda>x. a \<le> d x) xs"
proof -
  define r where "r = sort_Search (length xs) (\<lambda>i. a \<le> d (xs ! i))"
  have mono: "a \<le> d (xs ! i) \<Longrightarrow> i \<le> j \<Longrightarrow> j < length xs \<Longrightarrow> a \<le> d (xs ! j)" for i j
    using sorted_nth_mono [OF assms, of i j] by simp
  have "let r = search_loop (\<lambda>i. a \<le> d (xs ! i)) 0 (length xs) in
      0 \<le> r \<and> r \<le> length xs \<and> (\<forall>k<r. \<not> a \<le> d (xs ! k)) \<and> (\<forall>k. r \<le> k \<and> k < length xs \<longrightarrow> a \<le> d (xs ! k))"
    by (rule search_loop_spec) (use mono in auto)
  then have r: "r \<le> length xs" "\<forall>k<r. \<not> a \<le> d (xs ! k)" "\<forall>k. r \<le> k \<and> k < length xs \<longrightarrow> a \<le> d (xs ! k)"
    unfolding r_def sort_Search_def Let_def by blast+
  have "filter (\<lambda>x. a \<le> d x) xs = filter (\<lambda>x. a \<le> d x) (take r xs) @ filter (\<lambda>x. a \<le> d x) (drop r xs)"
    by (metis append_take_drop_id filter_append)
  also have "filter (\<lambda>x. a \<le> d x) (take r xs) = []"
    using r(1,2) by (auto simp: filter_empty_conv in_set_conv_nth)
  also have "filter (\<lambda>x. a \<le> d x) (drop r xs) = drop r xs"
    using r(3) by (auto simp: filter_id_conv in_set_conv_nth)
  finally show ?thesis by (simp add: r_def)
qed

lemma collect_deps_eq:
  "int (length out) \<le> n \<Longrightarrow> collect_deps g r n out xs =
     out @ take (nat n - length out) (filter (\<lambda>st. mgetd [] (TripRoute g) (TripID st) = r) xs)"
proof (induction xs arbitrary: out)
  case Nil
  then show ?case by simp
next
  case (Cons x xs)
  show ?case
  proof (cases "int (length out) < n")
    case True
    then have "nat n - length out = Suc (nat n - Suc (length out))" by simp
    with Cons True show ?thesis by simp
  next
    case False
    with Cons.prems show ?thesis by simp
  qed
qed

lemma collect_deps_neg: "\<not> 0 < n \<Longrightarrow> collect_deps g r n [] xs = []"
  by (cases xs) auto

text \<open>The stop index is sorted by departure time.\<close>

definition sorted_by_stop :: "TransitGraph \<Rightarrow> bool" where
  "sorted_by_stop g \<longleftrightarrow>
     list_all (\<lambda>(k, v). sorted (map DepartureSecs v)) (StopTimesByStop g)"

lemma sorted_by_stopD: "sorted_by_stop g \<Longrightarrow> sorted (map DepartureSecs (mgetd [] (StopTimesByStop g) s))"
  by (auto simp: sorted_by_stop_def mgetd_def list_all_iff split: option.splits dest: map_of_SomeD)

definition departures_spec ::
  "TransitGraph \<Rightarrow> string \<Rightarrow> string \<Rightarrow> int \<Rightarrow> ScheduledStopTime list" where
  "departures_spec g s r a =
     filter (\<lambda>st. a \<le> DepartureSecs st \<and> mgetd [] (TripRoute g) (TripID st) = r)
       (mgetd [] (StopTimesByStop g) (ParentStationID g s))"

lemma GetNextDepartures_eq:
  assumes "sorted_by_stop g"
  shows "GetNextDepartures g s r a n = take (nat n) (departures_spec g s r a)"
proof -
  note d = drop_search_sorted [OF sorted_by_stopD [OF assms], of "parentStation s (Stops g)" a]
  show ?thesis
  proof (cases "0 < n")
    case True
    then show ?thesis
      by (simp add: GetNextDepartures_def Let_def d collect_deps_eq departures_spec_def
          ParentStationID_def conj_commute)
  next
    case False
    then show ?thesis by (simp add: GetNextDepartures_def collect_deps_neg)
  qed
qed

lemma departures_spec_sorted:
  "sorted_by_stop g \<Longrightarrow> sorted (map DepartureSecs (departures_spec g s r a))"
  using sorted_by_stopD [of g] by (auto simp: departures_spec_def intro: sorted_filter)

lemma next_departure_first:
  assumes "sorted_by_stop g" "st \<in> set (departures_spec g s r a)" "0 < n"
  shows "GetNextDepartures g s r a n \<noteq> []"
    and "DepartureSecs (hd (GetNextDepartures g s r a n)) \<le> DepartureSecs st"
proof -
  obtain x xs where x: "departures_spec g s r a = x # xs"
    using assms(2) by (cases "departures_spec g s r a") auto
  obtain m where m: "nat n = Suc m" using assms(3) by (cases "nat n") auto
  have e: "GetNextDepartures g s r a n = x # take m xs"
    by (simp add: GetNextDepartures_eq [OF assms(1)] x m)
  then show "GetNextDepartures g s r a n \<noteq> []" by simp
  show "DepartureSecs (hd (GetNextDepartures g s r a n)) \<le> DepartureSecs st"
    using departures_spec_sorted [OF assms(1), of s r a] assms(2) by (auto simp: e x)
qed

lemma next_departure_mem:
  assumes "sorted_by_stop g" "st \<in> set (GetNextDepartures g s r a n)"
  shows "a \<le> DepartureSecs st" "mgetd [] (TripRoute g) (TripID st) = r"
    "st \<in> set (mgetd [] (StopTimesByStop g) (ParentStationID g s))"
  using assms by (auto simp: GetNextDepartures_eq departures_spec_def dest: in_set_takeD)

end
