(* ===== verification/DelayState.thy ===== *)
theory DelayState
  imports Redis Graph Messages
begin

text \<open>
  \<open>internal/state/manager.go\<close>: the reconciled delay of every trip and stop, one JSON document per
  \<open>delay:agency:trip:stop\<close> key. Every operation threads the Redis connection.
\<close>

section \<open>Definitions\<close>

definition keyTTL :: int64 where "keyTTL = 2 * 3600 * 1000000000"
definition smoothingThreshold :: int32 where "smoothingThreshold = 120"
definition smoothingAlpha :: rat where "smoothingAlpha = 7 / 10"
definition smoothingMaxUpdates :: int where "smoothingMaxUpdates = 3"
definition confidenceInit :: rat where "confidenceInit = 1 / 2"
definition confidenceStep :: rat where "confidenceStep = 1 / 10"
definition confidenceMax :: rat where "confidenceMax = 1"
definition confidenceCloseDelta :: int32 where "confidenceCloseDelta = 30"
definition activeDelayThreshold :: int32 where "activeDelayThreshold = 60"

record DelayState =
  sd_AgencyID :: string
  sd_TripID :: string
  sd_RouteID :: string
  sd_StopID :: string
  sd_DelaySeconds :: int32
  sd_ObservedAt :: int64
  sd_Confidence :: float64
  sd_UpdateCount :: int

definition marshal_DelayState :: "DelayState \<Rightarrow> json" where
  "marshal_DelayState ds =
     JObj [(''agency_id'', JStr (sd_AgencyID ds)), (''trip_id'', JStr (sd_TripID ds)),
           (''route_id'', JStr (sd_RouteID ds)), (''stop_id'', JStr (sd_StopID ds)),
           (''delay_seconds'', enc_int (sd_DelaySeconds ds)), (''observed_at'', enc_int (sd_ObservedAt ds)),
           (''confidence'', JNum (sd_Confidence ds)), (''update_count'', enc_int (sd_UpdateCount ds))]"

definition unmarshal_DelayState :: "json \<Rightarrow> DelayState option" where
  "unmarshal_DelayState j =
     (case j of
        JNull \<Rightarrow> Some \<lparr>sd_AgencyID = [], sd_TripID = [], sd_RouteID = [], sd_StopID = [], sd_DelaySeconds = 0,
                   sd_ObservedAt = 0, sd_Confidence = 0, sd_UpdateCount = 0\<rparr>
      | JObj fs \<Rightarrow>
          (case (dec_string (jfield ''agency_id'' fs), dec_string (jfield ''trip_id'' fs),
                 dec_string (jfield ''route_id'' fs), dec_string (jfield ''stop_id'' fs)) of
             (Some a, Some t, Some r, Some s) \<Rightarrow>
               (case (dec_i32 (jfield ''delay_seconds'' fs), dec_i64 (jfield ''observed_at'' fs),
                      dec_float (jfield ''confidence'' fs), dec_i64 (jfield ''update_count'' fs)) of
                  (Some d, Some ob, Some c, Some n) \<Rightarrow>
                    Some \<lparr>sd_AgencyID = a, sd_TripID = t, sd_RouteID = r, sd_StopID = s, sd_DelaySeconds = d,
                      sd_ObservedAt = ob, sd_Confidence = c, sd_UpdateCount = n\<rparr>
                | _ \<Rightarrow> None)
           | _ \<Rightarrow> None)
      | _ \<Rightarrow> None)"

datatype state_error =
  SE_redis redis_error | SE_unmarshal | SE_scan redis_error | SE_get state_error | SE_panic

definition delayKey :: "string \<Rightarrow> string \<Rightarrow> string \<Rightarrow> string" where
  "delayKey agencyID tripID stopID = ''delay:'' @ agencyID @ '':'' @ tripID @ '':'' @ stopID"

definition getState :: "'r RedisClient \<Rightarrow> string \<Rightarrow> 'r \<Rightarrow> (state_error + DelayState) \<times> 'r" where
  "getState R key r =
     (case rd_Get R key r of
        (Inl e, r1) \<Rightarrow> (Inl (SE_redis e), r1)
      | (Inr raw, r1) \<Rightarrow>
          (case unmarshal_DelayState raw of
             None \<Rightarrow> (Inl SE_unmarshal, r1)
           | Some ds \<Rightarrow> (Inr ds, r1)))"

definition setState :: "'r RedisClient \<Rightarrow> string \<Rightarrow> DelayState \<Rightarrow> 'r \<Rightarrow> state_error option \<times> 'r" where
  "setState R key ds r =
     (case rd_Set R key (marshal_DelayState ds) keyTTL r of (e, r1) \<Rightarrow> (map_option SE_redis e, r1))"

definition clearTripDelays ::
  "'r RedisClient \<Rightarrow> string \<Rightarrow> string \<Rightarrow> 'r \<Rightarrow> state_error option \<times> 'r" where
  "clearTripDelays R agencyID tripID r =
     (let pattern = ''delay:'' @ agencyID @ '':'' @ tripID @ '':*''
      in case rd_Scan R pattern r of
           ((keys, Some e), r1) \<Rightarrow> (Some (SE_scan e), r1)
         | ((keys, None), r1) \<Rightarrow>
             if keys = [] then (None, r1)
             else (case rd_Del R keys r1 of (e, r2) \<Rightarrow> (map_option SE_redis e, r2)))"

definition abs32 :: "int32 \<Rightarrow> int32" where
  "abs32 x = (if x < 0 then i32 (- x) else x)"

text \<open>Smoothing and confidence of \<open>ProcessEvent\<close>.\<close>

definition smooth :: "int32 \<Rightarrow> int32 \<Rightarrow> int \<Rightarrow> int32" where
  "smooth incoming stored updateCount =
     (if abs32 (i32 (incoming - stored)) > smoothingThreshold \<and> updateCount < smoothingMaxUpdates
      then f64_to_i32 (go_round (f64 (f64 (f64 smoothingAlpha * i_to_f64 incoming)
             + f64 (f64 (1 - smoothingAlpha) * i_to_f64 stored))))
      else incoming)"

definition score :: "int32 \<Rightarrow> int32 \<Rightarrow> float64 \<Rightarrow> float64" where
  "score incoming stored conf =
     (if abs32 (i32 (incoming - stored)) \<le> confidenceCloseDelta
      then let c = f64 (conf + f64 confidenceStep)
           in if c > f64 confidenceMax then f64 confidenceMax else c
      else f64 confidenceInit)"

text \<open>\<open>m.graph\<close> may be nil (the read-only tools build the manager without a graph).\<close>

definition route_of_event :: "TransitGraph option \<Rightarrow> DelayEvent \<Rightarrow> state_error + string" where
  "route_of_event g ev =
     (if ev_RouteId ev = []
      then (case g of None \<Rightarrow> Inl SE_panic | Some gr \<Rightarrow> Inr (mgetd [] (TripRoute gr) (ev_TripId ev)))
      else Inr (ev_RouteId ev))"

text \<open>\<open>err != nil && err != redis.Nil\<close>\<close>

definition get_failed :: "state_error + DelayState \<Rightarrow> bool" where
  "get_failed res = (case res of Inl e \<Rightarrow> e \<noteq> SE_redis RedisNil | Inr _ \<Rightarrow> False)"

definition ProcessEvent ::
  "'r RedisClient \<Rightarrow> TransitGraph option \<Rightarrow> DelayEvent \<Rightarrow> 'r \<Rightarrow> state_error option \<times> 'r" where
  "ProcessEvent R g ev r =
     (case ev_Type ev of
        TRIP_CANCELLED \<Rightarrow> clearTripDelays R (ev_AgencyId ev) (ev_TripId ev) r
      | SKIP_STOP \<Rightarrow>
          (case rd_Del R [delayKey (ev_AgencyId ev) (ev_TripId ev) (ev_StopId ev)] r of
             (e, r1) \<Rightarrow> (map_option SE_redis e, r1))
      | _ \<Rightarrow>
          (let key = delayKey (ev_AgencyId ev) (ev_TripId ev) (ev_StopId ev)
           in case getState R key r of
                (res, r1) \<Rightarrow>
                  if get_failed res then (Some (SE_get (case res of Inl e \<Rightarrow> e | Inr _ \<Rightarrow> SE_unmarshal)), r1)
                  else (case route_of_event g ev of
                          Inl p \<Rightarrow> (Some p, r1)
                        | Inr routeID \<Rightarrow>
                            (case res of
                               Inl _ \<Rightarrow>
                                 setState R key
                                   \<lparr>sd_AgencyID = ev_AgencyId ev, sd_TripID = ev_TripId ev, sd_RouteID = routeID,
                                    sd_StopID = ev_StopId ev, sd_DelaySeconds = ev_DelaySeconds ev,
                                    sd_ObservedAt = ev_ObservedAt ev, sd_Confidence = f64 confidenceInit,
                                    sd_UpdateCount = 1\<rparr> r1
                             | Inr existing \<Rightarrow>
                                 if ev_ObservedAt ev < sd_ObservedAt existing then (None, r1)
                                 else
                                   setState R key
                                     \<lparr>sd_AgencyID = ev_AgencyId ev, sd_TripID = ev_TripId ev, sd_RouteID = routeID,
                                      sd_StopID = ev_StopId ev,
                                      sd_DelaySeconds = smooth (ev_DelaySeconds ev) (sd_DelaySeconds existing)
                                        (sd_UpdateCount existing),
                                      sd_ObservedAt = ev_ObservedAt ev,
                                      sd_Confidence = score (ev_DelaySeconds ev) (sd_DelaySeconds existing)
                                        (sd_Confidence existing),
                                      sd_UpdateCount = i64 (sd_UpdateCount existing + 1)\<rparr> r1))))"

definition GetDelay ::
  "'r RedisClient \<Rightarrow> string \<Rightarrow> string \<Rightarrow> string \<Rightarrow> 'r \<Rightarrow> (state_error + DelayState option) \<times> 'r" where
  "GetDelay R agencyID tripID stopID r =
     (case getState R (delayKey agencyID tripID stopID) r of
        (Inl e, r1) \<Rightarrow> (if e = SE_redis RedisNil then Inr None else Inl e, r1)
      | (Inr ds, r1) \<Rightarrow> (Inr (Some ds), r1))"

text \<open>The loop over the scanned keys, with the filter of the caller.\<close>

fun read_states :: "'r RedisClient \<Rightarrow> (DelayState \<Rightarrow> bool) \<Rightarrow> string list \<Rightarrow> 'r \<Rightarrow> DelayState list \<times> 'r" where
  "read_states R keep [] r = ([], r)"
| "read_states R keep (k # keys) r =
     (case rd_Get R k r of
        (Inl e, r1) \<Rightarrow> read_states R keep keys r1
      | (Inr raw, r1) \<Rightarrow>
          (case unmarshal_DelayState raw of
             None \<Rightarrow> read_states R keep keys r1
           | Some ds \<Rightarrow>
               (case read_states R keep keys r1 of
                  (out, r2) \<Rightarrow> (if keep ds then ds # out else out, r2))))"

definition scan_states ::
  "'r RedisClient \<Rightarrow> string \<Rightarrow> (DelayState \<Rightarrow> bool) \<Rightarrow> 'r \<Rightarrow> (state_error + DelayState list) \<times> 'r" where
  "scan_states R agencyID keep r =
     (case rd_Scan R (''delay:'' @ agencyID @ '':*'') r of
        ((keys, e), r1) \<Rightarrow>
          (case read_states R keep keys r1 of
             (out, r2) \<Rightarrow> (case e of None \<Rightarrow> (Inr out, r2) | Some x \<Rightarrow> (Inl (SE_scan x), r2))))"

definition GetRouteDelays ::
  "'r RedisClient \<Rightarrow> string \<Rightarrow> string \<Rightarrow> 'r \<Rightarrow> (state_error + DelayState list) \<times> 'r" where
  "GetRouteDelays R agencyID routeID r = scan_states R agencyID (\<lambda>ds. sd_RouteID ds = routeID) r"

definition GetAllActiveDelays ::
  "'r RedisClient \<Rightarrow> string \<Rightarrow> 'r \<Rightarrow> (state_error + DelayState list) \<times> 'r" where
  "GetAllActiveDelays R agencyID r =
     scan_states R agencyID (\<lambda>ds. abs32 (sd_DelaySeconds ds) > activeDelayThreshold) r"

section \<open>Documents\<close>

definition ds_ok :: "DelayState \<Rightarrow> bool" where
  "ds_ok ds \<longleftrightarrow> in_i32 (sd_DelaySeconds ds) \<and> in_i64 (sd_ObservedAt ds) \<and> in_i64 (sd_UpdateCount ds)
     \<and> f64 (sd_Confidence ds) = sd_Confidence ds"

lemma unmarshal_marshal: "ds_ok ds \<Longrightarrow> unmarshal_DelayState (marshal_DelayState ds) = Some ds"
  by (simp add: unmarshal_DelayState_def marshal_DelayState_def jfield_def ds_ok_def)

lemma dec_int_range: "dec_int P j = Some i \<Longrightarrow> P 0 \<Longrightarrow> P i"
  by (auto simp: dec_int_def split: option.splits json.splits if_splits)

lemma unmarshal_ok: "unmarshal_DelayState j = Some ds \<Longrightarrow> ds_ok ds"
  by (auto simp: unmarshal_DelayState_def ds_ok_def in_i32_def in_i64_def dec_float_def f64_idem
      split: json.splits option.splits dest!: dec_int_range)

section \<open>Abstract view\<close>

text \<open>The stored states, by key, and what an event does to them.\<close>

definition delays :: "keyspace \<Rightarrow> string \<Rightarrow> DelayState option" where
  "delays ks k = (case ks k of Some (VStr v) \<Rightarrow> unmarshal_DelayState v | _ \<Rightarrow> None)"

definition first_state :: "string \<Rightarrow> DelayEvent \<Rightarrow> DelayState" where
  "first_state route ev =
     \<lparr>sd_AgencyID = ev_AgencyId ev, sd_TripID = ev_TripId ev, sd_RouteID = route, sd_StopID = ev_StopId ev,
      sd_DelaySeconds = ev_DelaySeconds ev, sd_ObservedAt = ev_ObservedAt ev, sd_Confidence = 1 / 2,
      sd_UpdateCount = 1\<rparr>"

definition next_state :: "string \<Rightarrow> DelayEvent \<Rightarrow> DelayState \<Rightarrow> DelayState" where
  "next_state route ev old =
     \<lparr>sd_AgencyID = ev_AgencyId ev, sd_TripID = ev_TripId ev, sd_RouteID = route, sd_StopID = ev_StopId ev,
      sd_DelaySeconds = smooth (ev_DelaySeconds ev) (sd_DelaySeconds old) (sd_UpdateCount old),
      sd_ObservedAt = ev_ObservedAt ev,
      sd_Confidence = score (ev_DelaySeconds ev) (sd_DelaySeconds old) (sd_Confidence old),
      sd_UpdateCount = i64 (sd_UpdateCount old + 1)\<rparr>"

definition event_key :: "DelayEvent \<Rightarrow> string" where
  "event_key ev = delayKey (ev_AgencyId ev) (ev_TripId ev) (ev_StopId ev)"

definition of_trip :: "string \<Rightarrow> string \<Rightarrow> string \<Rightarrow> bool" where
  "of_trip agencyID tripID k \<longleftrightarrow> (\<exists>stopID. k = delayKey agencyID tripID stopID)"

definition apply_event ::
  "string \<Rightarrow> DelayEvent \<Rightarrow> (string \<Rightarrow> DelayState option) \<Rightarrow> string \<Rightarrow> DelayState option" where
  "apply_event route ev m =
     (case ev_Type ev of
        TRIP_CANCELLED \<Rightarrow> (\<lambda>k. if of_trip (ev_AgencyId ev) (ev_TripId ev) k then None else m k)
      | SKIP_STOP \<Rightarrow> m(event_key ev := None)
      | _ \<Rightarrow>
          (case m (event_key ev) of
             None \<Rightarrow> m(event_key ev \<mapsto> first_state route ev)
           | Some old \<Rightarrow>
               if ev_ObservedAt ev < sd_ObservedAt old then m
               else m(event_key ev \<mapsto> next_state route ev old)))"

lemma f64_half [simp]: "f64 (1 / 2) = 1 / 2"
  using f64_half_int [of 1] by simp

lemma in_i32_smooth: "in_i32 incoming \<Longrightarrow> in_i32 (smooth incoming stored n)"
  by (simp add: smooth_def)

lemma f64_score [simp]: "f64 (score a b c) = score a b c"
  by (simp add: score_def Let_def)

lemma first_state_ok: "wf_event ev \<Longrightarrow> ds_ok (first_state route ev)"
  by (simp add: first_state_def ds_ok_def wf_event_def in_i64_def)

lemma next_state_ok: "wf_event ev \<Longrightarrow> ds_ok (next_state route ev old)"
  by (simp add: next_state_def ds_ok_def wf_event_def in_i32_smooth)

text \<open>The tail of \<open>ProcessEvent\<close>, once the stored state is read and the route known.\<close>

definition store_next ::
  "'r RedisClient \<Rightarrow> string \<Rightarrow> DelayEvent \<Rightarrow> state_error + DelayState \<Rightarrow> 'r \<Rightarrow> state_error option \<times> 'r" where
  "store_next R route ev res r =
     (case res of
        Inl _ \<Rightarrow> setState R (event_key ev) (first_state route ev) r
      | Inr old \<Rightarrow> if ev_ObservedAt ev < sd_ObservedAt old then (None, r)
                  else setState R (event_key ev) (next_state route ev old) r)"

lemma ProcessEvent_delay:
  assumes "ev_Type ev \<notin> {TRIP_CANCELLED, SKIP_STOP}" "getState R (event_key ev) r = (res, r1)"
  shows "ProcessEvent R g ev r =
    (if get_failed res then (Some (SE_get (case res of Inl e \<Rightarrow> e | Inr _ \<Rightarrow> SE_unmarshal)), r1)
     else case route_of_event g ev of Inl p \<Rightarrow> (Some p, r1) | Inr route \<Rightarrow> store_next R route ev res r1)"
  using assms
  by (cases "ev_Type ev"; cases res; cases "route_of_event g ev")
    (simp_all add: ProcessEvent_def Let_def store_next_def event_key_def first_state_def next_state_def
      confidenceInit_def)

context redis_client
begin

lemma getState_cases:
  assumes "getState R k r = (res, r')"
  shows "ks r' = ks r" "res = Inr ds \<Longrightarrow> delays (ks r) k = Some ds"
    "res = Inl (SE_redis RedisNil) \<Longrightarrow> delays (ks r) k = None"
  using assms
  by (auto simp: getState_def delays_def split: prod.splits sum.splits option.splits dest!: Get_law)

lemma setState_cases:
  "setState R k ds r = (e, r') \<Longrightarrow> ds_ok ds \<Longrightarrow>
   delays (ks r') = (delays (ks r))(k \<mapsto> ds) \<or> e \<noteq> None \<and> delays (ks r') = delays (ks r)"
  by (auto simp: setState_def delays_def fun_eq_iff unmarshal_marshal split: prod.splits dest!: Set_law)

lemma clearTripDelays_cases:
  assumes "clearTripDelays R a t r = (e, r')" "glob_free a" "glob_free t"
  shows "delays (ks r') = (\<lambda>k. if of_trip a t k then None else delays (ks r) k)
     \<or> e \<noteq> None \<and> delays (ks r') = delays (ks r)"
proof -
  have gf: "glob_free (''delay:'' @ a @ '':'' @ t @ '':'')"
    using assms(2,3) by (auto simp: glob_free_def)
  have g: "glob (''delay:'' @ a @ '':'' @ t @ '':*'') k \<longleftrightarrow> of_trip a t k" for k
    using glob_prefix [OF gf, of k] by (auto simp: of_trip_def delayKey_def)
  obtain keys e1 r1 where s: "rd_Scan R (''delay:'' @ a @ '':'' @ t @ '':*'') r = ((keys, e1), r1)"
    by (metis prod.exhaust)
  note law = Scan_law [OF s]
  show ?thesis
  proof (cases e1)
    case (Some x)
    then show ?thesis using assms(1) s law by (auto simp: clearTripDelays_def Let_def)
  next
    case None
    then have K: "set keys = {k. ks r k \<noteq> None \<and> of_trip a t k}" using law g by auto
    have none: "delays (\<lambda>k. if k \<in> set keys then None else ks r k) =
        (\<lambda>k. if of_trip a t k then None else delays (ks r) k)"
      by (auto simp: K delays_def fun_eq_iff)
    show ?thesis
    proof (cases "keys = []")
      case True
      then have "(\<lambda>k. if k \<in> set keys then None else ks r k) = ks r" by simp
      then show ?thesis
        using True None assms(1) s law none by (auto simp: clearTripDelays_def Let_def)
    next
      case False
      then obtain e2 where d: "rd_Del R keys r1 = (e2, r')" "e = map_option SE_redis e2"
        using None assms(1) s by (auto simp: clearTripDelays_def Let_def split: prod.splits)
      have r1: "ks r1 = ks r" using law by simp
      from Del_law [OF d(1), unfolded r1] none d(2) show ?thesis by (elim disjE) simp_all
    qed
  qed
qed

lemma ProcessEvent_cases:
  assumes "ProcessEvent R g ev r = (e, r')" "wf_event ev"
    and "glob_free (ev_AgencyId ev)" "glob_free (ev_TripId ev)"
  shows "(\<exists>route. (ev_Type ev \<in> {TRIP_CANCELLED, SKIP_STOP} \<or> route_of_event g ev = Inr route)
            \<and> delays (ks r') = apply_event route ev (delays (ks r)))
     \<or> e \<noteq> None \<and> delays (ks r') = delays (ks r)"
proof (cases "ev_Type ev = TRIP_CANCELLED \<or> ev_Type ev = SKIP_STOP")
  case True
  then show ?thesis
  proof
    assume t: "ev_Type ev = TRIP_CANCELLED"
    then show ?thesis
      using clearTripDelays_cases [of "ev_AgencyId ev" "ev_TripId ev" r e r'] assms
      by (auto simp: ProcessEvent_def apply_event_def)
  next
    assume t: "ev_Type ev = SKIP_STOP"
    then show ?thesis
      using assms(1)
      by (auto simp: ProcessEvent_def apply_event_def delays_def event_key_def fun_eq_iff
          split: prod.splits dest!: Del_law)
  qed
next
  case False
  obtain res r1 where s: "getState R (event_key ev) r = (res, r1)" by fastforce
  note get = getState_cases [OF s]
  have "ev_Type ev \<notin> {TRIP_CANCELLED, SKIP_STOP}" using False by simp
  note p = ProcessEvent_delay [OF this s, of g, unfolded assms(1)]
  show ?thesis
  proof (cases "get_failed res \<or> (\<exists>x. route_of_event g ev = Inl x)")
    case True
    then show ?thesis using p get(1) by (auto split: if_splits sum.splits)
  next
    case ok: False
    then obtain route where route: "route_of_event g ev = Inr route" by (cases "route_of_event g ev") auto
    have q: "(e, r') = store_next R route ev res r1" using p ok route by simp
    have a: "apply_event route ev (delays (ks r)) =
        (case delays (ks r) (event_key ev) of
           None \<Rightarrow> (delays (ks r))(event_key ev \<mapsto> first_state route ev)
         | Some old \<Rightarrow> if ev_ObservedAt ev < sd_ObservedAt old then delays (ks r)
                      else (delays (ks r))(event_key ev \<mapsto> next_state route ev old))"
      using False by (cases "ev_Type ev") (simp_all add: apply_event_def)
    show ?thesis
    proof (cases res)
      case (Inl x)
      then have "x = SE_redis RedisNil" using ok by (simp add: get_failed_def)
      then have "delays (ks r) (event_key ev) = None" using get(3) Inl by simp
      then show ?thesis
        using setState_cases [of "event_key ev" "first_state route ev" r1 e r'] q [unfolded store_next_def] Inl get(1) a route
          first_state_ok [OF assms(2), of route] by auto
    next
      case (Inr old)
      then have "delays (ks r) (event_key ev) = Some old" using get(2) by simp
      then show ?thesis
        using setState_cases [of "event_key ev" "next_state route ev old" r1 e r'] q [unfolded store_next_def] Inr get(1) a route
          next_state_ok [OF assms(2), of route old] by (auto split: if_splits)
    qed
  qed
qed

end

section \<open>Smoothing and confidence\<close>

lemma abs32_small: "\<bar>x\<bar> \<le> 120 \<Longrightarrow> abs32 (i32 x) = \<bar>x\<bar>"
proof -
  assume "\<bar>x\<bar> \<le> 120"
  then have "in_i32 x" "in_i32 (- x)" by (auto simp: in_i32_def abs_le_iff)
  then show ?thesis by (simp add: abs32_def i32_id)
qed

lemma f64_7_10: "\<bar>f64 (7 / 10) - 7 / 10\<bar> \<le> 1 / 2 ^ 53" and f64_3_10: "\<bar>f64 (3 / 10) - 3 / 10\<bar> \<le> 1 / 2 ^ 53"
  using f64_err [of "7 / 10"] f64_err [of "3 / 10"] by (simp_all add: field_simps)

text \<open>The weighted mean of two 32-bit integers, with its three roundings, is off by less than one.\<close>

lemma weighted_err:
  fixes a b :: rat
  assumes "\<bar>a\<bar> \<le> 2147483648" "\<bar>b\<bar> \<le> 2147483648"
  shows "\<bar>f64 (f64 (f64 (7 / 10) * a) + f64 (f64 (3 / 10) * b)) - (7 / 10 * a + 3 / 10 * b)\<bar> < 1 / 2"
proof -
  have p: "\<bar>f64 (c * x) - d * x\<bar> \<le> 1 / 1000"
    if c: "\<bar>c - d\<bar> \<le> 1 / 2 ^ 53" "\<bar>d\<bar> \<le> 1" and x: "\<bar>x\<bar> \<le> 2147483648" for c d x :: rat
  proof -
    have "\<bar>c - d\<bar> \<le> 1" using c(1) by (rule order_trans) simp
    then have "\<bar>c\<bar> \<le> 2" using c(2) unfolding abs_le_iff by linarith
    then have cx: "\<bar>c * x\<bar> \<le> 4294967296"
      using mult_mono [of "\<bar>c\<bar>" 2 "\<bar>x\<bar>" 2147483648] x by (simp add: abs_mult)
    have "\<bar>f64 (c * x) - c * x\<bar> \<le> \<bar>c * x\<bar> / 2 ^ 53" by (rule f64_err)
    also have "\<dots> \<le> 4294967296 / 2 ^ 53" using cx by (simp add: divide_right_mono)
    finally have 1: "\<bar>f64 (c * x) - c * x\<bar> \<le> 4294967296 / 2 ^ 53" .
    have "c * x - d * x = (c - d) * x" by (simp add: left_diff_distrib)
    then have 2: "\<bar>c * x - d * x\<bar> \<le> 1 / 2 ^ 53 * 2147483648"
      using mult_mono [OF c(1) x] by (simp add: abs_mult)
    have "\<bar>f64 (c * x) - c * x\<bar> \<le> 1 / 2000" using 1 by (rule order_trans) simp
    moreover have "\<bar>c * x - d * x\<bar> \<le> 1 / 2000" using 2 by (rule order_trans) simp
    ultimately show ?thesis unfolding abs_le_iff by linarith
  qed
  have A: "\<bar>f64 (f64 (7 / 10) * a) - 7 / 10 * a\<bar> \<le> 1 / 1000"
    using p [OF f64_7_10 _ assms(1)] by simp
  have B: "\<bar>f64 (f64 (3 / 10) * b) - 3 / 10 * b\<bar> \<le> 1 / 1000"
    using p [OF f64_3_10 _ assms(2)] by simp
  define s where "s = f64 (f64 (7 / 10) * a) + f64 (f64 (3 / 10) * b)"
  have S: "\<bar>s - (7 / 10 * a + 3 / 10 * b)\<bar> \<le> 2 / 1000"
    using A B unfolding s_def abs_le_iff by linarith
  then have "\<bar>s\<bar> \<le> 2147483649" using assms unfolding abs_le_iff by linarith
  then have "\<bar>s\<bar> / 2 ^ 53 \<le> 2147483649 / 2 ^ 53" by (simp add: divide_right_mono)
  moreover have "\<bar>f64 s - s\<bar> \<le> \<bar>s\<bar> / 2 ^ 53" by (rule f64_err)
  ultimately have "\<bar>f64 s - s\<bar> \<le> 1 / 1000" by simp
  then have "\<bar>f64 s - (7 / 10 * a + 3 / 10 * b)\<bar> < 1 / 2" using S by linarith
  then show ?thesis by (simp add: s_def)
qed

lemma smooth_eq:
  "smooth a b n = (if abs32 (i32 (a - b)) > 120 \<and> n < 3
     then f64_to_i32 (go_round (f64 (f64 (f64 (7 / 10) * i_to_f64 a) + f64 (f64 (3 / 10) * i_to_f64 b))))
     else a)"
  by (simp add: smooth_def smoothingThreshold_def smoothingMaxUpdates_def smoothingAlpha_def)

lemma smooth_between:
  assumes "in_i32 a" "in_i32 b"
  shows "min a b \<le> smooth a b n \<and> smooth a b n \<le> max a b"
proof (cases "abs32 (i32 (a - b)) > 120 \<and> n < 3")
  case True
  then have d: "\<bar>a - b\<bar> > 120" using abs32_small [of "a - b"] by linarith
  define x where "x = f64 (f64 (f64 (7 / 10) * of_int a) + f64 (f64 (3 / 10) * of_int b))"
  have r: "\<bar>of_int a\<bar> \<le> (2147483648 :: rat)" "\<bar>of_int b\<bar> \<le> (2147483648 :: rat)"
    using assms unfolding in_i32_def by linarith+
  note err = weighted_err [OF r, folded x_def]
  obtain m where m: "go_round x = of_int m" using go_round_is_int by blast
  have "of_int (min a b) \<le> go_round x"
    by (rule go_round_ge) (use err d in \<open>auto simp: min_def abs_if split: if_splits\<close>)
  moreover have "go_round x \<le> of_int (max a b)"
    by (rule go_round_le) (use err d in \<open>auto simp: max_def abs_if split: if_splits\<close>)
  ultimately have b: "min a b \<le> m" "m \<le> max a b" by (simp_all add: m flip: of_int_min of_int_max)
  then have "in_i32 m" using assms unfolding in_i32_def by linarith
  then have "smooth a b n = m"
    using True assms by (simp add: smooth_eq flip: x_def) (simp add: m)
  with b show ?thesis by simp
next
  case False
  then have "smooth a b n = a" by (simp add: smooth_eq del: de_Morgan_conj not_less)
  then show ?thesis by simp
qed

lemma score_range: "1 / 2 \<le> c \<Longrightarrow> 1 / 2 \<le> score a b c \<and> score a b c \<le> 1"
proof -
  assume c: "1 / 2 \<le> c"
  have "0 \<le> f64 confidenceStep" by (rule f64_nonneg) (simp add: confidenceStep_def)
  then have "f64 (1 / 2) \<le> f64 (c + f64 confidenceStep)" using c by (intro f64_mono) linarith
  then show ?thesis by (simp add: score_def Let_def confidenceMax_def confidenceInit_def)
qed

section \<open>Runs of the manager\<close>

text \<open>
  Everything that can happen to the stored states: the processing of an event, successful or not, and
  the expiry of a key.
\<close>

inductive delay_run ::
  "'r RedisClient \<Rightarrow> ('r \<Rightarrow> keyspace) \<Rightarrow> TransitGraph option \<Rightarrow> 'r \<Rightarrow> 'r \<Rightarrow> bool"
  for R ks g r0 where
  start: "delay_run R ks g r0 r0"
| event: "delay_run R ks g r0 r \<Longrightarrow> wf_event ev \<Longrightarrow> glob_free (ev_AgencyId ev) \<Longrightarrow> glob_free (ev_TripId ev)
    \<Longrightarrow> ProcessEvent R g ev r = (e, r') \<Longrightarrow> delay_run R ks g r0 r'"
| expiry: "delay_run R ks g r0 r \<Longrightarrow> ks r' = (ks r)(k := None) \<Longrightarrow> delay_run R ks g r0 r'"

inductive_cases delay_run_elim: "delay_run R ks g r0 r"

definition stored_ok :: "string \<Rightarrow> DelayState \<Rightarrow> bool" where
  "stored_ok k ds \<longleftrightarrow> 1 / 2 \<le> sd_Confidence ds \<and> sd_Confidence ds \<le> 1
     \<and> k = delayKey (sd_AgencyID ds) (sd_TripID ds) (sd_StopID ds)"

definition all_stored_ok :: "(string \<Rightarrow> DelayState option) \<Rightarrow> bool" where
  "all_stored_ok m \<longleftrightarrow> (\<forall>k ds. m k = Some ds \<longrightarrow> stored_ok k ds)"

lemma apply_event_stored_ok: "all_stored_ok m \<Longrightarrow> all_stored_ok (apply_event route ev m)"
  using score_range
  by (auto simp: all_stored_ok_def apply_event_def stored_ok_def first_state_def next_state_def event_key_def
      split: DelayEvent_EventType.splits option.splits if_splits)

lemma delays_expiry: "delays (\<kappa>(k := None)) = (delays \<kappa>)(k := None)"
  by (simp add: delays_def fun_eq_iff)

lemma apply_event_observed_at:
  "apply_event route ev m k = Some ds' \<Longrightarrow> m k = Some ds \<Longrightarrow> sd_ObservedAt ds \<le> sd_ObservedAt ds'"
  by (auto simp: apply_event_def next_state_def split: DelayEvent_EventType.splits option.splits if_splits)

lemma apply_event_late:
  "ev_Type ev \<notin> {TRIP_CANCELLED, SKIP_STOP} \<Longrightarrow> m (event_key ev) = Some ds \<Longrightarrow>
   ev_ObservedAt ev < sd_ObservedAt ds \<Longrightarrow> apply_event route ev m = m"
  by (cases "ev_Type ev") (simp_all add: apply_event_def)

lemma apply_event_other_key:
  "apply_event route ev m k \<noteq> m k \<Longrightarrow>
   k = event_key ev \<or> ev_Type ev = TRIP_CANCELLED \<and> of_trip (ev_AgencyId ev) (ev_TripId ev) k"
  by (auto simp: apply_event_def split: DelayEvent_EventType.splits option.splits if_splits)

context redis_client
begin

lemma run_stored_ok:
  assumes "delay_run R ks g r0 r" "all_stored_ok (delays (ks r0))"
  shows "all_stored_ok (delays (ks r))"
  using assms
proof (induction rule: delay_run.induct)
  case (event r ev e r')
  from ProcessEvent_cases [OF event.hyps(5,2-4)] event.IH [OF event.prems]
  show ?case by (elim disjE exE conjE) (simp_all add: apply_event_stored_ok)
next
  case (expiry r r' k)
  have "delays (ks r') = (delays (ks r))(k := None)" by (simp only: expiry.hyps(2) delays_expiry)
  then show ?case using expiry.IH [OF expiry.prems] by (simp add: all_stored_ok_def)
qed simp

lemma read_states_sound:
  "read_states R keep keys r = (out, r') \<Longrightarrow>
   ks r' = ks r \<and> set out \<subseteq> {ds. keep ds \<and> (\<exists>k\<in>set keys. delays (ks r) k = Some ds)}"
proof (induction keys arbitrary: r out r')
  case (Cons k keys)
  obtain res r1 where g: "rd_Get R k r = (res, r1)" by fastforce
  note law = Get_law [OF g]
  show ?case
  proof (cases "\<exists>raw ds. res = Inr raw \<and> unmarshal_DelayState raw = Some ds")
    case True
    then obtain raw ds where raw: "res = Inr raw" "unmarshal_DelayState raw = Some ds" by blast
    then have "delays (ks r) k = Some ds" using law by (simp add: delays_def)
    then show ?thesis
      using Cons.prems g raw law
      by (auto split: prod.splits if_splits dest!: Cons.IH)
  next
    case False
    then have "read_states R keep keys r1 = (out, r')"
      using Cons.prems g by (auto split: sum.splits option.splits)
    from Cons.IH [OF this] law show ?thesis by auto
  qed
qed simp

end

context healthy_redis
begin

lemma read_states_complete:
  "read_states R keep keys r = (out, r') \<Longrightarrow> healthy r \<Longrightarrow>
   {ds. keep ds \<and> (\<exists>k\<in>set keys. delays (ks r) k = Some ds)} \<subseteq> set out"
proof (induction keys arbitrary: r out r')
  case (Cons k keys)
  obtain res r1 where g: "rd_Get R k r = (res, r1)" by fastforce
  note law = Get_law [OF g] Get_healthy [OF Cons.prems(2) g]
  show ?case
  proof (cases "\<exists>raw ds. res = Inr raw \<and> unmarshal_DelayState raw = Some ds")
    case True
    then obtain raw ds where raw: "res = Inr raw" "unmarshal_DelayState raw = Some ds" by blast
    obtain out1 r2 where o: "read_states R keep keys r1 = (out1, r2)" by fastforce
    have "delays (ks r) k = Some ds" using law raw by (simp add: delays_def)
    then show ?thesis
      using Cons.prems g raw law Cons.IH [OF o] o by (auto split: if_splits)
  next
    case False
    then have "read_states R keep keys r1 = (out, r')" "delays (ks r) k = None"
      using Cons.prems g law by (auto simp: delays_def split: sum.splits option.splits redis_value.splits)
    then show ?thesis using Cons.IH [of r1 out r'] law by auto
  qed
qed simp

lemma scan_states_exact:
  assumes "scan_states R a keep r = (res, r')" "healthy r" "glob_free a"
  shows "\<exists>out. res = Inr out \<and>
    set out = {ds. keep ds \<and> (\<exists>k rest. k = ''delay:'' @ a @ '':'' @ rest \<and> delays (ks r) k = Some ds)}"
proof -
  have gf: "glob_free (''delay:'' @ a @ '':'')" using assms(3) by (simp add: glob_free_def)
  obtain keys e r1 where s: "rd_Scan R (''delay:'' @ a @ '':*'') r = ((keys, e), r1)"
    by (metis prod.exhaust)
  obtain out r2 where o: "read_states R keep keys r1 = (out, r2)" by fastforce
  have e: "e = None" and h: "healthy r1" using Scan_healthy [OF assms(2) s] by simp_all
  have K: "ks r1 = ks r" "set keys = {k. ks r k \<noteq> None \<and> glob (''delay:'' @ a @ '':*'') k}"
    using Scan_law [OF s] e by simp_all
  have "set out = {ds. keep ds \<and> (\<exists>k\<in>set keys. delays (ks r1) k = Some ds)}"
    using read_states_sound [OF o] read_states_complete [OF o h] by (rule_tac equalityI) simp_all
  also have "\<dots> = {ds. keep ds \<and> (\<exists>k rest. k = ''delay:'' @ a @ '':'' @ rest \<and> delays (ks r) k = Some ds)}"
    using glob_prefix [OF gf] unfolding K by (auto simp: delays_def split: option.splits)
  finally show ?thesis using assms(1) s o e by (auto simp: scan_states_def)
qed

lemma ProcessEvent_succeeds:
  assumes "ProcessEvent R g ev r = (e, r')" "healthy r"
    and "ev_Type ev \<in> {TRIP_CANCELLED, SKIP_STOP} \<or> ks r (event_key ev) = None
         \<or> delays (ks r) (event_key ev) \<noteq> None"
    and "ev_Type ev \<in> {TRIP_CANCELLED, SKIP_STOP} \<or> ev_RouteId ev \<noteq> [] \<or> g \<noteq> None"
  shows "e = None"
proof -
  consider "ev_Type ev = TRIP_CANCELLED" | "ev_Type ev = SKIP_STOP"
    | "ev_Type ev \<notin> {TRIP_CANCELLED, SKIP_STOP}" by auto
  then show ?thesis
  proof cases
    case 1
    then show ?thesis
      using assms(1,2)
      by (auto simp: ProcessEvent_def clearTripDelays_def Let_def split: prod.splits option.splits if_splits
          dest: Scan_healthy Del_healthy)
  next
    case 2
    then show ?thesis
      using assms(1,2) by (auto simp: ProcessEvent_def split: prod.splits dest: Del_healthy)
  next
    case 3
    obtain res r1 where s: "getState R (event_key ev) r = (res, r1)" by fastforce
    obtain raw where raw: "rd_Get R (event_key ev) r = (raw, r1)"
      using s by (auto simp: getState_def split: prod.splits sum.splits option.splits)
    note law = Get_law [OF raw] Get_healthy [OF assms(2) raw]
    have "healthy r1" using law by simp
    have doc: "ks r (event_key ev) = None \<or> delays (ks r) (event_key ev) \<noteq> None" using assms(3) 3 by simp
    have "\<not> get_failed res"
    proof (cases "ks r (event_key ev)")
      case None
      then show ?thesis using law s raw by (auto simp: getState_def get_failed_def)
    next
      case (Some v)
      then obtain d ds where "v = VStr d" "unmarshal_DelayState d = Some ds"
        using doc by (auto simp: delays_def split: redis_value.splits)
      then show ?thesis using law s raw Some by (auto simp: getState_def get_failed_def)
    qed
    moreover obtain route where "route_of_event g ev = Inr route"
      using assms(4) 3 by (cases g; cases "ev_RouteId ev = []") (simp_all add: route_of_event_def)
    moreover have "setState R k ds r1 = (e, r') \<Longrightarrow> e = None" for k ds
      using \<open>healthy r1\<close> by (auto simp: setState_def split: prod.splits dest: Set_healthy)
    ultimately show ?thesis
      using ProcessEvent_delay [OF 3 s, of g, unfolded assms(1)]
      by (auto simp: store_next_def split: sum.splits if_splits)
  qed
qed

end

section \<open>Properties\<close>

text \<open>C3: \<open>ProcessEvent\<close> refines the reconciliation of the abstract delay table: on every Redis
  connection that keeps its contract, the stored states after the call are those the specification
  \<open>apply_event\<close> gives (a cancelled trip loses all its keys, a skipped stop its key, a first
  observation is stored with confidence 0.5, an older observation is dropped, a newer one is smoothed
  and scored), or the call reports an error and nothing changed.\<close>

theorem process_event_refines_reconciliation:
  assumes "redis_client R ks" and "wf_event ev"
    and "glob_free (ev_AgencyId ev)" and "glob_free (ev_TripId ev)"
    and "ProcessEvent R g ev r = (e, r')"
  shows "(\<exists>route. (ev_Type ev \<in> {TRIP_CANCELLED, SKIP_STOP} \<or> route_of_event g ev = Inr route)
            \<and> delays (ks r') = apply_event route ev (delays (ks r)))
       \<or> e \<noteq> None \<and> delays (ks r') = delays (ks r)"
  using redis_client.ProcessEvent_cases [OF assms(1,5,2-4)] .

definition demo_delay :: "DelayEvent_EventType \<Rightarrow> string \<Rightarrow> int32 \<Rightarrow> int64 \<Rightarrow> DelayEvent" where
  "demo_delay ty stop d t =
     \<lparr>ev_AgencyId = ''MTA'', ev_TripId = ''W_1'', ev_RouteId = ''A'', ev_StopId = stop, ev_DelaySeconds = d,
      ev_ObservedAt = t, ev_ScheduledArrival = 0, ev_PredictedArrival = 0, ev_Type = ty\<rparr>"

definition empty_redis :: mem_redis where
  "empty_redis = \<lparr>mr_data = [], mr_fail = []\<rparr>"

definition demo_redis :: mem_redis where
  "demo_redis = snd (ProcessEvent mem_client None (demo_delay ARRIVAL_DELAY ''a'' 400 100) empty_redis)"

lemma demo_delay_ok:
  "in_i32 d \<Longrightarrow> in_i64 t \<Longrightarrow> wf_event (demo_delay ty s d t)"
  "glob_free (ev_AgencyId (demo_delay ty s d t))" "glob_free (ev_TripId (demo_delay ty s d t))"
  by (simp_all add: demo_delay_def wf_event_def glob_free_def in_i64_def)

lemma demo_redis_eq:
  "ProcessEvent mem_client None (demo_delay ARRIVAL_DELAY ''a'' 400 100) empty_redis = (None, demo_redis)"
  by code_simp

lemma empty_delays [simp]: "delays (mem_ks empty_redis) = (\<lambda>_. None)"
  by (simp add: empty_redis_def mem_ks_def delays_def fun_eq_iff)

theorem process_event_refines_reconciliation_witness:
  "delays (mem_ks demo_redis) = [''delay:MTA:W_1:a'' \<mapsto> first_state ''A'' (demo_delay ARRIVAL_DELAY ''a'' 400 100)]"
proof -
  have "wf_event (demo_delay ARRIVAL_DELAY ''a'' 400 100)" by (rule demo_delay_ok) (simp_all add: in_i32_def in_i64_def)
  from process_event_refines_reconciliation [OF mem.redis_client_axioms this demo_delay_ok(2,3) demo_redis_eq]
  show ?thesis
    by (auto simp: apply_event_def route_of_event_def demo_delay_def event_key_def delayKey_def)
qed

text \<open>In every run from an empty store, with successful and failing calls and expiring keys, every
  stored state has a confidence between 0.5 and 1 and sits under the key of its own agency, trip and
  stop.\<close>

theorem stored_states_wf:
  assumes "redis_client R ks" and "delays (ks r0) = (\<lambda>_. None)" and "delay_run R ks g r0 r"
    and "delays (ks r) k = Some ds"
  shows "1 / 2 \<le> sd_Confidence ds \<and> sd_Confidence ds \<le> 1
       \<and> k = delayKey (sd_AgencyID ds) (sd_TripID ds) (sd_StopID ds)"
proof -
  have "all_stored_ok (delays (ks r0))" by (simp add: assms(2) all_stored_ok_def)
  from redis_client.run_stored_ok [OF assms(1,3) this] assms(4)
  show ?thesis by (simp add: all_stored_ok_def stored_ok_def)
qed

lemma demo_run: "delay_run mem_client mem_ks None empty_redis demo_redis"
  by (rule delay_run.event [OF delay_run.start demo_delay_ok(1) demo_delay_ok(2,3) demo_redis_eq])
    (simp_all add: in_i32_def in_i64_def)

lemma demo_stored:
  "delays (mem_ks demo_redis) ''delay:MTA:W_1:a'' = Some (first_state ''A'' (demo_delay ARRIVAL_DELAY ''a'' 400 100))"
  using redis_client.ProcessEvent_cases [OF mem.redis_client_axioms demo_redis_eq demo_delay_ok(1) demo_delay_ok(2,3)]
  by (auto simp: in_i32_def in_i64_def apply_event_def route_of_event_def demo_delay_def event_key_def delayKey_def)

theorem stored_states_wf_witness:
  "sd_Confidence (first_state ''A'' (demo_delay ARRIVAL_DELAY ''a'' 400 100)) \<le> 1
   \<and> delays (mem_ks demo_redis) ''delay:MTA:W_1:a'' \<noteq> None"
  using stored_states_wf [OF mem.redis_client_axioms empty_delays demo_run demo_stored] demo_stored by simp

text \<open>No event, whatever its type, moves the stored observation time of a key backwards, and an
  event older than the stored one changes nothing.\<close>

theorem observation_time_monotone:
  assumes "redis_client R ks" and "wf_event ev"
    and "glob_free (ev_AgencyId ev)" and "glob_free (ev_TripId ev)"
    and "ProcessEvent R g ev r = (e, r')" and "delays (ks r) k = Some ds"
  shows "(\<forall>ds'. delays (ks r') k = Some ds' \<longrightarrow> sd_ObservedAt ds \<le> sd_ObservedAt ds')
       \<and> (ev_Type ev \<notin> {TRIP_CANCELLED, SKIP_STOP} \<and> k = event_key ev \<and> ev_ObservedAt ev < sd_ObservedAt ds
            \<longrightarrow> delays (ks r') = delays (ks r))"
proof -
  have "(\<exists>route. delays (ks r') = apply_event route ev (delays (ks r))) \<or> delays (ks r') = delays (ks r)"
    using redis_client.ProcessEvent_cases [OF assms(1,5,2-4)] by blast
  then show ?thesis
  proof (elim disjE exE)
    fix route assume "delays (ks r') = apply_event route ev (delays (ks r))"
    then show ?thesis
      using apply_event_observed_at [of route ev "delays (ks r)" k] apply_event_late [of ev "delays (ks r)" ds route] assms(6)
      by auto
  qed (use assms(6) in simp_all)
qed

theorem observation_time_monotone_witness:
  "delays (mem_ks (snd (ProcessEvent mem_client None (demo_delay ARRIVAL_DELAY ''a'' 0 99) demo_redis)))
     = delays (mem_ks demo_redis)"
proof -
  have "wf_event (demo_delay ARRIVAL_DELAY ''a'' 0 99)" by (rule demo_delay_ok) (simp_all add: in_i32_def in_i64_def)
  moreover obtain e r' where p: "ProcessEvent mem_client None (demo_delay ARRIVAL_DELAY ''a'' 0 99) demo_redis = (e, r')"
    by fastforce
  ultimately have "delays (mem_ks r') = delays (mem_ks demo_redis)"
    using observation_time_monotone [OF mem.redis_client_axioms _ demo_delay_ok(2,3) p demo_stored]
    by (simp add: event_key_def demo_delay_def delayKey_def first_state_def)
  then show ?thesis by (simp add: p)
qed

text \<open>C25: smoothing, with the three float roundings and the final \<open>math.Round\<close> of the code, gives a
  delay between the stored and the incoming one; the incoming delay is stored as it is once three
  observations are in, or when the jump is at most two minutes.\<close>

theorem smoothing_between_observations:
  assumes "in_i32 incoming" and "in_i32 stored"
  shows "min incoming stored \<le> smooth incoming stored n \<and> smooth incoming stored n \<le> max incoming stored
       \<and> (3 \<le> n \<or> \<bar>incoming - stored\<bar> \<le> 120 \<longrightarrow> smooth incoming stored n = incoming)"
proof -
  have "3 \<le> n \<or> \<bar>incoming - stored\<bar> \<le> 120 \<Longrightarrow> smooth incoming stored n = incoming"
    using abs32_small [of "incoming - stored"] by (auto simp: smooth_eq)
  with smooth_between [OF assms, of n] show ?thesis by blast
qed

lemma demo_smooth: "smooth 400 100 1 = 310"
  by code_simp

theorem smoothing_between_observations_witness:
  "smooth 400 100 1 = 310 \<and> smooth 400 100 3 = 400"
  using smoothing_between_observations [of 400 100 3] demo_smooth by (simp add: in_i32_def)

text \<open>On a healthy connection \<open>GetRouteDelays\<close> returns exactly the stored states of the agency
  whose route is the requested one, and \<open>GetAllActiveDelays\<close> exactly those delayed or early by more
  than a minute.\<close>

theorem route_and_active_delays_exact:
  assumes "healthy_redis R ks healthy" and "healthy r" and "glob_free agencyID"
    and "GetRouteDelays R agencyID routeID r = (res1, r1)"
    and "GetAllActiveDelays R agencyID r = (res2, r2)"
  defines "stored \<equiv> {ds. \<exists>k rest. k = ''delay:'' @ agencyID @ '':'' @ rest \<and> delays (ks r) k = Some ds}"
  shows "(\<exists>out. res1 = Inr out \<and> set out = {ds \<in> stored. sd_RouteID ds = routeID})
       \<and> (\<exists>out. res2 = Inr out \<and> set out = {ds \<in> stored. abs32 (sd_DelaySeconds ds) > 60})"
proof -
  note e = healthy_redis.scan_states_exact [OF assms(1) _ assms(2,3)]
  show ?thesis
    using e [OF assms(4) [unfolded GetRouteDelays_def]] e [OF assms(5) [unfolded GetAllActiveDelays_def]]
    by (simp add: stored_def activeDelayThreshold_def conj_commute)
qed

theorem route_and_active_delays_exact_witness:
  "\<exists>out. fst (GetRouteDelays mem_client ''MTA'' ''A'' demo_redis) = Inr out
     \<and> first_state ''A'' (demo_delay ARRIVAL_DELAY ''a'' 400 100) \<in> set out"
proof -
  obtain res1 r1 where 1: "GetRouteDelays mem_client ''MTA'' ''A'' demo_redis = (res1, r1)" by fastforce
  obtain res2 r2 where 2: "GetAllActiveDelays mem_client ''MTA'' demo_redis = (res2, r2)" by fastforce
  have h: "mem_healthy demo_redis" by code_simp
  have g: "glob_free ''MTA''" by (simp add: glob_free_def)
  from route_and_active_delays_exact [OF mem.healthy_redis_axioms h g 1 2]
  show ?thesis
    using demo_stored by (auto simp: 1) (auto simp: first_state_def demo_delay_def)
qed

end
