(* ===== verification/GtfsParser.thy ===== *)
theory GtfsParser
  imports Graph
begin

text \<open>
  \<open>internal/graph/parser.go\<close>: the CSV files of a GTFS static feed into rows.

  The file system and the text level of \<open>encoding/csv\<close> are inputs: a directory maps a file name
  to its size and to the outcomes of the successive \<open>Read\<close> calls up to end of file (a record,
  or a line the reader rejects). A file that exists can be opened. An index out of range panics:
  \<open>Err_panic\<close> is that outcome of the whole call. A date is the Unix time of an instant in a zone;
  \<open>civil_from_days\<close> is the calendar of the \<open>time\<close> package.
\<close>

datatype graph_error =
  Err_open string | Err_header string | Err_panic | Err_bad_time | Err_wrap string graph_error

datatype csv_read = Rec "string list" | BadRec

record csv_file =
  cf_Size :: nat
  cf_Reads :: "csv_read list"

type_synonym data_dir = "(string, csv_file) gomap"

section \<open>Helpers\<close>

text \<open>A UTF-8 byte order mark.\<close>

definition bom :: string where
  "bom = [CHR 0xEF, CHR 0xBB, CHR 0xBF]"

definition trim_prefix :: "string \<Rightarrow> string \<Rightarrow> string" where
  "trim_prefix p s = (if take (length p) s = p then drop (length p) s else s)"

definition pad_to :: "nat \<Rightarrow> string list \<Rightarrow> string list" where
  "pad_to n r = r @ replicate (n - length r) []"

definition readCSV :: "data_dir \<Rightarrow> string \<Rightarrow> graph_error + (string list list \<times> string list)" where
  "readCSV dir path =
     (case mget dir path of
        None \<Rightarrow> Inl (Err_open path)
      | Some f \<Rightarrow>
          (case cf_Reads f of
             Rec hdr0 # reads \<Rightarrow>
               let hdr = (case hdr0 of [] \<Rightarrow> [] | h # hs \<Rightarrow> trim_prefix bom h # hs);
                   padTo = length hdr + 1
               in Inr (concat (map (\<lambda>rd. case rd of BadRec \<Rightarrow> [] | Rec r \<Rightarrow> [pad_to padTo r]) reads), hdr)
           | _ \<Rightarrow> Inl (Err_header path)))"

definition header_map :: "string list \<Rightarrow> (string, nat) gomap" where
  "header_map hdr = foldl (\<lambda>m (i, h). mput (trim_space h) i m) [] (enumerate 0 hdr)"

definition colIndex :: "string list \<Rightarrow> string list \<Rightarrow> (string, nat) gomap" where
  "colIndex hdr names =
     foldl (\<lambda>m n. mput n (case mget (header_map hdr) n of Some i \<Rightarrow> i | None \<Rightarrow> length hdr) m) [] names"

text \<open>\<open>r[idx[name]]\<close>, and whether every such access of a loop is in range.\<close>

definition col :: "(string, nat) gomap \<Rightarrow> string \<Rightarrow> string list \<Rightarrow> string" where
  "col idx name r = r ! mgetd 0 idx name"

definition cols_in_range :: "(string, nat) gomap \<Rightarrow> string list \<Rightarrow> string list list \<Rightarrow> bool" where
  "cols_in_range idx names rows \<longleftrightarrow>
     list_all (\<lambda>r. list_all (\<lambda>n. mgetd 0 idx n < length r) names) rows"

definition parseGTFSTime :: "string \<Rightarrow> graph_error + int" where
  "parseGTFSTime s =
     (case str_split CHR '':'' (trim_space s) of
        [p0, p1, p2] \<Rightarrow>
          (case atoi p0 of (h, ok) \<Rightarrow> if \<not> ok then Inl Err_bad_time else
           (case atoi p1 of (m, ok) \<Rightarrow> if \<not> ok then Inl Err_bad_time else
           (case atoi p2 of (sec, ok) \<Rightarrow> if \<not> ok then Inl Err_bad_time else
            Inr (i64 (h * 3600 + m * 60 + sec)))))
      | _ \<Rightarrow> Inl Err_bad_time)"

text \<open>
  \<open>strconv.ParseFloat\<close> on decimal notation, with the error ignored: sign, digits with an
  optional point, optional exponent; anything else is 0. The coordinates it is used for are
  never read.
\<close>

definition split_sign :: "string \<Rightarrow> bool \<times> string" where
  "split_sign s = (case s of [] \<Rightarrow> (False, []) | c # cs \<Rightarrow>
     if c = CHR ''-'' then (True, cs) else if c = CHR ''+'' then (False, cs) else (False, s))"

definition parse_mantissa :: "string \<Rightarrow> rat option" where
  "parse_mantissa s =
     (case str_split CHR ''.'' s of
        [a] \<Rightarrow> if a \<noteq> [] \<and> list_all is_digit a then Some (of_int (digits_val a)) else None
      | [a, b] \<Rightarrow> if a @ b \<noteq> [] \<and> list_all is_digit (a @ b)
                 then Some (of_int (digits_val (a @ b)) / 10 ^ length b) else None
      | _ \<Rightarrow> None)"

definition ParseFloat :: "string \<Rightarrow> float64" where
  "ParseFloat s =
     (let (neg, u) = split_sign s;
          parts = str_split CHR ''e'' (map (\<lambda>c. if c = CHR ''E'' then CHR ''e'' else c) u);
          val = (case parts of
                   [m] \<Rightarrow> parse_mantissa m
                 | [m, e] \<Rightarrow>
                     (let (eneg, ds) = split_sign e
                      in if ds = [] \<or> \<not> list_all is_digit ds then None
                         else map_option (\<lambda>v. if eneg then v / 10 ^ nat (digits_val ds)
                                               else v * 10 ^ nat (digits_val ds)) (parse_mantissa m))
                 | _ \<Rightarrow> None)
      in (case val of None \<Rightarrow> 0 | Some v \<Rightarrow> f64 (if neg then - v else v)))"

section \<open>The files\<close>

definition stops_cols :: "string list" where
  "stops_cols = [''stop_id'', ''stop_name'', ''stop_lat'', ''stop_lon'', ''location_type'', ''parent_station'']"

definition stop_of_row :: "(string, nat) gomap \<Rightarrow> string list \<Rightarrow> Stop" where
  "stop_of_row idx r =
     \<lparr>st_ID = col idx ''stop_id'' r, st_Name = col idx ''stop_name'' r,
      st_Lat = ParseFloat (col idx ''stop_lat'' r), st_Lon = ParseFloat (col idx ''stop_lon'' r),
      st_LocationType = fst (atoi (col idx ''location_type'' r)),
      st_ParentStation = col idx ''parent_station'' r\<rparr>"

definition parseStops :: "data_dir \<Rightarrow> graph_error + (string, Stop) gomap" where
  "parseStops dir =
     (case readCSV dir ''stops.txt'' of
        Inl e \<Rightarrow> Inl e
      | Inr (rows, hdr) \<Rightarrow>
          let idx = colIndex hdr stops_cols
          in if \<not> cols_in_range idx stops_cols rows then Inl Err_panic
             else Inr (foldl (\<lambda>m r. mput (col idx ''stop_id'' r) (stop_of_row idx r) m) [] rows))"

definition routes_cols :: "string list" where
  "routes_cols = [''route_id'', ''route_short_name'', ''route_long_name'', ''route_color'']"

definition route_of_row :: "(string, nat) gomap \<Rightarrow> string list \<Rightarrow> Route" where
  "route_of_row idx r =
     \<lparr>rt_ID = col idx ''route_id'' r, rt_ShortName = col idx ''route_short_name'' r,
      rt_LongName = col idx ''route_long_name'' r, rt_Color = col idx ''route_color'' r\<rparr>"

definition parseRoutes :: "data_dir \<Rightarrow> graph_error + (string, Route) gomap" where
  "parseRoutes dir =
     (case readCSV dir ''routes.txt'' of
        Inl e \<Rightarrow> Inl e
      | Inr (rows, hdr) \<Rightarrow>
          let idx = colIndex hdr routes_cols
          in if \<not> cols_in_range idx routes_cols rows then Inl Err_panic
             else Inr (foldl (\<lambda>m r. mput (col idx ''route_id'' r) (route_of_row idx r) m) [] rows))"

definition trips_cols :: "string list" where
  "trips_cols = [''trip_id'', ''route_id'', ''service_id'', ''direction_id'']"

definition trip_of_row :: "(string, nat) gomap \<Rightarrow> string list \<Rightarrow> Trip" where
  "trip_of_row idx r =
     \<lparr>tr_ID = col idx ''trip_id'' r, tr_RouteID = col idx ''route_id'' r,
      tr_ServiceID = col idx ''service_id'' r, tr_DirectionID = fst (atoi (col idx ''direction_id'' r))\<rparr>"

definition parseTrips :: "data_dir \<Rightarrow> graph_error + (string, Trip) gomap" where
  "parseTrips dir =
     (case readCSV dir ''trips.txt'' of
        Inl e \<Rightarrow> Inl e
      | Inr (rows, hdr) \<Rightarrow>
          let idx = colIndex hdr trips_cols
          in if \<not> cols_in_range idx trips_cols rows then Inl Err_panic
             else Inr (foldl (\<lambda>m r. mput (col idx ''trip_id'' r) (trip_of_row idx r) m) [] rows))"

definition stop_times_cols :: "string list" where
  "stop_times_cols = [''trip_id'', ''stop_id'', ''arrival_time'', ''departure_time'', ''stop_sequence'']"

text \<open>One row of the loop: skipped when the arrival time is malformed.\<close>

definition stop_time_of_row :: "(string, nat) gomap \<Rightarrow> string list \<Rightarrow> ScheduledStopTime list" where
  "stop_time_of_row idx r =
     (case parseGTFSTime (col idx ''arrival_time'' r) of
        Inl e \<Rightarrow> []
      | Inr arr \<Rightarrow>
          [\<lparr>TripID = col idx ''trip_id'' r, StopID = col idx ''stop_id'' r, ArrivalSecs = arr,
            DepartureSecs = (case parseGTFSTime (col idx ''departure_time'' r) of Inl e \<Rightarrow> arr | Inr dep \<Rightarrow> dep),
            StopSequence = fst (atoi (col idx ''stop_sequence'' r))\<rparr>])"

definition parseStopTimes :: "data_dir \<Rightarrow> graph_error + ScheduledStopTime list" where
  "parseStopTimes dir =
     (case readCSV dir ''stop_times.txt'' of
        Inl e \<Rightarrow> Inl e
      | Inr (rows, hdr) \<Rightarrow>
          let idx = colIndex hdr stop_times_cols
          in if \<not> cols_in_range idx stop_times_cols rows then Inl Err_panic
             else Inr (concat (map (stop_time_of_row idx) rows)))"

definition transfers_cols :: "string list" where
  "transfers_cols = [''from_stop_id'', ''to_stop_id'', ''transfer_type'', ''min_transfer_time'']"

definition transfer_of_row :: "(string, nat) gomap \<Rightarrow> string list \<Rightarrow> Transfer" where
  "transfer_of_row idx r =
     \<lparr>FromStopID = col idx ''from_stop_id'' r, ToStopID = col idx ''to_stop_id'' r,
      TransferType = fst (atoi (col idx ''transfer_type'' r)),
      MinTransferTime = fst (atoi (col idx ''min_transfer_time'' r))\<rparr>"

definition parseTransfers :: "data_dir \<Rightarrow> graph_error + Transfer list" where
  "parseTransfers dir =
     (case readCSV dir ''transfers.txt'' of
        Inl e \<Rightarrow> Inl e
      | Inr (rows, hdr) \<Rightarrow>
          let idx = colIndex hdr transfers_cols
          in if \<not> cols_in_range idx transfers_cols rows then Inl Err_panic
             else Inr (map (transfer_of_row idx) rows))"

section \<open>The service calendar\<close>

text \<open>Gregorian year, month and day of a day number (0 is 1970-01-01).\<close>

definition civil_from_days :: "int \<Rightarrow> int \<times> int \<times> int" where
  "civil_from_days z0 =
     (let z = z0 + 719468;
          era = z div 146097;
          doe = z mod 146097;
          yoe = (doe - doe div 1460 + doe div 36524 - doe div 146096) div 365;
          doy = doe - (365 * yoe + yoe div 4 - yoe div 100);
          mp = (5 * doy + 2) div 153;
          d = doy - (153 * mp + 2) div 5 + 1;
          m = (if mp < 10 then mp + 3 else mp - 9);
          y = yoe + era * 400 + (if m \<le> 2 then 1 else 0)
      in (y, m, d))"

definition local_day :: "location \<Rightarrow> int64 \<Rightarrow> int" where
  "local_day loc t = (t + loc t) div 86400"

definition zero_pad :: "nat \<Rightarrow> string \<Rightarrow> string" where
  "zero_pad n s = replicate (n - length s) CHR ''0'' @ s"

text \<open>\<open>date.Format("20060102")\<close> for a year from 0 to 9999.\<close>

definition format_date :: "int \<Rightarrow> string" where
  "format_date day =
     (let (y, m, d) = civil_from_days day
      in zero_pad 4 (itoa y) @ zero_pad 2 (itoa m) @ zero_pad 2 (itoa d))"

text \<open>\<open>date.Weekday()\<close>: 0 is Sunday.\<close>

definition weekday :: "int \<Rightarrow> int" where
  "weekday day = (day + 4) mod 7"

text \<open>Go compares strings byte by byte.\<close>

fun str_less :: "string \<Rightarrow> string \<Rightarrow> bool" where
  "str_less _ [] = False"
| "str_less [] (_ # _) = True"
| "str_less (a # as) (b # bs) =
     ((of_char a :: nat) < of_char b \<or> a = b \<and> str_less as bs)"

definition dayCol :: "string list" where
  "dayCol = [''monday'', ''tuesday'', ''wednesday'', ''thursday'', ''friday'', ''saturday'', ''sunday'']"

definition calendar_cols :: "string list" where
  "calendar_cols = [''service_id'', ''start_date'', ''end_date''] @ dayCol"

definition calendar_dates_cols :: "string list" where
  "calendar_dates_cols = [''service_id'', ''date'', ''exception_type'']"

definition calendar_step ::
  "(string, nat) gomap \<Rightarrow> string \<Rightarrow> nat \<Rightarrow> (string, bool) gomap \<Rightarrow> string list \<Rightarrow> (string, bool) gomap" where
  "calendar_step idx dateStr gtfsDay active r =
     (let start = col idx ''start_date'' r; fin = col idx ''end_date'' r
      in if str_less dateStr start \<or> str_less fin dateStr then active
         else if col idx (dayCol ! gtfsDay) r = ''1'' then mput (col idx ''service_id'' r) True active
         else active)"

definition calendar_dates_step ::
  "(string, nat) gomap \<Rightarrow> string \<Rightarrow> (string, bool) gomap \<Rightarrow> string list \<Rightarrow> (string, bool) gomap" where
  "calendar_dates_step idx dateStr active r =
     (if col idx ''date'' r \<noteq> dateStr then active
      else let sid = col idx ''service_id'' r
           in if col idx ''exception_type'' r = ''1'' then mput sid True active
              else if col idx ''exception_type'' r = ''2'' then mdel sid active
              else active)"

definition activeServices :: "data_dir \<Rightarrow> int \<Rightarrow> graph_error + (string, bool) gomap" where
  "activeServices dir day =
     (case readCSV dir ''calendar.txt'' of
        Inl e \<Rightarrow> Inl e
      | Inr (rows, hdr) \<Rightarrow>
          let idx = colIndex hdr calendar_cols;
              dateStr = format_date day;
              gtfsDay = nat ((weekday day + 6) mod 7)
          in if \<not> cols_in_range idx calendar_cols rows then Inl Err_panic
             else let active = foldl (calendar_step idx dateStr gtfsDay) [] rows
             in (case mget dir ''calendar_dates.txt'' of
                   None \<Rightarrow> Inr active
                 | Some f \<Rightarrow>
                     if cf_Size f = 0 then Inr active
                     else (case readCSV dir ''calendar_dates.txt'' of
                             Inl e \<Rightarrow> Inl e
                           | Inr (rows2, hdr2) \<Rightarrow>
                               let idx2 = colIndex hdr2 calendar_dates_cols
                               in if \<not> cols_in_range idx2 calendar_dates_cols rows2 then Inl Err_panic
                                  else Inr (foldl (calendar_dates_step idx2 dateStr) active rows2))))"

definition parseAgencyTZ :: "data_dir \<Rightarrow> graph_error + string" where
  "parseAgencyTZ dir =
     (case mget dir ''agency.txt'' of
        None \<Rightarrow> Inr []
      | Some f \<Rightarrow>
          (case readCSV dir ''agency.txt'' of
             Inl e \<Rightarrow> Inl e
           | Inr (rows, hdr) \<Rightarrow>
               let idx = colIndex hdr [''agency_timezone'']
               in (case rows of
                     [] \<Rightarrow> Inr []
                   | r # _ \<Rightarrow>
                       if \<not> cols_in_range idx [''agency_timezone''] [r] then Inl Err_panic
                       else Inr (trim_space (col idx ''agency_timezone'' r)))))"


section \<open>Column lookups stay in range\<close>

lemma header_map_less: "mget (header_map hdr) n = Some i \<Longrightarrow> i < length hdr"
proof -
  have "\<forall>k j. mget (header_map hdr) k = Some j \<longrightarrow> j < length hdr"
    unfolding header_map_def
    by (rule foldl_invariant) (auto simp: in_set_enumerate_eq split: if_splits)
  then show "mget (header_map hdr) n = Some i \<Longrightarrow> i < length hdr" by blast
qed

lemma colIndex_get:
  "n \<in> set names \<Longrightarrow> mgetd d (colIndex hdr names) n =
     (case mget (header_map hdr) n of Some i \<Rightarrow> i | None \<Rightarrow> length hdr)"
proof (induction names rule: rev_induct)
  case (snoc m ms)
  have e: "colIndex hdr (ms @ [m]) =
      mput m (case mget (header_map hdr) m of Some i \<Rightarrow> i | None \<Rightarrow> length hdr) (colIndex hdr ms)"
    by (simp add: colIndex_def)
  show ?case using snoc unfolding e by (cases "n = m") auto
qed simp

lemma colIndex_le: "n \<in> set names \<Longrightarrow> mgetd d (colIndex hdr names) n \<le> length hdr"
  by (auto simp: colIndex_get header_map_less less_imp_le split: option.splits)

lemma readCSV_row_length:
  "readCSV dir p = Inr (rows, hdr) \<Longrightarrow> r \<in> set rows \<Longrightarrow> length hdr < length r"
  by (auto simp: readCSV_def Let_def pad_to_def split: option.splits list.splits csv_read.splits)

lemma readCSV_cols_in_range:
  assumes "readCSV dir p = Inr (rows, hdr)" "set names \<subseteq> set all_names"
  shows "cols_in_range (colIndex hdr all_names) names rows"
  using colIndex_le [of _ all_names 0 hdr] readCSV_row_length [OF assms(1)] assms(2)
  by (fastforce simp: cols_in_range_def list_all_iff)

lemma readCSV_no_panic: "readCSV dir p \<noteq> Inl Err_panic"
  by (auto simp: readCSV_def Let_def split: option.splits list.splits csv_read.splits)

section \<open>Times of day\<close>

lemma digits_val_zeros: "digits_val (replicate n CHR ''0'' @ s) = digits_val s"
  by (induction n) (simp_all add: digits_val_def digit_val_def)

lemma zero_pad_itoa:
  assumes "0 \<le> x" "in_i64 x"
  shows "atoi (zero_pad n (itoa x)) = (x, True)"
    and "zero_pad n (itoa x) \<noteq> []" "list_all is_digit (zero_pad n (itoa x))"
proof -
  define z where "z = zero_pad n (itoa x)"
  have d: "list_all is_digit z"
    using show_digits_digits [OF assms(1)] assms(1)
    by (auto simp: z_def zero_pad_def itoa_def list_all_iff is_digit_def)
  have nz: "z \<noteq> []" using assms(1) by (simp add: z_def zero_pad_def itoa_def)
  have v: "digits_val z = x" using assms(1) by (simp add: z_def zero_pad_def itoa_def digits_val_zeros)
  obtain c cs where c: "z = c # cs" using nz by (cases z) auto
  then have "c \<noteq> CHR ''-''" "c \<noteq> CHR ''+''" using d is_digit_facts by auto
  then show "atoi (zero_pad n (itoa x)) = (x, True)"
    using d v c assms(2) by (simp add: atoi_def in_i64_def flip: z_def)
  show "zero_pad n (itoa x) \<noteq> []" "list_all is_digit (zero_pad n (itoa x))"
    using nz d by (simp_all add: z_def)
qed

lemma parseGTFSTime_digits:
  assumes "list_all is_digit a" "list_all is_digit b" "list_all is_digit c" "a \<noteq> []" "c \<noteq> []"
  shows "str_split CHR '':'' (trim_space (a @ CHR '':'' # b @ CHR '':'' # c)) = [a, b, c]"
proof -
  have no: "CHR '':'' \<notin> set x" if "list_all is_digit x" for x
    using that is_digit_facts by (auto simp: list_all_iff)
  have sp: "\<not> is_space (hd a)" "\<not> is_space (last c)"
    using assms is_digit_facts by (simp_all add: list_all_iff)
  then have "trim_space (a @ CHR '':'' # b @ CHR '':'' # c) = a @ CHR '':'' # b @ CHR '':'' # c"
    using assms(4,5) by (intro trim_space_id) (simp add: hd_append)
  then show ?thesis
    using assms(1,2,3) [THEN no] by (simp add: str_split_append str_split_no_sep)
qed

section \<open>The calendar overrides\<close>

text \<open>
  Reference: the last matching exception of \<open>calendar_dates.txt\<close> decides; without one, some row
  of \<open>calendar.txt\<close> must cover the date and mark the weekday.
\<close>

definition calendar_covers ::
  "(string, nat) gomap \<Rightarrow> string \<Rightarrow> nat \<Rightarrow> string list list \<Rightarrow> string \<Rightarrow> bool" where
  "calendar_covers idx dateStr gtfsDay rows sid \<longleftrightarrow>
     (\<exists>r\<in>set rows. col idx ''service_id'' r = sid
        \<and> \<not> str_less dateStr (col idx ''start_date'' r) \<and> \<not> str_less (col idx ''end_date'' r) dateStr
        \<and> col idx (dayCol ! gtfsDay) r = ''1'')"

definition exceptions_for ::
  "(string, nat) gomap \<Rightarrow> string \<Rightarrow> string list list \<Rightarrow> string \<Rightarrow> string list list" where
  "exceptions_for idx dateStr rows sid =
     filter (\<lambda>r. col idx ''date'' r = dateStr \<and> col idx ''service_id'' r = sid
        \<and> col idx ''exception_type'' r \<in> {''1'', ''2''}) rows"

lemma calendar_fold:
  "mgetd False (foldl (calendar_step idx d k) [] rows) sid \<longleftrightarrow> calendar_covers idx d k rows sid"
  by (induction rows rule: rev_induct) (auto simp: calendar_step_def Let_def calendar_covers_def)

lemma calendar_dates_fold:
  "mgetd False (foldl (calendar_dates_step idx d) active rows) sid \<longleftrightarrow>
     (case exceptions_for idx d rows sid of
        [] \<Rightarrow> mgetd False active sid
      | xs \<Rightarrow> col idx ''exception_type'' (last xs) = ''1'')"
proof (induction rows rule: rev_induct)
  case Nil
  then show ?case by (simp add: exceptions_for_def)
next
  case (snoc r rows)
  have del: "mgetd False (mdel k m) j = (if j = k then False else mgetd False m j)"
    for k j and m :: "(string, bool) gomap"
    by (simp add: mgetd_def)
  show ?case
    using snoc by (auto simp: calendar_dates_step_def Let_def exceptions_for_def del split: list.splits)
qed

section \<open>Properties\<close>

text \<open>C21: no index expression of the CSV loops is out of range. Every parser of \<open>parser.go\<close> either
  returns rows or an open or header error, whatever the files hold: short rows, missing columns and
  rejected lines never panic.\<close>

theorem parsers_never_panic:
  "parseStops dir \<noteq> Inl Err_panic \<and> parseRoutes dir \<noteq> Inl Err_panic \<and> parseTrips dir \<noteq> Inl Err_panic
   \<and> parseStopTimes dir \<noteq> Inl Err_panic \<and> parseTransfers dir \<noteq> Inl Err_panic
   \<and> activeServices dir day \<noteq> Inl Err_panic \<and> parseAgencyTZ dir \<noteq> Inl Err_panic"
proof -
  have in_range: "cols_in_range (colIndex hdr ns) ns rows" if "readCSV dir p = Inr (rows, hdr)" for p rows hdr ns
    using readCSV_cols_in_range [OF that, of ns ns] by simp
  have first: "cols_in_range (colIndex hdr ns) ns [r]" if "readCSV dir p = Inr (r # rows, hdr)" for p r rows hdr ns
    using in_range [OF that, of ns] by (simp add: cols_in_range_def)
  have "parseStops dir \<noteq> Inl Err_panic" "parseRoutes dir \<noteq> Inl Err_panic" "parseTrips dir \<noteq> Inl Err_panic"
    "parseStopTimes dir \<noteq> Inl Err_panic" "parseTransfers dir \<noteq> Inl Err_panic"
    by (auto simp: parseStops_def parseRoutes_def parseTrips_def parseStopTimes_def parseTransfers_def
        Let_def readCSV_no_panic in_range split: sum.splits)
  moreover have "activeServices dir day \<noteq> Inl Err_panic"
    by (auto simp: activeServices_def Let_def readCSV_no_panic in_range split: sum.splits option.splits)
  moreover have "parseAgencyTZ dir \<noteq> Inl Err_panic"
    by (auto simp: parseAgencyTZ_def Let_def readCSV_no_panic first
        split: sum.splits option.splits list.splits)
  ultimately show ?thesis by blast
qed

text \<open>C22: \<open>parseGTFSTime\<close> inverts the \<open>HH:MM:SS\<close> notation, hours past 24 included: printing
  hours, minutes and seconds with two-digit padding and parsing the result gives the seconds since
  midnight.\<close>

theorem parseGTFSTime_roundtrip:
  assumes "0 \<le> h" "0 \<le> m" "0 \<le> s" "in_i64 (h * 3600 + m * 60 + s)"
  shows "parseGTFSTime (zero_pad 2 (itoa h) @ '':'' @ zero_pad 2 (itoa m) @ '':'' @ zero_pad 2 (itoa s))
    = Inr (h * 3600 + m * 60 + s)"
proof -
  have "in_i64 h" "in_i64 m" "in_i64 s" using assms by (auto simp: in_i64_def)
  note z = zero_pad_itoa [OF assms(1) this(1), of 2] zero_pad_itoa [OF assms(2) this(2), of 2]
    zero_pad_itoa [OF assms(3) this(3), of 2]
  have "str_split CHR '':'' (trim_space (zero_pad 2 (itoa h) @ '':'' @ zero_pad 2 (itoa m) @ '':'' @ zero_pad 2 (itoa s)))
     = [zero_pad 2 (itoa h), zero_pad 2 (itoa m), zero_pad 2 (itoa s)]"
    using parseGTFSTime_digits [OF z(3) z(6) z(9) z(2) z(8)] by simp
  then show ?thesis
    using z assms(4) by (simp add: parseGTFSTime_def i64_id)
qed

theorem parseGTFSTime_roundtrip_witness:
  "parseGTFSTime ''25:30:07'' = Inr 91807"
proof -
  have "parseGTFSTime (zero_pad 2 (itoa 25) @ '':'' @ zero_pad 2 (itoa 30) @ '':'' @ zero_pad 2 (itoa 7))
      = Inr (25 * 3600 + 30 * 60 + 7)"
    by (rule parseGTFSTime_roundtrip) (simp_all add: in_i64_def)
  moreover have "zero_pad 2 (itoa 25) @ '':'' @ zero_pad 2 (itoa 30) @ '':'' @ zero_pad 2 (itoa 7) = ''25:30:07''"
    by code_simp
  ultimately show ?thesis by simp
qed

text \<open>What a column that is missing from the header reads as. The sentinel index is the length
  of the header, so a row that is no longer than the header yields the empty string, and a row with
  one field more yields that extra field: the sentinel is not empty for every row.\<close>

theorem missing_column_value:
  assumes "n \<in> set names" "mget (header_map hdr) n = None"
  shows "col (colIndex hdr names) n (pad_to (length hdr + 1) r) =
    (if length r \<le> length hdr then [] else r ! length hdr)"
  using assms by (auto simp: col_def colIndex_get pad_to_def nth_append)

theorem missing_column_value_witness:
  "col (colIndex [''stop_id''] stops_cols) ''parent_station'' (pad_to 2 [''A01'', ''extra'']) = ''extra''"
proof -
  have "''parent_station'' \<in> set stops_cols" by (simp add: stops_cols_def)
  moreover have "mget (header_map [''stop_id'']) ''parent_station'' = None" by code_simp
  ultimately show ?thesis
    using missing_column_value [of "''parent_station''" stops_cols "[''stop_id'']" "[''A01'', ''extra'']"]
    by (simp add: numeral_2_eq_2)
qed

text \<open>\<open>activeServices\<close> implements the service calendar: with the rows of the two files, a service
  is active exactly when its last exception for the date adds it, or when it has no exception for the
  date and a row of \<open>calendar.txt\<close> covers the date and marks the weekday.\<close>

theorem activeServices_spec:
  assumes "readCSV dir ''calendar.txt'' = Inr (rows, hdr)"
    and "mget dir ''calendar_dates.txt'' = Some f" "cf_Size f > 0"
    and "readCSV dir ''calendar_dates.txt'' = Inr (rows2, hdr2)"
  shows "\<exists>active. activeServices dir day = Inr active \<and> (\<forall>sid.
    mgetd False active sid =
      (case exceptions_for (colIndex hdr2 calendar_dates_cols) (format_date day) rows2 sid of
         [] \<Rightarrow> calendar_covers (colIndex hdr calendar_cols) (format_date day)
                 (nat ((weekday day + 6) mod 7)) rows sid
       | xs \<Rightarrow> col (colIndex hdr2 calendar_dates_cols) ''exception_type'' (last xs) = ''1''))"
proof -
  have "cols_in_range (colIndex hdr calendar_cols) calendar_cols rows"
    "cols_in_range (colIndex hdr2 calendar_dates_cols) calendar_dates_cols rows2"
    using readCSV_cols_in_range [OF assms(1)] readCSV_cols_in_range [OF assms(4)] by blast+
  then show ?thesis
    using assms by (simp add: activeServices_def Let_def calendar_dates_fold calendar_fold split: list.split)
qed

definition demo_calendar :: data_dir where
  "demo_calendar =
     [(''calendar.txt'', \<lparr>cf_Size = 90, cf_Reads =
        [Rec calendar_cols,
         Rec [''WKD'', ''20240101'', ''20241231'', ''1'', ''1'', ''1'', ''1'', ''1'', ''0'', ''0''],
         Rec [''SAT'', ''20240101'', ''20241231'', ''0'', ''0'', ''0'', ''0'', ''0'', ''1'', ''0'']]\<rparr>),
      (''calendar_dates.txt'', \<lparr>cf_Size = 40, cf_Reads =
        [Rec calendar_dates_cols, Rec [''WKD'', ''20241004'', ''2''], Rec [''SAT'', ''20241004'', ''1'']]\<rparr>)]"

lemma demo_exceptions:
  "exceptions_for (colIndex calendar_dates_cols calendar_dates_cols) (format_date 20000)
     [[''WKD'', ''20241004'', ''2'', []], [''SAT'', ''20241004'', ''1'', []]] ''SAT''
   = [[''SAT'', ''20241004'', ''1'', []]]"
  "col (colIndex calendar_dates_cols calendar_dates_cols) ''exception_type''
     [''SAT'', ''20241004'', ''1'', []] = ''1''"
  by code_simp+

theorem activeServices_spec_witness:
  "\<exists>active. activeServices demo_calendar 20000 = Inr active \<and> mgetd False active ''SAT''"
proof -
  obtain rows hdr where 1: "readCSV demo_calendar ''calendar.txt'' = Inr (rows, hdr)"
    by (simp add: readCSV_def demo_calendar_def Let_def calendar_cols_def)
  obtain f where f: "mget demo_calendar ''calendar_dates.txt'' = Some f" "cf_Size f > 0"
    by (simp add: demo_calendar_def)
  have 2: "readCSV demo_calendar ''calendar_dates.txt'' =
      Inr ([[''WKD'', ''20241004'', ''2'', []], [''SAT'', ''20241004'', ''1'', []]], calendar_dates_cols)"
    by code_simp
  show ?thesis
    using activeServices_spec [OF 1 f 2, of 20000] by (auto simp: demo_exceptions)
qed

end
