(* ===== verification/Headway.thy ===== *)
theory Headway
  imports Graph
begin

text \<open>
  \<open>internal/graph/headway.go\<close>: the median scheduled headway per route, direction, parent
  station and hour, keyed by the string the code builds with \<open>Sprintf\<close>.
\<close>

definition maxHeadwayGapSecs :: int where
  "maxHeadwayGapSecs = 3 * 3600"

definition maxHeadwayHour :: int where
  "maxHeadwayHour = 27"

definition headwayKey :: "string \<Rightarrow> int \<Rightarrow> string \<Rightarrow> int \<Rightarrow> string" where
  "headwayKey routeID directionID stationID hour =
     routeID @ '':'' @ itoa directionID @ '':'' @ stationID @ '':'' @ itoa hour"

definition median :: "int list \<Rightarrow> float64" where
  "median sorted_xs =
     (let n = length sorted_xs
      in if n = 0 then 0
         else if n mod 2 = 1 then i_to_f64 (sorted_xs ! (n div 2))
         else f64 (i_to_f64 (sorted_xs ! (n div 2 - 1) + sorted_xs ! (n div 2)) / 2))"

text \<open>Departures per \<open>route:dir\<close>, in the order of the stop's list.\<close>

definition route_dir_key :: "string \<Rightarrow> int \<Rightarrow> string" where
  "route_dir_key routeID dir = routeID @ '':'' @ itoa dir"

definition group_deps :: "TransitGraph \<Rightarrow> ScheduledStopTime list \<Rightarrow> (string, int list) gomap" where
  "group_deps g stopTimes =
     foldl (\<lambda>deps st.
       (case mget (TripRoute g) (TripID st) of
          None \<Rightarrow> deps
        | Some routeID \<Rightarrow>
            let rd = route_dir_key routeID (mgetd 0 (TripDirection g) (TripID st))
            in mput rd (mgetd [] deps rd @ [DepartureSecs st]) deps)) [] stopTimes"

text \<open>Gaps of consecutive departures, bucketed by the hour of the earlier one.\<close>

fun bucket_gaps :: "(int, int list) gomap \<Rightarrow> int list \<Rightarrow> (int, int list) gomap" where
  "bucket_gaps gaps (t0 # t1 # ts) =
     (let gap = t1 - t0; hour = tdiv t0 3600
      in if gap \<le> 0 \<or> gap > maxHeadwayGapSecs then bucket_gaps gaps (t1 # ts)
         else if hour > maxHeadwayHour then bucket_gaps gaps (t1 # ts)
         else bucket_gaps (mput hour (mgetd [] gaps hour @ [gap]) gaps) (t1 # ts))"
| "bucket_gaps gaps _ = gaps"

definition put_headways ::
  "string \<Rightarrow> string \<Rightarrow> (int, int list) gomap \<Rightarrow> (string, float64) gomap \<Rightarrow> (string, float64) gomap" where
  "put_headways rd stationID gaps hws =
     foldl (\<lambda>m (hour, hourGaps).
       mput (rd @ '':'' @ stationID @ '':'' @ itoa hour) (median (sort hourGaps)) m) hws gaps"

definition station_headways ::
  "TransitGraph \<Rightarrow> (string, float64) gomap \<Rightarrow> string \<times> ScheduledStopTime list \<Rightarrow> (string, float64) gomap" where
  "station_headways g hws e =
     (case e of (stationID, stopTimes) \<Rightarrow>
        foldl (\<lambda>m (rd, times). put_headways rd stationID (bucket_gaps [] times) m) hws
          (group_deps g stopTimes))"

definition BuildHeadwayIndex :: "TransitGraph \<Rightarrow> TransitGraph" where
  "BuildHeadwayIndex g =
     g\<lparr>headways := Some (foldl (station_headways g) [] (StopTimesByStop g))\<rparr>"

definition GetScheduledHeadway ::
  "TransitGraph option \<Rightarrow> string \<Rightarrow> int \<Rightarrow> string \<Rightarrow> int \<Rightarrow> float64 \<times> bool" where
  "GetScheduledHeadway gp routeID directionID stopID secsSinceMidnight =
     (case gp of
        None \<Rightarrow> (0, False)
      | Some g \<Rightarrow>
          (case headways g of
             None \<Rightarrow> (0, False)
           | Some hw \<Rightarrow>
               let stationID = parentStation stopID (Stops g);
                   hour = tdiv secsSinceMidnight 3600
               in if hour < 0 \<or> hour > maxHeadwayHour then (0, False)
                  else (case mget hw (headwayKey routeID directionID stationID hour) of
                          Some h \<Rightarrow> (h, True)
                        | None \<Rightarrow>
                            if hour < 4 then
                              (case mget hw (headwayKey routeID directionID stationID (hour + 24)) of
                                 Some h \<Rightarrow> (h, True)
                               | None \<Rightarrow> (0, False))
                            else (0, False))))"

section \<open>Values of the index\<close>

text \<open>A headway is positive and at most three hours.\<close>

definition headway_ok :: "float64 \<Rightarrow> bool" where
  "headway_ok h \<longleftrightarrow> 1 \<le> h \<and> h \<le> 10800"

definition gap_ok :: "int \<Rightarrow> bool" where
  "gap_ok d \<longleftrightarrow> 1 \<le> d \<and> d \<le> maxHeadwayGapSecs"

definition gaps_ok :: "(int, int list) gomap \<Rightarrow> bool" where
  "gaps_ok gaps \<longleftrightarrow> (\<forall>h ds. mget gaps h = Some ds \<longrightarrow> ds \<noteq> [] \<and> list_all gap_ok ds)"

lemma bucket_gaps_ok: "wf_map gaps \<Longrightarrow> gaps_ok gaps \<Longrightarrow>
  wf_map (bucket_gaps gaps ts) \<and> gaps_ok (bucket_gaps gaps ts)"
proof (induction gaps ts rule: bucket_gaps.induct)
  case (1 gaps t0 t1 ts)
  define gap hour where "gap = t1 - t0" and "hour = tdiv t0 3600"
  show ?case
  proof (cases "gap \<le> 0 \<or> gap > maxHeadwayGapSecs \<or> hour > maxHeadwayHour")
    case True
    then show ?thesis
      using 1 by (auto simp: Let_def gap_def hour_def)
  next
    case False
    have "gaps_ok (mput hour (mgetd [] gaps hour @ [gap]) gaps)"
      using "1.prems"(2) False by (auto simp: gaps_ok_def gap_ok_def mgetd_def split: option.splits)
    then show ?thesis
      using 1 False by (simp add: Let_def gap_def hour_def)
  qed
qed auto

lemma bucket_gaps_Nil_ok: "wf_map (bucket_gaps [] ts)" "gaps_ok (bucket_gaps [] ts)"
  using bucket_gaps_ok [of "[]" ts] by (simp_all add: gaps_ok_def)

lemma median_ok:
  assumes "ds \<noteq> []" "list_all gap_ok ds"
  shows "headway_ok (median ds)"
proof -
  have nth: "gap_ok (ds ! i)" if "i < length ds" for i
    using assms(2) that by (simp add: list_all_length)
  show ?thesis
  proof (cases "length ds mod 2 = 1")
    case True
    have "gap_ok (ds ! (length ds div 2))" using assms(1) by (intro nth) simp
    then show ?thesis
      using assms(1) True
      by (simp add: median_def Let_def headway_ok_def gap_ok_def maxHeadwayGapSecs_def in_i32_def)
  next
    case False
    define s where "s = ds ! (length ds div 2 - 1) + ds ! (length ds div 2)"
    have "gap_ok (ds ! (length ds div 2 - 1))" "gap_ok (ds ! (length ds div 2))"
      using assms(1) by (intro nth; cases ds; simp)+
    then have s: "2 \<le> s" "s \<le> 21600"
      by (auto simp: s_def gap_ok_def maxHeadwayGapSecs_def)
    moreover have "i_to_f64 s = of_int s" using s by (simp add: in_i32_def)
    moreover have "f64 (of_int s / 2) = of_int s / 2" by (rule f64_half_int) (use s in simp)
    ultimately have "median ds = of_int s / 2"
      using assms(1) False unfolding median_def Let_def s_def [symmetric] by simp
    moreover have "(2 :: rat) \<le> of_int s" "of_int s \<le> (21600 :: rat)" using s by linarith+
    ultimately show ?thesis by (simp add: headway_ok_def)
  qed
qed

definition index_ok :: "(string, float64) gomap \<Rightarrow> bool" where
  "index_ok m \<longleftrightarrow> (\<forall>k h. mget m k = Some h \<longrightarrow> headway_ok h)"

lemma put_headways_ok:
  assumes "index_ok hws" "wf_map gaps" "gaps_ok gaps"
  shows "index_ok (put_headways rd s gaps hws)"
  unfolding put_headways_def
proof (rule foldl_invariant [of index_ok, OF assms(1)])
  fix m e assume m: "index_ok m" and e: "e \<in> set gaps"
  obtain h ds where [simp]: "e = (h, ds)" by (cases e)
  have "mget gaps h = Some ds" using e assms(2) by (simp add: wf_map_mem)
  then have "ds \<noteq> []" "list_all gap_ok ds" using assms(3) by (auto simp: gaps_ok_def)
  then have "headway_ok (median (sort ds))" by (intro median_ok) (simp_all add: list_all_iff flip: set_empty)
  with m show "index_ok (case e of (hour, hourGaps) \<Rightarrow>
      mput (rd @ '':'' @ s @ '':'' @ itoa hour) (median (sort hourGaps)) m)"
    by (auto simp: index_ok_def)
qed

lemma station_headways_ok: "index_ok hws \<Longrightarrow> index_ok (station_headways g hws e)"
  unfolding station_headways_def
  by (cases e) (auto intro!: foldl_invariant [of index_ok] put_headways_ok
      simp: bucket_gaps_Nil_ok)

lemma BuildHeadwayIndex_ok: "headways (BuildHeadwayIndex g) = Some hw \<Longrightarrow> index_ok hw"
  by (auto simp: BuildHeadwayIndex_def index_ok_def [of "[]"]
      intro!: foldl_invariant [of index_ok] station_headways_ok)

lemma GetScheduledHeadway_ok:
  assumes "headways g = Some hw" "index_ok hw"
    and "GetScheduledHeadway (Some g) r d s t = (h, True)"
  shows "headway_ok h"
  using assms by (auto simp: GetScheduledHeadway_def Let_def index_ok_def split: option.splits if_splits)

lemma BuildHeadwayIndex_frame [simp]:
  "Stops (BuildHeadwayIndex g) = Stops g" "Routes (BuildHeadwayIndex g) = Routes g"
  "TripRoute (BuildHeadwayIndex g) = TripRoute g" "TripDirection (BuildHeadwayIndex g) = TripDirection g"
  "StopTimesByStop (BuildHeadwayIndex g) = StopTimesByStop g"
  "StopTimesByTrip (BuildHeadwayIndex g) = StopTimesByTrip g"
  "TransfersByStop (BuildHeadwayIndex g) = TransfersByStop g"
  "RoutesAtStop (BuildHeadwayIndex g) = RoutesAtStop g"
  "activeTrips (BuildHeadwayIndex g) = activeTrips g" "tripSuffix (BuildHeadwayIndex g) = tripSuffix g"
  "tz (BuildHeadwayIndex g) = tz g"
  by (simp_all add: BuildHeadwayIndex_def)

end
