(* ===== verification/BuildGraph.thy ===== *)
theory BuildGraph
  imports GtfsParser Headway
begin

text \<open>
  \<open>BuildGraph\<close> of \<open>internal/graph/graph.go\<close>: the loops that turn the parsed files into the
  indices of the \<open>TransitGraph\<close>. The IANA zone database (\<open>time.LoadLocation\<close>) and the
  process-local zone are arguments. \<open>sort.Slice\<close> promises a sorted permutation and leaves the
  order of equal keys open; \<open>sort_key\<close> is the stable choice.
\<close>

section \<open>The loops\<close>

definition mappend :: "'k \<Rightarrow> 'v \<Rightarrow> ('k, 'v list) gomap \<Rightarrow> ('k, 'v list) gomap" where
  "mappend k x m = mput k (mgetd [] m k @ [x]) m"

definition choose_location ::
  "(string \<Rightarrow> location option) \<Rightarrow> location \<Rightarrow> data_dir \<Rightarrow> location" where
  "choose_location loadLocation local dir =
     (case parseAgencyTZ dir of
        Inl e \<Rightarrow> local
      | Inr tzName \<Rightarrow>
          if tzName \<noteq> [] then (case loadLocation tzName of None \<Rightarrow> local | Some l \<Rightarrow> l) else local)"

record trip_maps =
  tm_active :: "(string, bool) gomap"
  tm_route :: "(string, string) gomap"
  tm_dir :: "(string, int) gomap"

definition trip_step :: "(string, bool) gomap \<Rightarrow> trip_maps \<Rightarrow> Trip \<Rightarrow> trip_maps" where
  "trip_step active m t =
     (let m1 = m\<lparr>tm_route := mput (tr_ID t) (tr_RouteID t) (tm_route m),
                 tm_dir := mput (tr_ID t) (tr_DirectionID t) (tm_dir m)\<rparr>
      in if mgetd False active (tr_ServiceID t)
         then m1\<lparr>tm_active := mput (tr_ID t) True (tm_active m)\<rparr> else m1)"

definition trip_maps_of :: "(string, bool) gomap \<Rightarrow> (string, Trip) gomap \<Rightarrow> trip_maps" where
  "trip_maps_of active trips =
     foldl (trip_step active) \<lparr>tm_active = [], tm_route = [], tm_dir = []\<rparr> (map snd trips)"

record stop_indices =
  ix_byStop :: "(string, ScheduledStopTime list) gomap"
  ix_byTrip :: "(string, ScheduledStopTime list) gomap"
  ix_routesAtStop :: "(string, (string, bool) gomap) gomap"

definition stop_time_step ::
  "(string, Stop) gomap \<Rightarrow> trip_maps \<Rightarrow> stop_indices \<Rightarrow> ScheduledStopTime \<Rightarrow> stop_indices" where
  "stop_time_step stops tm ix st =
     (if \<not> mgetd False (tm_active tm) (TripID st) then ix
      else let parentID = parentStation (StopID st) stops;
               route = mgetd [] (tm_route tm) (TripID st)
           in ix\<lparr>ix_byStop := mappend parentID st (ix_byStop ix),
                 ix_byTrip := mappend (TripID st) st (ix_byTrip ix),
                 ix_routesAtStop := mput parentID (mput route True (mgetd [] (ix_routesAtStop ix) parentID))
                                      (ix_routesAtStop ix)\<rparr>)"

definition index_stop_times ::
  "(string, Stop) gomap \<Rightarrow> trip_maps \<Rightarrow> ScheduledStopTime list \<Rightarrow> stop_indices" where
  "index_stop_times stops tm sts =
     foldl (stop_time_step stops tm) \<lparr>ix_byStop = [], ix_byTrip = [], ix_routesAtStop = []\<rparr> sts"

definition suffix_of :: "string \<Rightarrow> string option" where
  "suffix_of tripID =
     (case str_index CHR ''_'' tripID of
        Some idx \<Rightarrow> if idx < length tripID - 1 then Some (drop (idx + 1) tripID) else None
      | None \<Rightarrow> None)"

definition suffix_step :: "(string, string) gomap \<Rightarrow> string \<Rightarrow> (string, string) gomap" where
  "suffix_step m tripID =
     (case suffix_of tripID of
        None \<Rightarrow> m
      | Some suffix \<Rightarrow> if mget m suffix \<noteq> None then mput suffix [] m else mput suffix tripID m)"

definition suffix_index :: "string list \<Rightarrow> (string, string) gomap" where
  "suffix_index tripIDs = foldl suffix_step [] tripIDs"

definition transfer_step ::
  "(string, Stop) gomap \<Rightarrow> (string, Transfer list) gomap \<Rightarrow> Transfer \<Rightarrow> (string, Transfer list) gomap" where
  "transfer_step stops m tf =
     (if TransferType tf = 3 then m
      else let fromParent = parentStation (FromStopID tf) stops;
               toParent = parentStation (ToStopID tf) stops
           in mappend fromParent
                \<lparr>FromStopID = fromParent, ToStopID = toParent, TransferType = TransferType tf,
                 MinTransferTime = MinTransferTime tf\<rparr> m)"

definition index_transfers ::
  "(string, Stop) gomap \<Rightarrow> Transfer list \<Rightarrow> (string, Transfer list) gomap" where
  "index_transfers stops tfs = foldl (transfer_step stops) [] tfs"

definition sort_values :: "('v \<Rightarrow> int) \<Rightarrow> ('k, 'v list) gomap \<Rightarrow> ('k, 'v list) gomap" where
  "sort_values key m = map (\<lambda>(k, v). (k, sort_key key v)) m"

definition assemble ::
  "location \<Rightarrow> (string, Stop) gomap \<Rightarrow> (string, Route) gomap \<Rightarrow> (string, Trip) gomap
   \<Rightarrow> Transfer list \<Rightarrow> (string, bool) gomap \<Rightarrow> ScheduledStopTime list \<Rightarrow> TransitGraph" where
  "assemble loc stops routes trips transfers active allStopTimes =
     (let tm = trip_maps_of active trips;
          ix = index_stop_times stops tm allStopTimes
      in BuildHeadwayIndex
           \<lparr>Stops = stops, Routes = routes, TripRoute = tm_route tm, TripDirection = tm_dir tm,
            StopTimesByStop = sort_values DepartureSecs (ix_byStop ix),
            StopTimesByTrip = sort_values StopSequence (ix_byTrip ix),
            TransfersByStop = index_transfers stops transfers,
            RoutesAtStop = ix_routesAtStop ix, activeTrips = tm_active tm, headways = None,
            tripSuffix = suffix_index (map fst (ix_byTrip ix)), tz = Some loc\<rparr>)"

definition BuildGraph ::
  "(string \<Rightarrow> location option) \<Rightarrow> location \<Rightarrow> data_dir \<Rightarrow> int64 \<Rightarrow> graph_error + TransitGraph" where
  "BuildGraph loadLocation local dir date =
     (let loc = choose_location loadLocation local dir
      in case parseStops dir of Inl e \<Rightarrow> Inl (Err_wrap ''parse stops'' e) | Inr stops \<Rightarrow>
        (case parseRoutes dir of Inl e \<Rightarrow> Inl (Err_wrap ''parse routes'' e) | Inr routes \<Rightarrow>
        (case parseTrips dir of Inl e \<Rightarrow> Inl (Err_wrap ''parse trips'' e) | Inr trips \<Rightarrow>
        (case parseTransfers dir of Inl e \<Rightarrow> Inl (Err_wrap ''parse transfers'' e) | Inr transfers \<Rightarrow>
        (case activeServices dir (local_day loc date) of
           Inl e \<Rightarrow> Inl (Err_wrap ''active services'' e) | Inr active \<Rightarrow>
        (case parseStopTimes dir of
           Inl e \<Rightarrow> Inl (Err_wrap ''parse stop_times'' e) | Inr allStopTimes \<Rightarrow>
        Inr (assemble loc stops routes trips transfers active allStopTimes)))))))"

section \<open>The stop-time indices\<close>

lemma mgetd_mappend [simp]:
  "mgetd [] (mappend k x m) k' = (if k' = k then mgetd [] m k @ [x] else mgetd [] m k')"
  by (simp add: mappend_def)

lemma mget_mappend: "mget (mappend k x m) k' = (if k' = k then Some (mgetd [] m k @ [x]) else mget m k')"
  by (simp add: mappend_def)

lemma wf_map_mappend [simp]: "wf_map m \<Longrightarrow> wf_map (mappend k x m)"
  by (simp add: mappend_def)

lemma mgetd_sort_values [simp]: "mgetd [] (sort_values f m) k = sort_key f (mgetd [] m k)"
  by (induction m) (auto simp: mgetd_def sort_values_def)

lemma mget_sort_values: "mget (sort_values f m) k = map_option (sort_key f) (mget m k)"
  by (induction m) (auto simp: sort_values_def)

lemma keys_sort_values [simp]: "map fst (sort_values f m) = map fst m"
  by (induction m) (auto simp: sort_values_def)

lemma wf_map_sort_values [simp]: "wf_map (sort_values f m) = wf_map m"
  by (simp add: wf_map_def)

definition is_active :: "trip_maps \<Rightarrow> ScheduledStopTime \<Rightarrow> bool" where
  "is_active tm st \<longleftrightarrow> mgetd False (tm_active tm) (TripID st)"

lemma index_stop_times_eq:
  "mgetd [] (ix_byStop (index_stop_times stops tm sts)) s =
     filter (\<lambda>st. is_active tm st \<and> parentStation (StopID st) stops = s) sts"
  "mgetd [] (ix_byTrip (index_stop_times stops tm sts)) t =
     filter (\<lambda>st. is_active tm st \<and> TripID st = t) sts"
  "mget (ix_byTrip (index_stop_times stops tm sts)) t \<noteq> None \<longleftrightarrow>
     (\<exists>st\<in>set sts. is_active tm st \<and> TripID st = t)"
  "mgetd False (mgetd [] (ix_routesAtStop (index_stop_times stops tm sts)) s) r \<longleftrightarrow>
     (\<exists>st\<in>set sts. is_active tm st \<and> parentStation (StopID st) stops = s
        \<and> mgetd [] (tm_route tm) (TripID st) = r)"
  by (induction sts rule: rev_induct)
    (auto simp: index_stop_times_def stop_time_step_def Let_def is_active_def mget_mappend)

lemma wf_byTrip: "wf_map (ix_byTrip (index_stop_times stops tm sts))"
  by (induction sts rule: rev_induct)
    (auto simp: index_stop_times_def stop_time_step_def Let_def)

section \<open>The suffix index\<close>

lemma suffix_of_nonempty: "suffix_of t = Some s \<Longrightarrow> t \<noteq> [] \<and> s \<noteq> []"
  by (auto simp: suffix_of_def split: option.splits if_splits)

lemma suffix_index_eq:
  "mget (suffix_index ts) s =
     (case filter (\<lambda>t. suffix_of t = Some s) ts of [] \<Rightarrow> None | [t] \<Rightarrow> Some t | _ \<Rightarrow> Some [])"
proof (induction ts rule: rev_induct)
  case Nil
  then show ?case by (simp add: suffix_index_def)
next
  case (snoc t ts)
  have e: "suffix_index (ts @ [t]) = suffix_step (suffix_index ts) t"
    by (simp add: suffix_index_def)
  show ?case
  proof (cases "suffix_of t = Some s")
    case True
    obtain us where us: "filter (\<lambda>t. suffix_of t = Some s) ts = us" by simp
    then show ?thesis
      using snoc True by (cases us; cases "tl us") (auto simp: e suffix_step_def)
  next
    case False
    then show ?thesis
      using snoc by (auto simp: e suffix_step_def split: option.splits)
  qed
qed

section \<open>Transfers\<close>

lemma index_transfers_eq:
  "mgetd [] (index_transfers stops tfs) s =
     map (\<lambda>tf. tf\<lparr>FromStopID := s, ToStopID := parentStation (ToStopID tf) stops\<rparr>)
       (filter (\<lambda>tf. TransferType tf \<noteq> 3 \<and> parentStation (FromStopID tf) stops = s) tfs)"
  by (induction tfs rule: rev_induct) (auto simp: index_transfers_def transfer_step_def Let_def)

section \<open>Well-formed graphs\<close>

text \<open>What every later component relies on.\<close>

definition graph_wf :: "TransitGraph \<Rightarrow> bool" where
  "graph_wf g \<longleftrightarrow>
     sorted_by_stop g
     \<and> (\<forall>t. sorted (map StopSequence (mgetd [] (StopTimesByTrip g) t)))
     \<and> (\<forall>s. \<forall>st\<in>set (mgetd [] (StopTimesByStop g) s).
          mgetd False (activeTrips g) (TripID st) \<and> ParentStationID g (StopID st) = s
          \<and> st \<in> set (mgetd [] (StopTimesByTrip g) (TripID st))
          \<and> mgetd False (GetRoutesAtStop g (StopID st)) (mgetd [] (TripRoute g) (TripID st)))
     \<and> (\<forall>t. \<forall>st\<in>set (mgetd [] (StopTimesByTrip g) t).
          TripID st = t \<and> st \<in> set (mgetd [] (StopTimesByStop g) (ParentStationID g (StopID st))))
     \<and> (\<forall>s. \<forall>tf\<in>set (mgetd [] (TransfersByStop g) s). TransferType tf \<noteq> 3 \<and> FromStopID tf = s)
     \<and> (\<exists>hw. headways g = Some hw \<and> index_ok hw)"

lemma sorted_by_stop_sort_values:
  "StopTimesByStop g = sort_values DepartureSecs m \<Longrightarrow> sorted_by_stop g"
  by (auto simp: sorted_by_stop_def sort_values_def list_all_iff)

lemma BuildHeadwayIndex_Some: "\<exists>hw. headways (BuildHeadwayIndex g) = Some hw \<and> index_ok hw"
  using BuildHeadwayIndex_ok [of g] by (simp add: BuildHeadwayIndex_def)

lemma assemble_fields:
  fixes loc stops routes trips transfers active sts
  defines "g \<equiv> assemble loc stops routes trips transfers active sts"
    and "tm \<equiv> trip_maps_of active trips"
  shows "Stops g = stops" "TripRoute g = tm_route tm" "TripDirection g = tm_dir tm"
    "activeTrips g = tm_active tm" "tz g = Some loc"
    "mgetd [] (StopTimesByStop g) s =
       sort_key DepartureSecs (filter (\<lambda>st. is_active tm st \<and> parentStation (StopID st) stops = s) sts)"
    "mgetd [] (StopTimesByTrip g) t =
       sort_key StopSequence (filter (\<lambda>st. is_active tm st \<and> TripID st = t) sts)"
    "mget (StopTimesByTrip g) t \<noteq> None \<longleftrightarrow> (\<exists>st\<in>set sts. is_active tm st \<and> TripID st = t)"
    "mgetd False (mgetd [] (RoutesAtStop g) s) r \<longleftrightarrow>
       (\<exists>st\<in>set sts. is_active tm st \<and> parentStation (StopID st) stops = s
          \<and> mgetd [] (tm_route tm) (TripID st) = r)"
    "TransfersByStop g = index_transfers stops transfers"
    "tripSuffix g = suffix_index (map fst (StopTimesByTrip g))"
    "wf_map (StopTimesByTrip g)" "sorted_by_stop g"
    "\<exists>hw. headways g = Some hw \<and> index_ok hw"
  unfolding g_def tm_def
  by (simp_all only: assemble_def Let_def BuildHeadwayIndex_frame TransitGraph.select_convs
      mgetd_sort_values index_stop_times_eq keys_sort_values wf_map_sort_values wf_byTrip
      BuildHeadwayIndex_Some mget_sort_values option.map_disc_iff)
    (simp add: sorted_by_stop_sort_values)

lemma assemble_wf: "graph_wf (assemble loc stops routes trips transfers active sts)"
  unfolding graph_wf_def GetRoutesAtStop_def
  by (auto simp: assemble_fields ParentStationID_def index_transfers_eq is_active_def)

lemma BuildGraph_assemble:
  "BuildGraph ll local dir date = Inr g \<Longrightarrow>
   \<exists>stops routes trips transfers active sts.
     parseStopTimes dir = Inr sts \<and> parseTransfers dir = Inr transfers \<and>
     g = assemble (choose_location ll local dir) stops routes trips transfers active sts"
  by (auto simp: BuildGraph_def Let_def split: sum.splits)

lemma BuildGraph_wf: "BuildGraph ll local dir date = Inr g \<Longrightarrow> graph_wf g"
  by (auto dest!: BuildGraph_assemble simp: assemble_wf)

lemma graph_wfD:
  assumes "graph_wf g"
  shows "sorted_by_stop g"
    "st \<in> set (mgetd [] (StopTimesByStop g) s) \<Longrightarrow> st \<in> set (mgetd [] (StopTimesByTrip g) (TripID st))"
    "st \<in> set (mgetd [] (StopTimesByStop g) s) \<Longrightarrow> ParentStationID g (StopID st) = s"
    "st \<in> set (mgetd [] (StopTimesByTrip g) t) \<Longrightarrow> TripID st = t"
    "tf \<in> set (mgetd [] (TransfersByStop g) s) \<Longrightarrow> TransferType tf \<noteq> 3"
    "st \<in> set (mgetd [] (StopTimesByTrip g) t) \<Longrightarrow>
       st \<in> set (mgetd [] (StopTimesByStop g) (ParentStationID g (StopID st)))"
  using assms by (auto simp: graph_wf_def)

section \<open>Active trips\<close>

lemma trip_step_active:
  "mgetd False (tm_active (trip_step active m tr)) t \<longleftrightarrow>
     mgetd False (tm_active m) t \<or> tr_ID tr = t \<and> mgetd False active (tr_ServiceID tr)"
  by (simp add: trip_step_def Let_def)

lemma trip_maps_active:
  "mgetd False (tm_active (trip_maps_of active trips)) t \<longleftrightarrow>
     (\<exists>tr\<in>snd ` set trips. tr_ID tr = t \<and> mgetd False active (tr_ServiceID tr))"
proof -
  have "mgetd False (tm_active (foldl (trip_step active) \<lparr>tm_active = [], tm_route = [], tm_dir = []\<rparr> ts)) t
      \<longleftrightarrow> (\<exists>tr\<in>set ts. tr_ID tr = t \<and> mgetd False active (tr_ServiceID tr))" for ts
    by (induction ts rule: rev_induct) (auto simp: trip_step_active)
  then show ?thesis by (simp add: trip_maps_of_def)
qed

lemma filter_unique:
  assumes "distinct xs"
  shows "filter P xs = [x] \<longleftrightarrow> x \<in> set xs \<and> P x \<and> (\<forall>y\<in>set xs. P y \<longrightarrow> y = x)"
proof -
  have one: "ys = [x]" if "distinct ys" "set ys = {x}" for ys
    using that by (cases ys) (auto simp: subset_singleton_iff)
  have "filter P xs = [x] \<longleftrightarrow> set (filter P xs) = {x}"
    using one [of "filter P xs"] assms by (metis distinct_filter empty_set list.simps(15))
  then show ?thesis by auto
qed

section \<open>A small feed for the examples\<close>

definition hdr_file :: "string list \<Rightarrow> string list list \<Rightarrow> csv_file" where
  "hdr_file hdr rows = \<lparr>cf_Size = 1, cf_Reads = Rec hdr # map Rec rows\<rparr>"

definition demo_dir :: data_dir where
  "demo_dir =
     [(''stops.txt'', hdr_file [''stop_id'', ''stop_name'', ''parent_station'']
        [[''P'', ''First''], [''a'', '''', ''P''], [''Q'', ''Second''], [''b'', '''', ''Q'']]),
      (''routes.txt'', hdr_file routes_cols [[''A'', ''A'', ''Line A'', ''''], [''B'', ''B'', ''Line B'', '''']]),
      (''trips.txt'', hdr_file trips_cols
        [[''W_1'', ''A'', ''WKD'', ''1''], [''W_2'', ''A'', ''WKD'', ''1''], [''W_3'', ''B'', ''WKD'', ''0''],
         [''X_1'', ''A'', ''OFF'', ''1'']]),
      (''stop_times.txt'', hdr_file stop_times_cols
        [[''W_2'', ''a'', ''10:10:00'', ''10:10:30'', ''1''], [''W_1'', ''b'', ''10:05:00'', ''10:05:30'', ''2''],
         [''W_1'', ''a'', ''10:00:00'', ''10:00:30'', ''1''], [''W_3'', ''b'', ''24:20:00'', ''x'', ''1''],
         [''X_1'', ''a'', ''11:00:00'', ''11:00:00'', ''1''], [''W_2'', ''b'', ''10:15:00'', ''10:15:30'', ''2'']]),
      (''transfers.txt'', hdr_file transfers_cols [[''b'', ''b'', ''2'', ''180''], [''P'', ''Q'', ''3'', '''']]),
      (''calendar.txt'', hdr_file calendar_cols
        [[''WKD'', ''20240101'', ''20241231'', ''1'', ''1'', ''1'', ''1'', ''1'', ''0'', ''0'']])]"

definition demo_stop :: "string \<Rightarrow> string \<Rightarrow> string \<Rightarrow> string \<times> Stop" where
  "demo_stop i n p = (i, \<lparr>st_ID = i, st_Name = n, st_Lat = 0, st_Lon = 0, st_LocationType = 0, st_ParentStation = p\<rparr>)"

definition demo_stops :: "(string, Stop) gomap" where
  "demo_stops = [demo_stop ''P'' ''First'' '''', demo_stop ''a'' '''' ''P'',
     demo_stop ''Q'' ''Second'' '''', demo_stop ''b'' '''' ''Q'']"

definition demo_trip :: "string \<Rightarrow> string \<Rightarrow> string \<Rightarrow> int \<Rightarrow> string \<times> Trip" where
  "demo_trip i r s d = (i, \<lparr>tr_ID = i, tr_RouteID = r, tr_ServiceID = s, tr_DirectionID = d\<rparr>)"

definition demo_trips :: "(string, Trip) gomap" where
  "demo_trips = [demo_trip ''W_1'' ''A'' ''WKD'' 1, demo_trip ''W_2'' ''A'' ''WKD'' 1,
     demo_trip ''W_3'' ''B'' ''WKD'' 0, demo_trip ''X_1'' ''A'' ''OFF'' 1]"

definition demo_sst :: "string \<Rightarrow> string \<Rightarrow> int \<Rightarrow> int \<Rightarrow> int \<Rightarrow> ScheduledStopTime" where
  "demo_sst t s a d q = \<lparr>TripID = t, StopID = s, ArrivalSecs = a, DepartureSecs = d, StopSequence = q\<rparr>"

definition demo_stop_times :: "ScheduledStopTime list" where
  "demo_stop_times = [demo_sst ''W_2'' ''a'' 36600 36630 1, demo_sst ''W_1'' ''b'' 36300 36330 2,
     demo_sst ''W_1'' ''a'' 36000 36030 1, demo_sst ''W_3'' ''b'' 87600 87600 1, demo_sst ''X_1'' ''a'' 39600 39600 1,
     demo_sst ''W_2'' ''b'' 36900 36930 2]"

definition demo_transfers :: "Transfer list" where
  "demo_transfers =
     [\<lparr>FromStopID = ''b'', ToStopID = ''b'', TransferType = 2, MinTransferTime = 180\<rparr>,
      \<lparr>FromStopID = ''P'', ToStopID = ''Q'', TransferType = 3, MinTransferTime = 0\<rparr>]"

definition demo_build :: "graph_error + TransitGraph" where
  "demo_build = BuildGraph (\<lambda>_. None) (\<lambda>_. 0) demo_dir 1728000000"

definition demo_graph :: TransitGraph where
  "demo_graph = assemble (\<lambda>_. 0) demo_stops (case parseRoutes demo_dir of Inl _ \<Rightarrow> [] | Inr m \<Rightarrow> m)
     demo_trips demo_transfers [(''WKD'', True)] demo_stop_times"

definition is_Inr :: "'a + 'b \<Rightarrow> bool" where
  "is_Inr r = (case r of Inl _ \<Rightarrow> False | Inr _ \<Rightarrow> True)"

lemma demo_routes: "is_Inr (parseRoutes demo_dir)"
  by code_simp

lemma demo_parse:
  "parseStops demo_dir = Inr demo_stops"
  "parseTrips demo_dir = Inr demo_trips"
  "parseStopTimes demo_dir = Inr demo_stop_times"
  "parseTransfers demo_dir = Inr demo_transfers"
  "activeServices demo_dir 20000 = Inr [(''WKD'', True)]"
  by code_simp+

lemma demo_build_eq: "demo_build = Inr demo_graph"
proof -
  have "choose_location (\<lambda>_. None) (\<lambda>_. 0) demo_dir = (\<lambda>_. 0)"
    by (simp add: choose_location_def parseAgencyTZ_def split: sum.splits)
  moreover have "local_day (\<lambda>_. 0) 1728000000 = 20000" by (simp add: local_day_def)
  moreover obtain m where "parseRoutes demo_dir = Inr m"
    using demo_routes by (auto simp: is_Inr_def split: sum.splits)
  ultimately show ?thesis
    by (simp add: demo_build_def BuildGraph_def Let_def demo_parse demo_graph_def)
qed

lemma assemble_select:
  "StopTimesByStop (assemble loc stops routes trips transfers active sts) =
     sort_values DepartureSecs (ix_byStop (index_stop_times stops (trip_maps_of active trips) sts))"
  "StopTimesByTrip (assemble loc stops routes trips transfers active sts) =
     sort_values StopSequence (ix_byTrip (index_stop_times stops (trip_maps_of active trips) sts))"
  "TripRoute (assemble loc stops routes trips transfers active sts) = tm_route (trip_maps_of active trips)"
  "TripDirection (assemble loc stops routes trips transfers active sts) = tm_dir (trip_maps_of active trips)"
  "tripSuffix (assemble loc stops routes trips transfers active sts) =
     suffix_index (map fst (ix_byTrip (index_stop_times stops (trip_maps_of active trips) sts)))"
  "RoutesAtStop (assemble loc stops routes trips transfers active sts) =
     ix_routesAtStop (index_stop_times stops (trip_maps_of active trips) sts)"
  "TransfersByStop (assemble loc stops routes trips transfers active sts) = index_transfers stops transfers"
  "Stops (assemble loc stops routes trips transfers active sts) = stops"
  by (simp_all add: assemble_def Let_def)

lemma demo_maps:
  "tm_route (trip_maps_of [(''WKD'', True)] demo_trips) =
     [(''W_1'', ''A''), (''W_2'', ''A''), (''W_3'', ''B''), (''X_1'', ''A'')]"
  "tm_dir (trip_maps_of [(''WKD'', True)] demo_trips) =
     [(''W_1'', 1), (''W_2'', 1), (''W_3'', 0), (''X_1'', 1)]"
  "tm_active (trip_maps_of [(''WKD'', True)] demo_trips) = [(''W_1'', True), (''W_2'', True), (''W_3'', True)]"
  by code_simp+

lemma demo_indices:
  "index_stop_times demo_stops (trip_maps_of [(''WKD'', True)] demo_trips) demo_stop_times =
     \<lparr>ix_byStop = [(''P'', [demo_sst ''W_2'' ''a'' 36600 36630 1, demo_sst ''W_1'' ''a'' 36000 36030 1]),
                   (''Q'', [demo_sst ''W_1'' ''b'' 36300 36330 2, demo_sst ''W_3'' ''b'' 87600 87600 1,
                     demo_sst ''W_2'' ''b'' 36900 36930 2])],
      ix_byTrip = [(''W_2'', [demo_sst ''W_2'' ''a'' 36600 36630 1, demo_sst ''W_2'' ''b'' 36900 36930 2]),
                   (''W_1'', [demo_sst ''W_1'' ''b'' 36300 36330 2, demo_sst ''W_1'' ''a'' 36000 36030 1]),
                   (''W_3'', [demo_sst ''W_3'' ''b'' 87600 87600 1])],
      ix_routesAtStop = [(''P'', [(''A'', True)]), (''Q'', [(''A'', True), (''B'', True)])]\<rparr>"
  by (simp add: index_stop_times_def demo_stop_times_def stop_time_step_def demo_maps mgetd_def
      demo_sst_def parentStation_def demo_stops_def demo_stop_def mappend_def Let_def)

lemma demo_transfer_index:
  "index_transfers demo_stops demo_transfers =
     [(''Q'', [\<lparr>FromStopID = ''Q'', ToStopID = ''Q'', TransferType = 2, MinTransferTime = 180\<rparr>])]"
  by (simp add: index_transfers_def transfer_step_def demo_transfers_def Let_def parentStation_def
      demo_stops_def demo_stop_def mappend_def)

lemma demo_graph_facts:
  "StopTimesByStop demo_graph =
     [(''P'', [demo_sst ''W_1'' ''a'' 36000 36030 1, demo_sst ''W_2'' ''a'' 36600 36630 1]),
      (''Q'', [demo_sst ''W_1'' ''b'' 36300 36330 2, demo_sst ''W_2'' ''b'' 36900 36930 2,
        demo_sst ''W_3'' ''b'' 87600 87600 1])]"
  "StopTimesByTrip demo_graph =
     [(''W_2'', [demo_sst ''W_2'' ''a'' 36600 36630 1, demo_sst ''W_2'' ''b'' 36900 36930 2]),
      (''W_1'', [demo_sst ''W_1'' ''a'' 36000 36030 1, demo_sst ''W_1'' ''b'' 36300 36330 2]),
      (''W_3'', [demo_sst ''W_3'' ''b'' 87600 87600 1])]"
  "TripRoute demo_graph = [(''W_1'', ''A''), (''W_2'', ''A''), (''W_3'', ''B''), (''X_1'', ''A'')]"
  "TripDirection demo_graph = [(''W_1'', 1), (''W_2'', 1), (''W_3'', 0), (''X_1'', 1)]"
  "tripSuffix demo_graph = [(''2'', ''W_2''), (''1'', ''W_1''), (''3'', ''W_3'')]"
  "RoutesAtStop demo_graph = [(''P'', [(''A'', True)]), (''Q'', [(''A'', True), (''B'', True)])]"
  "Stops demo_graph = demo_stops"
  "TransfersByStop demo_graph =
     [(''Q'', [\<lparr>FromStopID = ''Q'', ToStopID = ''Q'', TransferType = 2, MinTransferTime = 180\<rparr>])]"
  by (simp_all add: demo_graph_def assemble_select demo_maps demo_indices sort_values_def demo_sst_def
      suffix_index_def suffix_step_def suffix_of_def demo_transfer_index)

end
