(* ===== verification/GraphProps.thy ===== *)
theory GraphProps
  imports BuildGraph
begin

text \<open>
  What the queries of \<open>internal/graph/graph.go\<close> return on a graph that \<open>BuildGraph\<close> built.
  The witnesses run on the small feed of \<open>BuildGraph\<close> (\<open>demo_dir\<close>).
\<close>

section \<open>Helper lemmas\<close>

lemma demo_wf: "graph_wf demo_graph"
  using BuildGraph_wf demo_build_eq by (auto simp: demo_build_def)

lemma BuildGraph_parts:
  assumes "BuildGraph ll local dir date = Inr g"
    and "parseStops dir = Inr stops" "parseTrips dir = Inr trips" "parseStopTimes dir = Inr sts"
    and "activeServices dir (local_day (choose_location ll local dir) date) = Inr act"
  obtains routes transfers where
    "g = assemble (choose_location ll local dir) stops routes trips transfers act sts"
  using assms by (auto simp: BuildGraph_def Let_def split: sum.splits)

lemma mset_filter_sort_key: "mset (sort_key f (filter P xs)) = filter_mset P (mset xs)"
  by simp

definition trip_runs :: "(string, Trip) gomap \<Rightarrow> (string, bool) gomap \<Rightarrow> string \<Rightarrow> bool" where
  "trip_runs trips act t \<longleftrightarrow> list_ex (\<lambda>(k, tr). tr_ID tr = t \<and> mgetd False act (tr_ServiceID tr)) trips"

lemma trip_runs_active:
  "is_active (trip_maps_of act trips) st \<longleftrightarrow> trip_runs trips act (TripID st)"
  by (force simp: is_active_def trip_maps_active trip_runs_def list_ex_iff)

text \<open>The parameters of the example feed.\<close>

lemma demo_location: "choose_location (\<lambda>_. None) (\<lambda>_. 0) demo_dir = (\<lambda>_. 0)"
  by (simp add: choose_location_def split: sum.splits)

lemma demo_day: "local_day (\<lambda>_. 0) 1728000000 = 20000"
  by (simp add: local_day_def)

lemma demo_built: "BuildGraph (\<lambda>_. None) (\<lambda>_. 0) demo_dir 1728000000 = Inr demo_graph"
  using demo_build_eq by (simp add: demo_build_def)

lemma built_sorted: "BuildGraph ll local dir date = Inr g \<Longrightarrow> sorted_by_stop g"
  using BuildGraph_wf graph_wfD(1) by blast

section \<open>The indices\<close>

text \<open>C12: every graph that \<open>BuildGraph\<close> returns is well formed: departures at a stop ascend, stops of
  a trip ascend by sequence, the two indices hold the same rows under the right station and trip,
  only active trips are indexed, each indexed trip's route is listed at its stations, forbidden
  transfers are dropped and the headway index is within its bounds.\<close>

theorem built_graph_wf:
  assumes "BuildGraph loadLocation local dir date = Inr g"
  shows "graph_wf g"
  using assms by (rule BuildGraph_wf)

theorem built_graph_wf_witness:
  "BuildGraph (\<lambda>_. None) (\<lambda>_. 0) demo_dir 1728000000 = Inr demo_graph \<and> graph_wf demo_graph"
  using demo_built built_graph_wf [OF demo_built] by blast

text \<open>C13: the indices hold exactly the rows of \<open>stop_times.txt\<close> whose trip runs on the service day:
  per parent station sorted by departure, per trip sorted by stop sequence, with no row lost or
  duplicated.\<close>

theorem built_graph_indexes_running_trips:
  assumes "BuildGraph loadLocation local dir date = Inr g"
    and "parseStops dir = Inr stops" and "parseTrips dir = Inr trips"
    and "parseStopTimes dir = Inr sts"
    and "activeServices dir (local_day (choose_location loadLocation local dir) date) = Inr act"
  shows "mset (mgetd [] (StopTimesByStop g) s) =
           {#st \<in># mset sts. trip_runs trips act (TripID st) \<and> parentStation (StopID st) stops = s#}
       \<and> sorted (map DepartureSecs (mgetd [] (StopTimesByStop g) s))
       \<and> mset (mgetd [] (StopTimesByTrip g) t) =
           {#st \<in># mset sts. trip_runs trips act (TripID st) \<and> TripID st = t#}
       \<and> sorted (map StopSequence (mgetd [] (StopTimesByTrip g) t))"
proof -
  obtain routes transfers where
    g: "g = assemble (choose_location loadLocation local dir) stops routes trips transfers act sts"
    using assms by (rule BuildGraph_parts)
  show ?thesis
    unfolding g assemble_fields by (simp add: trip_runs_active)
qed

theorem built_graph_indexes_running_trips_witness:
  "mset (mgetd [] (StopTimesByStop demo_graph) ''P'') =
     {#st \<in># mset demo_stop_times. trip_runs demo_trips [(''WKD'', True)] (TripID st)
        \<and> parentStation (StopID st) demo_stops = ''P''#}
   \<and> map DepartureSecs (mgetd [] (StopTimesByStop demo_graph) ''P'') = [36030, 36630]"
proof -
  have a: "activeServices demo_dir (local_day (choose_location (\<lambda>_. None) (\<lambda>_. 0) demo_dir) 1728000000)
      = Inr [(''WKD'', True)]"
    by (simp add: demo_location demo_day demo_parse)
  show ?thesis
    using built_graph_indexes_running_trips [OF demo_built demo_parse(1) demo_parse(2) demo_parse(3) a, of "''P''"]
    by (simp add: demo_graph_facts demo_sst_def mgetd_def)
qed

section \<open>Departures\<close>

text \<open>C20: on a built graph the binary search and the bounded scan of \<open>GetNextDepartures\<close> return
  the first \<open>n\<close> departures of the route at the stop's station at or after the given time, in
  departure order; none is skipped.\<close>

theorem next_departures_are_first_n:
  assumes "BuildGraph loadLocation local dir date = Inr g"
  shows "GetNextDepartures g s r a n =
           take (nat n) (filter (\<lambda>st. a \<le> DepartureSecs st \<and> mgetd [] (TripRoute g) (TripID st) = r)
             (mgetd [] (StopTimesByStop g) (ParentStationID g s)))
       \<and> sorted (map DepartureSecs (GetNextDepartures g s r a n))"
  using GetNextDepartures_eq [OF built_sorted [OF assms], of s r a n]
    departures_spec_sorted [OF built_sorted [OF assms], of s r a]
  by (simp add: departures_spec_def sorted_wrt_take flip: take_map)

theorem next_departures_are_first_n_witness:
  "map TripID (GetNextDepartures demo_graph ''a'' ''A'' 36030 1) = [''W_1'']
   \<and> map TripID (GetNextDepartures demo_graph ''a'' ''A'' 36031 5) = [''W_2'']
   \<and> GetNextDepartures demo_graph ''P'' ''B'' 0 5 = []"
  using next_departures_are_first_n [OF demo_built, of "''a''" "''A''" 36030 1]
    next_departures_are_first_n [OF demo_built, of "''a''" "''A''" 36031 5]
    next_departures_are_first_n [OF demo_built, of "''P''" "''B''" 0 5]
  by (simp add: demo_graph_facts demo_sst_def mgetd_def ParentStationID_def parentStation_def
      demo_stops_def demo_stop_def)

lemma take_first_wait:
  assumes "sorted_by_stop g" "0 < n" "st \<in> set (mgetd [] (StopTimesByStop g) (ParentStationID g s))"
    and "mgetd [] (TripRoute g) (TripID st) = r" "f \<le> DepartureSecs st"
  shows "GetNextDepartures g s r f n \<noteq> []"
    "DepartureSecs (hd (GetNextDepartures g s r f n)) \<le> DepartureSecs st"
  by (rule next_departure_first [OF assms(1)]; use assms in \<open>simp add: departures_spec_def\<close>)+

lemma first_at_or_after:
  "sorted_by_stop g \<Longrightarrow> GetNextDepartures g s r f n \<noteq> [] \<Longrightarrow>
   f \<le> DepartureSecs (hd (GetNextDepartures g s r f n))"
  using next_departure_mem(1) hd_in_set by blast

text \<open>\<open>NextDeparturesAfter\<close> answers with the departures of one of the two service-day frames
  (today's, or before 04:00 also yesterday's day extended past 24:00), and the first of them has the
  shortest wait of all departures of the route at the station in both frames.\<close>

theorem next_departures_after_shortest_wait:
  assumes "BuildGraph loadLocation local dir date = Inr g" and "0 < n"
    and "NextDeparturesAfter g s r tod n = (deps, frame)"
    and "st \<in> set (mgetd [] (StopTimesByStop g) (ParentStationID g s))"
    and "mgetd [] (TripRoute g) (TripID st) = r"
    and "f = tod \<or> tod < overnightWindowSecs \<and> f = tod + 86400" and "f \<le> DepartureSecs st"
  shows "deps = GetNextDepartures g s r frame n \<and> deps \<noteq> []
       \<and> (frame = tod \<or> tod < overnightWindowSecs \<and> frame = tod + 86400)
       \<and> 0 \<le> DepartureSecs (hd deps) - frame
       \<and> DepartureSecs (hd deps) - frame \<le> DepartureSecs st - f"
proof -
  have s: "sorted_by_stop g" by (rule built_sorted [OF assms(1)])
  note first = take_first_wait [OF s assms(2,4,5,7)]
  define today late where "today = GetNextDepartures g s r tod n"
    and "late = GetNextDepartures g s r (tod + 86400) n"
  have "NextDeparturesAfter g s r tod n = (if tod < overnightWindowSecs \<and> late \<noteq> [] \<and> (today = [] \<or>
      DepartureSecs (hd late) - (tod + 86400) < DepartureSecs (hd today) - tod)
      then (late, tod + 86400) else (today, tod))"
    by (simp add: NextDeparturesAfter_def Let_def flip: today_def late_def)
  moreover have "today \<noteq> [] \<Longrightarrow> tod \<le> DepartureSecs (hd today)"
    "late \<noteq> [] \<Longrightarrow> tod + 86400 \<le> DepartureSecs (hd late)"
    unfolding today_def late_def by (rule first_at_or_after [OF s]; assumption)+
  ultimately show ?thesis
    using first assms(3,6) by (auto simp flip: today_def late_def split: if_splits)
qed

lemma demo_route_B: "NextDeparturesAfter demo_graph ''b'' ''B'' 600 2 =
    ([demo_sst ''W_3'' ''b'' 87600 87600 1], 87000)"
  by (simp add: NextDeparturesAfter_def Let_def overnightWindowSecs_def
      GetNextDepartures_eq [OF built_sorted [OF demo_built]] departures_spec_def
      demo_graph_facts demo_sst_def mgetd_def ParentStationID_def parentStation_def
      demo_stops_def demo_stop_def)

theorem next_departures_after_shortest_wait_witness:
  "NextDeparturesAfter demo_graph ''b'' ''B'' 600 2 = ([demo_sst ''W_3'' ''b'' 87600 87600 1], 87000)
   \<and> 87600 - 87000 \<le> (87600 - 600 :: int)"
  using next_departures_after_shortest_wait [OF demo_built _ demo_route_B,
      of "demo_sst ''W_3'' ''b'' 87600 87600 1" 600] demo_route_B
  by (simp add: demo_graph_facts demo_sst_def mgetd_def ParentStationID_def parentStation_def
      demo_stops_def demo_stop_def)

section \<open>Trip resolution\<close>

lemma keys_StopTimesByTrip:
  "BuildGraph ll local dir date = Inr g \<Longrightarrow>
   tripSuffix g = suffix_index (map fst (StopTimesByTrip g)) \<and> wf_map (StopTimesByTrip g)"
  by (auto dest!: BuildGraph_assemble simp: assemble_fields)

text \<open>A realtime trip ID resolves to itself when it is a scheduled trip, otherwise to the only
  scheduled trip whose part after the first underscore it is; an ID that is empty, unknown, or the
  suffix of two scheduled trips does not resolve.\<close>

theorem resolve_trip_id_unambiguous:
  assumes "BuildGraph loadLocation local dir date = Inr g"
  shows "ResolveTripID g rt = (t, True) \<longleftrightarrow>
           rt \<noteq> [] \<and>
           (if rt \<in> fst ` set (StopTimesByTrip g) then t = rt
            else t \<in> fst ` set (StopTimesByTrip g) \<and> suffix_of t = Some rt
                 \<and> (\<forall>u\<in>fst ` set (StopTimesByTrip g). suffix_of u = Some rt \<longrightarrow> u = t))"
proof -
  define ts where "ts = map fst (StopTimesByTrip g)"
  have k: "tripSuffix g = suffix_index ts" "distinct ts"
    using keys_StopTimesByTrip [OF assms] by (auto simp: ts_def wf_map_def)
  have m: "mget (StopTimesByTrip g) rt = None \<longleftrightarrow> rt \<notin> set ts"
    by (simp add: ts_def map_of_eq_None_iff)
  have f: "filter (\<lambda>t. suffix_of t = Some rt) ts = [t] \<longleftrightarrow>
      t \<in> set ts \<and> suffix_of t = Some rt \<and> (\<forall>u\<in>set ts. suffix_of u = Some rt \<longrightarrow> u = t)"
    using filter_unique [OF k(2), of "\<lambda>t. suffix_of t = Some rt" t] by blast
  have ne: "filter (\<lambda>t. suffix_of t = Some rt) ts \<noteq> [[]]"
  proof
    assume "filter (\<lambda>t. suffix_of t = Some rt) ts = [[]]"
    then have "[] \<in> set (filter (\<lambda>t. suffix_of t = Some rt) ts)" by simp
    then show False using suffix_of_nonempty by auto
  qed
  show ?thesis
  proof (cases "rt = [] \<or> rt \<in> set ts")
    case True
    then show ?thesis by (auto simp: ResolveTripID_def m simp flip: ts_def set_map)
  next
    case False
    then have "ResolveTripID g rt = (t, True) \<longleftrightarrow> filter (\<lambda>t. suffix_of t = Some rt) ts = [t]"
      using m ne by (auto simp: ResolveTripID_def k suffix_index_eq split: list.splits option.splits)
    with False f show ?thesis by (simp flip: ts_def set_map)
  qed
qed

theorem resolve_trip_id_unambiguous_witness:
  "ResolveTripID demo_graph ''2'' = (''W_2'', True) \<and> ResolveTripID demo_graph ''W_1'' = (''W_1'', True)"
  using resolve_trip_id_unambiguous [OF demo_built, of "''2''" "''W_2''"]
    resolve_trip_id_unambiguous [OF demo_built, of "''W_1''" "''W_1''"]
  by (simp add: demo_graph_facts suffix_of_def)

text \<open>The scheduled stop time of a realtime stop is a row of the resolved trip at the stop's
  station, the row of the very platform when the trip serves it; there is none exactly when the trip
  does not resolve or does not call at the station.\<close>

theorem scheduled_stop_time_same_station:
  assumes "BuildGraph loadLocation local dir date = Inr g"
    and "ResolveTripID g tripID = (t, True)"
  shows "case GetScheduledStopTime g tripID s of
           None \<Rightarrow> (\<forall>st\<in>set (mgetd [] (StopTimesByTrip g) t). ParentStationID g (StopID st) \<noteq> ParentStationID g s)
         | Some st \<Rightarrow> st \<in> set (mgetd [] (StopTimesByTrip g) t) \<and> TripID st = t
             \<and> ParentStationID g (StopID st) = ParentStationID g s
             \<and> ((\<exists>x\<in>set (mgetd [] (StopTimesByTrip g) t). StopID x = s) \<longrightarrow> StopID st = s)"
proof -
  have id: "st \<in> set (mgetd [] (StopTimesByTrip g) t) \<Longrightarrow> TripID st = t" for st
    using graph_wfD(4) [OF BuildGraph_wf [OF assms(1)]] .
  show ?thesis
    using assms(2) id
    by (auto simp: GetScheduledStopTime_def Let_def ParentStationID_def find_None_iff find_Some_iff
        split: option.splits)
qed

theorem scheduled_stop_time_same_station_witness:
  "GetScheduledStopTime demo_graph ''1'' ''Q'' = Some (demo_sst ''W_1'' ''b'' 36300 36330 2)"
proof -
  have r: "ResolveTripID demo_graph ''1'' = (''W_1'', True)"
    by (simp add: ResolveTripID_def demo_graph_facts)
  show ?thesis
    using scheduled_stop_time_same_station [OF demo_built r, of "''Q''"]
    by (auto simp: demo_graph_facts demo_sst_def mgetd_def ParentStationID_def parentStation_def
        demo_stops_def demo_stop_def split: option.splits)
qed

section \<open>Downstream stops\<close>

lemma downstream_of_trip_Some:
  "downstream_of_trip g p xs = Some rest \<longleftrightarrow>
     (\<exists>pre x. xs = pre @ x # rest \<and> rest \<noteq> [] \<and> parentStation (StopID x) (Stops g) = p
        \<and> (\<forall>y\<in>set pre. parentStation (StopID y) (Stops g) \<noteq> p))"
proof (induction xs)
  case Nil
  then show ?case by simp
next
  case (Cons a xs)
  show ?case
  proof (cases "parentStation (StopID a) (Stops g) = p \<and> xs \<noteq> []")
    case True
    then show ?thesis by (auto simp: Cons_eq_append_conv)
  next
    case False
    with Cons show ?thesis by (auto simp: Cons_eq_append_conv)
  qed
qed

definition serves :: "TransitGraph \<Rightarrow> string \<Rightarrow> int \<Rightarrow> ScheduledStopTime \<Rightarrow> bool" where
  "serves g r d st \<longleftrightarrow>
     mgetd [] (TripRoute g) (TripID st) = r \<and> mgetd 0 (TripDirection g) (TripID st) = d"

lemma downstream_loop_nonempty:
  "downstream_loop g r p d sts = rest \<Longrightarrow> rest \<noteq> [] \<Longrightarrow>
   \<exists>st\<in>set sts. serves g r d st
     \<and> downstream_of_trip g p (mgetd [] (StopTimesByTrip g) (TripID st)) = Some rest"
  by (induction sts) (auto simp: serves_def split: if_splits option.splits)

lemma downstream_loop_empty:
  "downstream_loop g r p d sts = [] \<Longrightarrow> st \<in> set sts \<Longrightarrow> serves g r d st \<Longrightarrow>
   downstream_of_trip g p (mgetd [] (StopTimesByTrip g) (TripID st)) = None"
proof (induction sts)
  case (Cons a sts)
  then show ?case
    by (auto simp: serves_def downstream_of_trip_Some split: if_splits option.splits)
qed simp

text \<open>\<open>GetDownstreamStops\<close> returns the rest of the journey, in stop order, of a trip of that route
  and direction after its first call at the station; it returns nothing exactly when no such trip has
  a stop after the station.\<close>

theorem downstream_stops_rest_of_trip:
  assumes "BuildGraph loadLocation local dir date = Inr g"
    and "GetDownstreamStops g r s d = rest"
  shows "(rest \<noteq> [] \<longrightarrow>
            (\<exists>t pre x. mgetd [] (StopTimesByTrip g) t = pre @ x # rest
               \<and> mgetd [] (TripRoute g) t = r \<and> mgetd 0 (TripDirection g) t = d
               \<and> ParentStationID g (StopID x) = ParentStationID g s
               \<and> (\<forall>y\<in>set pre. ParentStationID g (StopID y) \<noteq> ParentStationID g s)))
       \<and> (rest = [] \<longrightarrow>
            (\<forall>t pre x y post. mgetd [] (StopTimesByTrip g) t = pre @ x # y # post
               \<and> mgetd [] (TripRoute g) t = r \<and> mgetd 0 (TripDirection g) t = d
               \<longrightarrow> ParentStationID g (StopID x) \<noteq> ParentStationID g s))"
proof (intro conjI impI allI)
  let ?p = "ParentStationID g s"
  have loop: "downstream_loop g r ?p d (mgetd [] (StopTimesByStop g) ?p) = rest"
    using assms(2) by (simp add: GetDownstreamStops_def ParentStationID_def Let_def)
  show "\<exists>t pre x. mgetd [] (StopTimesByTrip g) t = pre @ x # rest
      \<and> mgetd [] (TripRoute g) t = r \<and> mgetd 0 (TripDirection g) t = d
      \<and> ParentStationID g (StopID x) = ?p \<and> (\<forall>y\<in>set pre. ParentStationID g (StopID y) \<noteq> ?p)"
    if "rest \<noteq> []"
    using downstream_loop_nonempty [OF loop that]
    by (auto simp: downstream_of_trip_Some serves_def ParentStationID_def)
  fix t pre x y post
  assume "rest = []" and t: "mgetd [] (StopTimesByTrip g) t = pre @ x # y # post
      \<and> mgetd [] (TripRoute g) t = r \<and> mgetd 0 (TripDirection g) t = d"
  show "ParentStationID g (StopID x) \<noteq> ?p"
  proof
    assume p: "ParentStationID g (StopID x) = ?p"
    have x: "x \<in> set (mgetd [] (StopTimesByTrip g) t)" using t by simp
    then have xt: "TripID x = t" "x \<in> set (mgetd [] (StopTimesByStop g) ?p)"
      using graph_wfD(4,6) [OF BuildGraph_wf [OF assms(1)] x] p by simp_all
    then have "downstream_of_trip g ?p (pre @ x # y # post) = None"
      using downstream_loop_empty [of g r ?p d _ x, OF _ xt(2)] loop \<open>rest = []\<close> t xt(1)
      by (simp add: serves_def)
    moreover have "\<exists>rest. downstream_of_trip g ?p (us @ x # y # post) = Some rest" for us
      using p by (induction us) (auto simp: ParentStationID_def)
    ultimately show False by (metis option.distinct(1))
  qed
qed

theorem downstream_stops_rest_of_trip_witness:
  "GetDownstreamStops demo_graph ''A'' ''a'' 1 = [demo_sst ''W_1'' ''b'' 36300 36330 2]
   \<and> (\<exists>t pre x. mgetd [] (StopTimesByTrip demo_graph) t = pre @ [x, demo_sst ''W_1'' ''b'' 36300 36330 2]
        \<and> mgetd [] (TripRoute demo_graph) t = ''A'')"
proof -
  have "GetDownstreamStops demo_graph ''A'' ''a'' 1 = [demo_sst ''W_1'' ''b'' 36300 36330 2]"
    by (simp add: GetDownstreamStops_def Let_def demo_graph_facts demo_sst_def mgetd_def
        parentStation_def demo_stops_def demo_stop_def)
  with downstream_stops_rest_of_trip [OF demo_built this] show ?thesis by auto
qed

section \<open>Headways\<close>

text \<open>A scheduled headway that the graph answers is at least one second and at most
  \<open>maxHeadwayGapSecs\<close> (three hours).\<close>

theorem scheduled_headway_bounds:
  assumes "BuildGraph loadLocation local dir date = Inr g"
    and "GetScheduledHeadway (Some g) r d s secs = (h, True)"
  shows "1 \<le> h \<and> h \<le> 10800"
proof -
  obtain hw where "headways g = Some hw" "index_ok hw"
    using BuildGraph_wf [OF assms(1)] by (auto simp: graph_wf_def)
  then show ?thesis
    using GetScheduledHeadway_ok assms(2) by (auto simp: headway_ok_def)
qed

lemma headways_self:
  "headways (BuildHeadwayIndex g) =
     Some (foldl (station_headways (BuildHeadwayIndex g)) [] (StopTimesByStop (BuildHeadwayIndex g)))"
proof -
  have "group_deps (BuildHeadwayIndex g) = group_deps g"
    by (simp add: group_deps_def fun_eq_iff cong: option.case_cong)
  then have "station_headways (BuildHeadwayIndex g) = station_headways g"
    by (simp add: station_headways_def fun_eq_iff)
  then show ?thesis by (simp add: BuildHeadwayIndex_def)
qed

lemma demo_itoa: "itoa 0 = ''0''" "itoa 1 = ''1''" "itoa 10 = ''10''"
  by code_simp+

lemma demo_headways: "headways demo_graph = Some [(''A:1:P:10'', 600), (''A:1:Q:10'', 600)]"
proof -
  have "headways demo_graph =
      Some (foldl (station_headways demo_graph) [] (StopTimesByStop demo_graph))"
    unfolding demo_graph_def assemble_def Let_def by (rule headways_self)
  moreover have "group_deps demo_graph [demo_sst ''W_1'' ''a'' 36000 36030 1, demo_sst ''W_2'' ''a'' 36600 36630 1]
      = [(''A:1'', [36030, 36630])]"
    "group_deps demo_graph [demo_sst ''W_1'' ''b'' 36300 36330 2, demo_sst ''W_2'' ''b'' 36900 36930 2,
        demo_sst ''W_3'' ''b'' 87600 87600 1]
      = [(''A:1'', [36330, 36930]), (''B:0'', [87600])]"
    by (simp_all add: group_deps_def demo_graph_facts demo_sst_def route_dir_key_def Let_def
        mgetd_def demo_itoa)
  ultimately show ?thesis
    by (simp add: demo_graph_facts station_headways_def put_headways_def Let_def tdiv_def demo_itoa
        maxHeadwayGapSecs_def maxHeadwayHour_def mgetd_def median_def i_to_f64_i32 in_i32_def)
qed

lemma demo_headway: "GetScheduledHeadway (Some demo_graph) ''A'' 1 ''a'' 36030 = (600, True)"
  by (simp add: GetScheduledHeadway_def demo_headways Let_def tdiv_def maxHeadwayHour_def
      headwayKey_def demo_itoa parentStation_def demo_graph_facts
      demo_stops_def demo_stop_def)

theorem scheduled_headway_bounds_witness:
  "GetScheduledHeadway (Some demo_graph) ''A'' 1 ''a'' 36030 = (600, True) \<and> 600 \<le> (10800 :: float64)"
  using scheduled_headway_bounds [OF demo_built demo_headway] demo_headway by simp

end
