(* ===== verification/Enrich.thy ===== *)
theory Enrich
  imports GraphProps Differ
begin

text \<open>
  \<open>cmd/processor/enrich.go\<close>: a time-only event gets its delay from the static schedule. The event
  pointer is a record in, a record out; \<open>local\<close> and \<open>now\<close> are the process-local zone and the clock
  reading that \<open>SecsSinceMidnight\<close> falls back to.
\<close>

section \<open>Definitions\<close>

definition enrichable :: "DelayEvent \<Rightarrow> bool" where
  "enrichable ev \<longleftrightarrow>
     \<not> (ev_DelaySeconds ev \<noteq> 0 \<or> ev_PredictedArrival ev = 0 \<or> ev_ScheduledArrival ev \<noteq> 0)
     \<and> \<not> (ev_Type ev \<noteq> ARRIVAL_DELAY \<and> ev_Type ev \<noteq> DEPARTURE_DELAY)"

definition scheduled_secs :: "DelayEvent \<Rightarrow> ScheduledStopTime \<Rightarrow> int" where
  "scheduled_secs ev st =
     (let schedSecs = (if ev_Type ev = DEPARTURE_DELAY then DepartureSecs st else ArrivalSecs st)
      in if schedSecs = 0
         then (if ArrivalSecs st = 0 then DepartureSecs st else ArrivalSecs st)
         else schedSecs)"

definition best_candidate :: "int64 \<Rightarrow> int64" where
  "best_candidate raw =
     foldl (\<lambda>best cand. if abs64 cand < abs64 best then cand else best) raw
       [i64 (raw - 86400), i64 (raw + 86400)]"

definition enrichEvent :: "location \<Rightarrow> int64 \<Rightarrow> TransitGraph \<Rightarrow> DelayEvent \<Rightarrow> DelayEvent \<times> bool" where
  "enrichEvent local now g ev =
     (if \<not> enrichable ev then (ev, False)
      else (case GetScheduledStopTime g (ev_TripId ev) (ev_StopId ev) of
              None \<Rightarrow> (ev, False)
            | Some st \<Rightarrow>
                let schedSecs = scheduled_secs ev st
                in if schedSecs = 0 then (ev, False)
                   else
                     let predTod = SecsSinceMidnight local now (Some g) (ev_PredictedArrival ev);
                         raw = i64 (predTod - schedSecs);
                         best = best_candidate raw
                     in (ev\<lparr>ev_DelaySeconds := i32 best,
                           ev_ScheduledArrival := i64 (ev_PredictedArrival ev - best)\<rparr>, True)))"

section \<open>The candidate\<close>

lemma best_candidate_eq:
  assumes "\<bar>raw\<bar> \<le> 4611686018427387904"
  shows "best_candidate raw \<in> {raw, raw - 86400, raw + 86400}
       \<and> \<bar>best_candidate raw\<bar> \<le> \<bar>raw\<bar> \<and> \<bar>best_candidate raw\<bar> \<le> \<bar>raw - 86400\<bar>
       \<and> \<bar>best_candidate raw\<bar> \<le> \<bar>raw + 86400\<bar>"
proof -
  have "i64 (raw - 86400) = raw - 86400" "i64 (raw + 86400) = raw + 86400"
    using assms by (auto simp: i64_id in_i64_def abs_le_iff)
  moreover have "abs64 x = \<bar>x\<bar>" if "\<bar>x\<bar> \<le> 4611686018427474304" for x
    using that by (intro abs64_abs) (auto simp: in_i64_def abs_le_iff)
  then have "abs64 raw = \<bar>raw\<bar>" "abs64 (raw - 86400) = \<bar>raw - 86400\<bar>" "abs64 (raw + 86400) = \<bar>raw + 86400\<bar>"
    using assms by (simp_all add: abs_le_iff)
  ultimately show ?thesis by (auto simp: best_candidate_def)
qed

lemma best_candidate_half_day:
  assumes "- 129600 \<le> raw" "raw \<le> 129600"
  shows "\<bar>best_candidate raw\<bar> \<le> 43200"
proof -
  have "\<bar>raw\<bar> \<le> 4611686018427387904" using assms by (simp add: abs_le_iff)
  from best_candidate_eq [OF this] assms show ?thesis by linarith
qed

section \<open>Property\<close>

text \<open>C26: enrichment changes an event exactly when it carries only a predicted time, is an arrival or
  departure, and the schedule knows the stop of the trip; the delay it then sets is the prediction's
  time of day minus the schedule's, modulo whole days, of smallest magnitude (at most half a day for
  schedule times up to 36:00), and the scheduled arrival is the prediction minus the delay. Otherwise
  the event passes unchanged.\<close>

theorem enrich_sets_shortest_delay:
  assumes "enrichEvent local now g ev = (ev', enriched)"
    and "\<forall>st. GetScheduledStopTime g (ev_TripId ev) (ev_StopId ev) = Some st \<longrightarrow>
           0 \<le> scheduled_secs ev st \<and> scheduled_secs ev st \<le> 129600"
    and "0 < ev_PredictedArrival ev" and "ev_PredictedArrival ev \<le> 9223372036854732607"
  shows "(enriched \<longleftrightarrow> enrichable ev
            \<and> (\<exists>st. GetScheduledStopTime g (ev_TripId ev) (ev_StopId ev) = Some st \<and> scheduled_secs ev st \<noteq> 0))
       \<and> (\<not> enriched \<longrightarrow> ev' = ev)
       \<and> (enriched \<longrightarrow> (\<exists>st days.
            GetScheduledStopTime g (ev_TripId ev) (ev_StopId ev) = Some st
            \<and> ev_DelaySeconds ev' = SecsSinceMidnight local now (Some g) (ev_PredictedArrival ev)
                - scheduled_secs ev st + 86400 * days
            \<and> \<bar>ev_DelaySeconds ev'\<bar> \<le> 43200
            \<and> ev_ScheduledArrival ev' + ev_DelaySeconds ev' = ev_PredictedArrival ev))"
proof (cases "enrichable ev \<and> (\<exists>st. GetScheduledStopTime g (ev_TripId ev) (ev_StopId ev) = Some st
    \<and> scheduled_secs ev st \<noteq> 0)")
  case False
  then have "ev' = ev \<and> \<not> enriched"
    using assms(1) by (auto simp: enrichEvent_def Let_def split: option.splits if_splits)
  with False show ?thesis by simp
next
  case True
  then obtain st where st: "GetScheduledStopTime g (ev_TripId ev) (ev_StopId ev) = Some st"
    "scheduled_secs ev st \<noteq> 0" by blast
  define tod where "tod = SecsSinceMidnight local now (Some g) (ev_PredictedArrival ev)"
  define raw where "raw = tod - scheduled_secs ev st"
  have s: "0 \<le> scheduled_secs ev st" "scheduled_secs ev st \<le> 129600" using assms(2) st(1) by blast+
  have tod: "0 \<le> tod" "tod < 86400" using SecsSinceMidnight_range by (simp_all add: tod_def)
  have raw: "- 129600 \<le> raw" "raw \<le> 129600" using s tod by (simp_all add: raw_def)
  then have r64: "i64 raw = raw" by (simp add: i64_id in_i64_def)
  define b where "b = best_candidate raw"
  have b: "\<bar>b\<bar> \<le> 43200" using best_candidate_half_day [OF raw] by (simp add: b_def)
  have "\<bar>raw\<bar> \<le> 4611686018427387904" using raw by (simp add: abs_le_iff)
  then have "b \<in> {raw, raw - 86400, raw + 86400}" using best_candidate_eq by (simp add: b_def)
  then obtain days where days: "b = raw + 86400 * days"
    by (auto intro: that [of 0] that [of "- 1"] that [of 1])
  have ev': "enriched" "ev' = ev\<lparr>ev_DelaySeconds := i32 b, ev_ScheduledArrival := i64 (ev_PredictedArrival ev - b)\<rparr>"
    using assms(1) True st by (simp_all add: enrichEvent_def Let_def r64 b_def flip: tod_def raw_def)
  have i: "i32 b = b" using b by (intro i32_id) (simp add: in_i32_def abs_le_iff)
  have j: "i64 (ev_PredictedArrival ev - b) = ev_PredictedArrival ev - b"
    using b assms(3,4) by (intro i64_id) (simp add: in_i64_def abs_le_iff)
  have f: "ev_DelaySeconds ev' = b" "ev_ScheduledArrival ev' + b = ev_PredictedArrival ev"
    by (simp_all add: ev' i j)
  have d: "b = SecsSinceMidnight local now (Some g) (ev_PredictedArrival ev) - scheduled_secs ev st + 86400 * days"
    using days by (simp add: raw_def tod_def)
  show ?thesis
    using True ev'(1) st(1) b d unfolding f(1) using f(2) by blast
qed

text \<open>Five minutes late at the platform of the second stop.\<close>

definition demo_time_only :: DelayEvent where
  "demo_time_only = (demo_event 0 1)\<lparr>ev_TripId := ''1'', ev_StopId := ''b'', ev_PredictedArrival := 36600\<rparr>"

lemma demo_scheduled: "GetScheduledStopTime demo_graph ''1'' ''b'' = Some (demo_sst ''W_1'' ''b'' 36300 36330 2)"
  by (simp add: GetScheduledStopTime_def ResolveTripID_def demo_graph_facts Let_def demo_sst_def mgetd_def)

lemma demo_tod: "SecsSinceMidnight local now (Some demo_graph) 36600 = 36600"
proof -
  have "tz demo_graph = Some (\<lambda>_. 0)" by (simp add: demo_graph_def assemble_fields)
  then show ?thesis by (simp add: SecsSinceMidnight_def clock_secs_eq Location_def)
qed

theorem enrich_sets_shortest_delay_witness:
  "snd (enrichEvent (\<lambda>_. 0) 0 demo_graph demo_time_only)
   \<and> ev_DelaySeconds (fst (enrichEvent (\<lambda>_. 0) 0 demo_graph demo_time_only)) = 300"
proof -
  obtain ev' enriched where e: "enrichEvent (\<lambda>_. 0) 0 demo_graph demo_time_only = (ev', enriched)" by fastforce
  have f: "ev_TripId demo_time_only = ''1''" "ev_StopId demo_time_only = ''b''" "enrichable demo_time_only"
    "ev_PredictedArrival demo_time_only = 36600" "ev_Type demo_time_only = ARRIVAL_DELAY"
    by (simp_all add: demo_time_only_def demo_event_def enrichable_def)
  have s: "scheduled_secs demo_time_only (demo_sst ''W_1'' ''b'' 36300 36330 2) = 36300"
    by (simp add: scheduled_secs_def f demo_sst_def)
  have h: "enriched \<and> (\<exists>days. ev_DelaySeconds ev' = 300 + 86400 * days \<and> \<bar>ev_DelaySeconds ev'\<bar> \<le> 43200)"
    using enrich_sets_shortest_delay [OF e] by (simp add: f demo_scheduled s demo_tod)
  then obtain days where "ev_DelaySeconds ev' = 300 + 86400 * days" "\<bar>ev_DelaySeconds ev'\<bar> \<le> 43200" by blast
  moreover from this have "days < 1" "- 1 < days" by linarith+
  ultimately show ?thesis using h by (simp add: e)
qed

end
