(* ===== verification/Transfers.thy ===== *)
theory Transfers
  imports DelayState Enrich
begin

text \<open>
  \<open>internal/transfer/detector.go\<close> and \<open>PublishImpact\<close> of \<open>internal/transfer/kafka.go\<close>: a delay
  event is checked against every transfer of its station. The publisher is an argument over its own
  state; one clock reading \<open>now\<close> (Unix seconds) stands for the readings of a call. The lines that
  only feed the log (station names, level strings) are left out.
\<close>

section \<open>Definitions\<close>

definition atRiskBuffer :: int where "atRiskBuffer = 60"

definition todFromUnix :: "location \<Rightarrow> int64 \<Rightarrow> TransitGraph \<Rightarrow> int64 \<Rightarrow> int" where
  "todFromUnix local now g ts = (if ts = 0 then 0 else SecsSinceMidnight local now (Some g) ts)"

definition tripDelayAt ::
  "'r RedisClient \<Rightarrow> TransitGraph \<Rightarrow> string \<Rightarrow> string \<Rightarrow> string \<Rightarrow> 'r \<Rightarrow> int32 \<times> 'r" where
  "tripDelayAt R g agencyID tripID stationID r =
     (case GetScheduledStopTime g tripID stationID of
        None \<Rightarrow> (0, r)
      | Some row \<Rightarrow>
          (case GetDelay R agencyID tripID (StopID row) r of
             (Inr (Some ds), r1) \<Rightarrow> (sd_DelaySeconds ds, r1)
           | (_, r1) \<Rightarrow> (0, r1)))"

definition min_transfer_time :: "Transfer \<Rightarrow> int" where
  "min_transfer_time xfer = (if MinTransferTime xfer \<le> 0 then 120 else MinTransferTime xfer)"

text \<open>The scheduled connection of a transfer: the effective frame and the first departure the
  passenger could make per schedule.\<close>

definition connection :: "TransitGraph \<Rightarrow> Transfer \<Rightarrow> string \<Rightarrow> int \<Rightarrow> (int \<times> ScheduledStopTime) option" where
  "connection g xfer toRoute scheduledArrSecs =
     (let destStation = ToStopID xfer;
          effTod = snd (NextDeparturesAfter g destStation toRoute scheduledArrSecs 1);
          deps = GetNextDepartures g destStation toRoute (i64 (effTod + min_transfer_time xfer)) 3
      in (case deps of [] \<Rightarrow> None | nextDep # _ \<Rightarrow> Some (effTod, nextDep)))"

definition impact_of ::
  "TransitGraph \<Rightarrow> int64 \<Rightarrow> DelayEvent \<Rightarrow> Transfer \<Rightarrow> string \<Rightarrow> int \<Rightarrow> ScheduledStopTime \<Rightarrow> int32
   \<Rightarrow> TransferImpact option" where
  "impact_of g now ev xfer toRoute effTod nextDep connectingDelay =
     (let destStation = ToStopID xfer;
          minXferTime = min_transfer_time xfer;
          originalMargin = i32 (DepartureSecs nextDep - effTod);
          remainingMargin = i32 (i32 (originalMargin - ev_DelaySeconds ev) + connectingDelay);
          base = \<lparr>ti_FromTripId = ev_TripId ev, ti_FromRouteId = ev_RouteId ev, ti_ToRouteId = toRoute,
                  ti_StationId = destStation, ti_SourceDelaySeconds = ev_DelaySeconds ev,
                  ti_OriginalTransferMarginSeconds = originalMargin,
                  ti_RemainingMarginSeconds = remainingMargin, ti_Level = AT_RISK, ti_DetectedAt = now,
                  ti_NextViableTripId = [], ti_AdditionalWaitSeconds = 0,
                  ti_SchedConnectionDepartureSecs = 0, ti_EarliestCatchSecs = 0\<rparr>
      in if remainingMargin < i32 minXferTime then
           let predictedArrSecs = i64 (effTod + ev_DelaySeconds ev);
               earliestCatch = i64 (predictedArrSecs + minXferTime);
               viableDeps = GetNextDepartures g destStation toRoute earliestCatch 1;
               broken = base\<lparr>ti_Level := BROKEN,
                          ti_SchedConnectionDepartureSecs := i32 (DepartureSecs nextDep),
                          ti_EarliestCatchSecs := i32 earliestCatch\<rparr>
           in (case viableDeps of
                 [] \<Rightarrow> Some broken
               | v # _ \<Rightarrow>
                   let additionalWait = i32 (DepartureSecs v - DepartureSecs nextDep)
                   in Some (broken\<lparr>ti_NextViableTripId := TripID v,
                              ti_AdditionalWaitSeconds := (if additionalWait < 0 then 0 else additionalWait)\<rparr>))
         else if remainingMargin < i32 (minXferTime + atRiskBuffer) then Some base
         else None)"

definition evaluate_pair ::
  "'r RedisClient \<Rightarrow> TransitGraph \<Rightarrow> int64 \<Rightarrow> DelayEvent \<Rightarrow> int \<Rightarrow> Transfer \<Rightarrow> string
   \<Rightarrow> TransferImpact list \<times> 'r \<Rightarrow> TransferImpact list \<times> 'r" where
  "evaluate_pair R g now ev scheduledArrSecs xfer toRoute st =
     (case st of (impacts, r) \<Rightarrow>
        if toRoute = ev_RouteId ev then (impacts, r)
        else (case connection g xfer toRoute scheduledArrSecs of
                None \<Rightarrow> (impacts, r)
              | Some (effTod, nextDep) \<Rightarrow>
                  (case tripDelayAt R g (ev_AgencyId ev) (TripID nextDep) (ToStopID xfer) r of
                     (connectingDelay, r1) \<Rightarrow>
                       (case impact_of g now ev xfer toRoute effTod nextDep connectingDelay of
                          None \<Rightarrow> (impacts, r1)
                        | Some imp \<Rightarrow> (impacts @ [imp], r1)))))"

definition evaluate_transfers ::
  "'r RedisClient \<Rightarrow> TransitGraph \<Rightarrow> int64 \<Rightarrow> DelayEvent \<Rightarrow> int \<Rightarrow> Transfer list \<Rightarrow> 'r
   \<Rightarrow> TransferImpact list \<times> 'r" where
  "evaluate_transfers R g now ev scheduledArrSecs transfers r =
     foldl (\<lambda>st xfer.
       foldl (\<lambda>st' (toRoute, present). evaluate_pair R g now ev scheduledArrSecs xfer toRoute st') st
         (GetRoutesAtStop g (ToStopID xfer))) ([], r) transfers"

fun publish_impacts :: "(TransferImpact \<Rightarrow> 'p \<Rightarrow> bool \<times> 'p) \<Rightarrow> TransferImpact list \<Rightarrow> 'p \<Rightarrow> 'p" where
  "publish_impacts publish [] p = p"
| "publish_impacts publish (imp # imps) p = publish_impacts publish imps (snd (publish imp p))"

definition arrival_tod :: "location \<Rightarrow> int64 \<Rightarrow> TransitGraph \<Rightarrow> DelayEvent \<Rightarrow> int" where
  "arrival_tod local now g ev =
     (let scheduledArrSecs = todFromUnix local now g (ev_ScheduledArrival ev)
      in if scheduledArrSecs = 0 then todFromUnix local now g (ev_ObservedAt ev) else scheduledArrSecs)"

definition EvaluateDelay ::
  "'r RedisClient \<Rightarrow> location \<Rightarrow> int64 \<Rightarrow> TransitGraph \<Rightarrow> (TransferImpact \<Rightarrow> 'p \<Rightarrow> bool \<times> 'p) option
   \<Rightarrow> DelayEvent \<Rightarrow> 'r \<times> 'p \<Rightarrow> TransferImpact list \<times> ('r \<times> 'p)" where
  "EvaluateDelay R local now g publisher ev w =
     (case w of (r, p) \<Rightarrow>
        if ev_DelaySeconds ev \<le> 0 then ([], w)
        else let transfers = GetTransfersFrom g (ev_StopId ev)
             in if transfers = [] then ([], w)
                else (case evaluate_transfers R g now ev (arrival_tod local now g ev) transfers r of
                        (impacts, r1) \<Rightarrow>
                          (impacts, r1,
                           (case publisher of None \<Rightarrow> p | Some publish \<Rightarrow> publish_impacts publish impacts p))))"

section \<open>Which impacts\<close>

text \<open>The delay of the connecting trip in the abstract delay table.\<close>

definition known_delay ::
  "(string \<Rightarrow> DelayState option) \<Rightarrow> TransitGraph \<Rightarrow> string \<Rightarrow> string \<Rightarrow> string \<Rightarrow> int32" where
  "known_delay m g agencyID tripID stationID =
     (case GetScheduledStopTime g tripID stationID of
        None \<Rightarrow> 0
      | Some row \<Rightarrow> (case m (delayKey agencyID tripID (StopID row)) of None \<Rightarrow> 0 | Some ds \<Rightarrow> sd_DelaySeconds ds))"

definition pair_impact ::
  "(string \<Rightarrow> string \<Rightarrow> int32) \<Rightarrow> TransitGraph \<Rightarrow> int64 \<Rightarrow> DelayEvent \<Rightarrow> int \<Rightarrow> Transfer \<Rightarrow> string
   \<Rightarrow> TransferImpact option" where
  "pair_impact dl g now ev tod xfer toRoute =
     (if toRoute = ev_RouteId ev then None
      else (case connection g xfer toRoute tod of
              None \<Rightarrow> None
            | Some (effTod, nextDep) \<Rightarrow>
                impact_of g now ev xfer toRoute effTod nextDep (dl (TripID nextDep) (ToStopID xfer))))"

definition all_pairs :: "TransitGraph \<Rightarrow> DelayEvent \<Rightarrow> (Transfer \<times> string) list" where
  "all_pairs g ev =
     concat (map (\<lambda>xfer. map (\<lambda>(toRoute, present). (xfer, toRoute)) (GetRoutesAtStop g (ToStopID xfer)))
       (GetTransfersFrom g (ev_StopId ev)))"

lemma evaluate_transfers_pairs:
  "evaluate_transfers R g now ev tod (GetTransfersFrom g (ev_StopId ev)) r =
     foldl (\<lambda>st (xfer, toRoute). evaluate_pair R g now ev tod xfer toRoute st) ([], r) (all_pairs g ev)"
proof -
  have inner: "foldl (\<lambda>st' (toRoute, present). evaluate_pair R g now ev tod xfer toRoute st') st rs =
      foldl (\<lambda>st (xfer, toRoute). evaluate_pair R g now ev tod xfer toRoute st) st
        (map (\<lambda>(toRoute, present). (xfer, toRoute)) rs)" for xfer st and rs :: "(string, bool) gomap"
    by (induction rs arbitrary: st) auto
  have "foldl (\<lambda>st xfer. foldl (\<lambda>st' (toRoute, present). evaluate_pair R g now ev tod xfer toRoute st') st
          (GetRoutesAtStop g (ToStopID xfer))) st ts =
      foldl (\<lambda>st (xfer, toRoute). evaluate_pair R g now ev tod xfer toRoute st) st
        (concat (map (\<lambda>xfer. map (\<lambda>(toRoute, present). (xfer, toRoute)) (GetRoutesAtStop g (ToStopID xfer))) ts))"
    for ts st
    by (induction ts arbitrary: st) (simp_all add: inner)
  then show ?thesis by (simp add: evaluate_transfers_def all_pairs_def)
qed

context redis_client
begin

lemma tripDelayAt_cases:
  assumes "tripDelayAt R g a t s r = (d, r')"
  shows "ks r' = ks r \<and> (d = 0 \<or> d = known_delay (delays (ks r)) g a t s)"
proof (cases "GetScheduledStopTime g t s")
  case None
  then show ?thesis using assms by (simp add: tripDelayAt_def)
next
  case (Some row)
  obtain res r1 where s: "getState R (delayKey a t (StopID row)) r = (res, r1)" by fastforce
  note get = getState_cases [OF s]
  show ?thesis
    using assms s get Some
    by (cases res) (auto simp: tripDelayAt_def GetDelay_def known_delay_def split: if_splits)
qed

lemma evaluate_pairs_sound:
  "foldl (\<lambda>st (xfer, toRoute). evaluate_pair R g now ev tod xfer toRoute st) (imps, r) ps = (out, r') \<Longrightarrow>
   ks r' = ks r \<and> set out \<subseteq> set imps \<union>
     {imp. \<exists>(xfer, toRoute)\<in>set ps. \<exists>dl. pair_impact dl g now ev tod xfer toRoute = Some imp}"
proof (induction ps arbitrary: imps r)
  case (Cons q ps)
  obtain xfer toRoute where q: "q = (xfer, toRoute)" by fastforce
  obtain imps1 r1 where e: "evaluate_pair R g now ev tod xfer toRoute (imps, r) = (imps1, r1)" by fastforce
  have "ks r1 = ks r \<and> set imps1 \<subseteq> set imps \<union> {imp. \<exists>dl. pair_impact dl g now ev tod xfer toRoute = Some imp}"
  proof (cases "toRoute = ev_RouteId ev \<or> connection g xfer toRoute tod = None")
    case True
    then show ?thesis using e by (auto simp: evaluate_pair_def split: if_splits)
  next
    case False
    then obtain effTod nextDep where c: "connection g xfer toRoute tod = Some (effTod, nextDep)" by auto
    obtain d r2 where t: "tripDelayAt R g (ev_AgencyId ev) (TripID nextDep) (ToStopID xfer) r = (d, r2)" by fastforce
    have "pair_impact (\<lambda>_ _. d) g now ev tod xfer toRoute = impact_of g now ev xfer toRoute effTod nextDep d"
      using False c by (simp add: pair_impact_def)
    then show ?thesis
      using e False c t tripDelayAt_cases [OF t]
      by (auto simp: evaluate_pair_def split: option.splits)
  qed
  with Cons.IH [of imps1 r1] Cons.prems show ?case by (fastforce simp: q e)
qed simp

end

context healthy_redis
begin

lemma tripDelayAt_exact:
  assumes "tripDelayAt R g a t s r = (d, r')" "healthy r"
  shows "ks r' = ks r \<and> healthy r' \<and> d = known_delay (delays (ks r)) g a t s"
proof (cases "GetScheduledStopTime g t s")
  case None
  then show ?thesis using assms by (simp add: tripDelayAt_def known_delay_def)
next
  case (Some row)
  obtain res r1 where g: "rd_Get R (delayKey a t (StopID row)) r = (res, r1)" by fastforce
  note law = Get_law [OF g] Get_healthy [OF assms(2) g]
  show ?thesis
    using assms(1) Some g law
    by (auto simp: tripDelayAt_def GetDelay_def getState_def known_delay_def delays_def split: option.splits)
qed

lemma evaluate_pairs_exact:
  "foldl (\<lambda>st (xfer, toRoute). evaluate_pair R g now ev tod xfer toRoute st) (imps, r) ps = (out, r') \<Longrightarrow>
   healthy r \<Longrightarrow>
   ks r' = ks r \<and> healthy r' \<and>
   out = imps @ List.map_filter (\<lambda>(xfer, toRoute).
       pair_impact (known_delay (delays (ks r)) g (ev_AgencyId ev)) g now ev tod xfer toRoute) ps"
proof (induction ps arbitrary: imps r)
  case Nil
  then show ?case by (simp add: map_filter_simps)
next
  case (Cons q ps)
  obtain xfer toRoute where q: "q = (xfer, toRoute)" by fastforce
  obtain imps1 r1 where e: "evaluate_pair R g now ev tod xfer toRoute (imps, r) = (imps1, r1)" by fastforce
  let ?p = "pair_impact (known_delay (delays (ks r)) g (ev_AgencyId ev)) g now ev tod xfer toRoute"
  have "ks r1 = ks r \<and> healthy r1 \<and> imps1 = imps @ (case ?p of None \<Rightarrow> [] | Some imp \<Rightarrow> [imp])"
  proof (cases "toRoute = ev_RouteId ev \<or> connection g xfer toRoute tod = None")
    case True
    then show ?thesis using e Cons.prems(2) by (auto simp: evaluate_pair_def pair_impact_def split: if_splits)
  next
    case False
    then obtain effTod nextDep where c: "connection g xfer toRoute tod = Some (effTod, nextDep)" by auto
    obtain d r2 where t: "tripDelayAt R g (ev_AgencyId ev) (TripID nextDep) (ToStopID xfer) r = (d, r2)" by fastforce
    note ex = tripDelayAt_exact [OF t Cons.prems(2)]
    have "?p = impact_of g now ev xfer toRoute effTod nextDep d"
      using False c ex by (simp add: pair_impact_def)
    then show ?thesis
      using e False c t ex by (auto simp: evaluate_pair_def split: option.splits)
  qed
  with Cons.IH [of imps1 r1] Cons.prems(1) show ?case
    by (auto simp: q e map_filter_simps split: option.splits)
qed

end

section \<open>Properties\<close>

text \<open>C4: on a healthy connection \<open>EvaluateDelay\<close> is the specification: the impacts are those of
  every transfer of the station and every other route at its far end, in that order, judged with the
  connecting trip's own stored delay; it writes nothing to the store, hands exactly these impacts to
  the publisher in order, and an event that is on time or early has none.\<close>

theorem evaluate_delay_refines_pairs:
  assumes "healthy_redis R ks healthy" and "healthy r"
    and "EvaluateDelay R local now g publisher ev (r, p) = (imps, r', p')"
  shows "imps = (if ev_DelaySeconds ev \<le> 0 then []
           else List.map_filter (\<lambda>(xfer, toRoute).
             pair_impact (known_delay (delays (ks r)) g (ev_AgencyId ev)) g now ev (arrival_tod local now g ev)
               xfer toRoute) (all_pairs g ev))
       \<and> ks r' = ks r
       \<and> p' = (case publisher of None \<Rightarrow> p | Some publish \<Rightarrow> publish_impacts publish imps p)"
proof (cases "ev_DelaySeconds ev \<le> 0 \<or> GetTransfersFrom g (ev_StopId ev) = []")
  case True
  then show ?thesis
    using assms(3) by (auto simp: EvaluateDelay_def all_pairs_def map_filter_simps split: option.splits)
next
  case False
  obtain out r1 where f: "foldl (\<lambda>st (xfer, toRoute).
      evaluate_pair R g now ev (arrival_tod local now g ev) xfer toRoute st) ([], r) (all_pairs g ev) = (out, r1)"
    by fastforce
  note ex = healthy_redis.evaluate_pairs_exact [OF assms(1) f assms(2)]
  show ?thesis
    using assms(3) False ex
    by (auto simp: EvaluateDelay_def Let_def evaluate_transfers_pairs f)
qed

text \<open>Schedules whose times and transfer times stay below a million seconds.\<close>

definition bounded_times :: "TransitGraph \<Rightarrow> bool" where
  "bounded_times g \<longleftrightarrow>
     list_all (\<lambda>(k, v). list_all (\<lambda>st. 0 \<le> DepartureSecs st \<and> DepartureSecs st \<le> 1000000) v) (StopTimesByStop g)
     \<and> list_all (\<lambda>(k, v). list_all (\<lambda>tf. MinTransferTime tf \<le> 1000000) v) (TransfersByStop g)"

lemma mgetd_mem: "x \<in> set (mgetd [] m k) \<Longrightarrow> \<exists>v. (k, v) \<in> set m \<and> x \<in> set v"
  by (cases "mget m k") (auto simp: mgetd_def dest: map_of_SomeD)

lemma bounded_timesD:
  assumes "bounded_times g"
  shows "st \<in> set (mgetd [] (StopTimesByStop g) s) \<Longrightarrow> 0 \<le> DepartureSecs st \<and> DepartureSecs st \<le> 1000000"
    and "tf \<in> set (mgetd [] (TransfersByStop g) s) \<Longrightarrow> MinTransferTime tf \<le> 1000000"
  using assms mgetd_mem by (fastforce simp: bounded_times_def list_all_iff)+

lemma NextDeparturesAfter_frame:
  "snd (NextDeparturesAfter g s r tod n) = tod
   \<or> tod < overnightWindowSecs \<and> snd (NextDeparturesAfter g s r tod n) = tod + 86400"
  by (auto simp: NextDeparturesAfter_def Let_def)

text \<open>A row of the connecting route at the far end of the transfer.\<close>

definition connects :: "TransitGraph \<Rightarrow> Transfer \<Rightarrow> string \<Rightarrow> ScheduledStopTime \<Rightarrow> bool" where
  "connects g xfer toRoute st \<longleftrightarrow>
     st \<in> set (mgetd [] (StopTimesByStop g) (ParentStationID g (ToStopID xfer)))
     \<and> mgetd [] (TripRoute g) (TripID st) = toRoute"

lemma first_departure:
  assumes "sorted_by_stop g" "0 < n" "GetNextDepartures g (ToStopID xfer) toRoute a n = d # ds"
  shows "connects g xfer toRoute d" "a \<le> DepartureSecs d"
    "connects g xfer toRoute st \<Longrightarrow> a \<le> DepartureSecs st \<Longrightarrow> DepartureSecs d \<le> DepartureSecs st"
proof -
  have "d \<in> set (GetNextDepartures g (ToStopID xfer) toRoute a n)" by (simp add: assms(3))
  note m = next_departure_mem [OF assms(1) this]
  show "connects g xfer toRoute d" "a \<le> DepartureSecs d" using m by (simp_all add: connects_def)
  show "DepartureSecs d \<le> DepartureSecs st" if "connects g xfer toRoute st" "a \<le> DepartureSecs st"
    using take_first_wait(2) [OF assms(1,2), of st "ToStopID xfer" toRoute a] that
    by (simp add: connects_def assms(3))
qed

lemma no_departure:
  assumes "sorted_by_stop g" "0 < n" "GetNextDepartures g (ToStopID xfer) toRoute a n = []"
  shows "connects g xfer toRoute st \<Longrightarrow> DepartureSecs st < a"
  using take_first_wait(1) [OF assms(1,2), of st "ToStopID xfer" toRoute a] assms(3)
  by (fastforce simp: connects_def)

lemma min_transfer_time_range: "MinTransferTime xfer \<le> 1000000 \<Longrightarrow>
    1 \<le> min_transfer_time xfer \<and> min_transfer_time xfer \<le> 1000000"
  by (simp add: min_transfer_time_def)

lemma connection_facts:
  assumes "sorted_by_stop g" "bounded_times g" "0 \<le> tod" "tod < 86400" "MinTransferTime xfer \<le> 1000000"
    and "connection g xfer toRoute tod = Some (effTod, dep)"
  shows "effTod = tod \<or> tod < overnightWindowSecs \<and> effTod = tod + 86400"
    and "connects g xfer toRoute dep" and "effTod + min_transfer_time xfer \<le> DepartureSecs dep"
    and "connects g xfer toRoute st \<Longrightarrow> effTod + min_transfer_time xfer \<le> DepartureSecs st
         \<Longrightarrow> DepartureSecs dep \<le> DepartureSecs st"
    and "0 \<le> DepartureSecs dep \<and> DepartureSecs dep \<le> 1000000" and "0 \<le> effTod \<and> effTod < 172800"
proof -
  note m = min_transfer_time_range [OF assms(5)]
  have e: "effTod = snd (NextDeparturesAfter g (ToStopID xfer) toRoute tod 1)"
    and d: "\<exists>ds. GetNextDepartures g (ToStopID xfer) toRoute (i64 (effTod + min_transfer_time xfer)) 3 = dep # ds"
    using assms(6) by (auto simp: connection_def Let_def split: list.splits)
  show f: "effTod = tod \<or> tod < overnightWindowSecs \<and> effTod = tod + 86400"
    unfolding e by (rule NextDeparturesAfter_frame)
  then show r: "0 \<le> effTod \<and> effTod < 172800" using assms(3,4) by auto
  have i: "i64 (effTod + min_transfer_time xfer) = effTod + min_transfer_time xfer"
    using r m by (intro i64_id) (simp add: in_i64_def)
  obtain ds where d': "GetNextDepartures g (ToStopID xfer) toRoute (effTod + min_transfer_time xfer) 3 = dep # ds"
    using d i by auto
  note fd = first_departure [OF assms(1) _ d', simplified]
  show "connects g xfer toRoute dep" "effTod + min_transfer_time xfer \<le> DepartureSecs dep"
    using fd(1,2) by simp_all
  show "connects g xfer toRoute st \<Longrightarrow> effTod + min_transfer_time xfer \<le> DepartureSecs st
         \<Longrightarrow> DepartureSecs dep \<le> DepartureSecs st"
    using fd(3) by simp
  show "0 \<le> DepartureSecs dep \<and> DepartureSecs dep \<le> 1000000"
    using fd(1) bounded_timesD(1) [OF assms(2)] by (auto simp: connects_def)
qed

lemma todFromUnix_range: "0 \<le> todFromUnix local now g ts \<and> todFromUnix local now g ts < 86400"
  by (simp add: todFromUnix_def SecsSinceMidnight_range)

lemma arrival_tod_range: "0 \<le> arrival_tod local now g ev \<and> arrival_tod local now g ev < 86400"
  by (simp add: arrival_tod_def Let_def todFromUnix_range)

lemma evaluate_delay_impact:
  assumes "redis_client R ks" "EvaluateDelay R local now g publisher ev w = (imps, w')" "imp \<in> set imps"
  obtains xfer toRoute dl where "xfer \<in> set (GetTransfersFrom g (ev_StopId ev))"
    "pair_impact dl g now ev (arrival_tod local now g ev) xfer toRoute = Some imp" "0 < ev_DelaySeconds ev"
proof -
  obtain r p where w: "w = (r, p)" by fastforce
  obtain out r1 where f: "foldl (\<lambda>st (xfer, toRoute).
      evaluate_pair R g now ev (arrival_tod local now g ev) xfer toRoute st) ([], r) (all_pairs g ev) = (out, r1)"
    by fastforce
  have d: "0 < ev_DelaySeconds ev" "imps = out"
    using assms(2,3) by (auto simp: EvaluateDelay_def Let_def w evaluate_transfers_pairs f split: if_splits)
  then obtain xfer toRoute dl where x: "(xfer, toRoute) \<in> set (all_pairs g ev)"
    "pair_impact dl g now ev (arrival_tod local now g ev) xfer toRoute = Some imp"
    using redis_client.evaluate_pairs_sound [OF assms(1) f] assms(3) by auto
  then have "xfer \<in> set (GetTransfersFrom g (ev_StopId ev))" by (auto simp: all_pairs_def)
  from that [OF this x(2) d(1)] show thesis .
qed

lemma pair_impact_Some:
  assumes "pair_impact dl g now ev tod xfer toRoute = Some imp"
  obtains effTod dep d where "toRoute \<noteq> ev_RouteId ev" "connection g xfer toRoute tod = Some (effTod, dep)"
    "impact_of g now ev xfer toRoute effTod dep d = Some imp"
  using assms by (auto simp: pair_impact_def split: if_splits option.splits)

lemma impact_of_fields:
  assumes "impact_of g now ev xfer toRoute effTod dep d = Some imp"
  shows "ti_StationId imp = ToStopID xfer" "ti_ToRouteId imp = toRoute" "ti_FromRouteId imp = ev_RouteId ev"
    "ti_SourceDelaySeconds imp = ev_DelaySeconds ev"
    "ti_OriginalTransferMarginSeconds imp = i32 (DepartureSecs dep - effTod)"
    "ti_RemainingMarginSeconds imp = i32 (i32 (i32 (DepartureSecs dep - effTod) - ev_DelaySeconds ev) + d)"
    "ti_Level imp = (if ti_RemainingMarginSeconds imp < i32 (min_transfer_time xfer) then BROKEN else AT_RISK)"
    "ti_RemainingMarginSeconds imp < i32 (min_transfer_time xfer)
     \<or> ti_RemainingMarginSeconds imp < i32 (min_transfer_time xfer + 60)"
  using assms
  by (auto simp: impact_of_def Let_def atRiskBuffer_def split: if_splits list.splits)

text \<open>Every reported impact is about a connection that was viable per schedule: a departure of
  another route at the far station of one of the stop's transfers, the first that leaves the minimum
  transfer time (2 minutes when unspecified), with the scheduled margin at least that minimum; it is
  \<open>BROKEN\<close> when the remaining margin is below the minimum and \<open>AT_RISK\<close> when it is within 60
  seconds above it, and an impact is never reported with a larger remaining margin.\<close>

theorem impacts_are_endangered_connections:
  assumes "redis_client R ks" and "sorted_by_stop g" and "bounded_times g"
    and "EvaluateDelay R local now g publisher ev w = (imps, w')" and "imp \<in> set imps"
  shows "\<exists>xfer effTod dep. xfer \<in> set (GetTransfersFrom g (ev_StopId ev))
       \<and> ti_StationId imp = ToStopID xfer \<and> ti_ToRouteId imp \<noteq> ti_FromRouteId imp
       \<and> connects g xfer (ti_ToRouteId imp) dep
       \<and> ti_OriginalTransferMarginSeconds imp = DepartureSecs dep - effTod
       \<and> (effTod = arrival_tod local now g ev \<or> effTod = arrival_tod local now g ev + 86400)
       \<and> min_transfer_time xfer \<le> ti_OriginalTransferMarginSeconds imp
       \<and> (\<forall>st. connects g xfer (ti_ToRouteId imp) st \<and> effTod + min_transfer_time xfer \<le> DepartureSecs st
            \<longrightarrow> DepartureSecs dep \<le> DepartureSecs st)
       \<and> ti_RemainingMarginSeconds imp < min_transfer_time xfer + 60
       \<and> ti_Level imp = (if ti_RemainingMarginSeconds imp < min_transfer_time xfer then BROKEN else AT_RISK)"
proof -
  obtain xfer toRoute dl where x: "xfer \<in> set (GetTransfersFrom g (ev_StopId ev))"
    "pair_impact dl g now ev (arrival_tod local now g ev) xfer toRoute = Some imp"
    using evaluate_delay_impact [OF assms(1,4,5)] .
  have mt: "MinTransferTime xfer \<le> 1000000"
    using x(1) bounded_timesD(2) [OF assms(3)] by (simp add: GetTransfersFrom_def)
  obtain effTod dep d where p: "toRoute \<noteq> ev_RouteId ev"
    "connection g xfer toRoute (arrival_tod local now g ev) = Some (effTod, dep)"
    "impact_of g now ev xfer toRoute effTod dep d = Some imp"
    using pair_impact_Some [OF x(2)] .
  note c = connection_facts [OF assms(2,3) conjunct1 [OF arrival_tod_range] conjunct2 [OF arrival_tod_range] mt p(2)]
  note f = impact_of_fields [OF p(3)]
  note m = min_transfer_time_range [OF mt]
  have i: "i32 (DepartureSecs dep - effTod) = DepartureSecs dep - effTod"
    using c(5,6) by (intro i32_id) (simp add: in_i32_def)
  have j: "i32 (min_transfer_time xfer) = min_transfer_time xfer"
    "i32 (min_transfer_time xfer + 60) = min_transfer_time xfer + 60"
    using m by (intro i32_id; simp add: in_i32_def)+
  show ?thesis
    by (rule exI [of _ xfer], rule exI [of _ effTod], rule exI [of _ dep])
      (use x(1) p(1) c f m in \<open>auto simp: i j\<close>)
qed

lemma broken_fields:
  assumes "impact_of g now ev xfer toRoute effTod dep d = Some imp" "ti_Level imp = BROKEN"
    and "i32 (DepartureSecs dep - effTod) = DepartureSecs dep - effTod" "i32 (DepartureSecs dep) = DepartureSecs dep"
    and "i64 (i64 (effTod + ev_DelaySeconds ev) + min_transfer_time xfer) = catch" "i32 catch = catch"
  shows "ti_EarliestCatchSecs imp = catch \<and> ti_SchedConnectionDepartureSecs imp = DepartureSecs dep
      \<and> (case GetNextDepartures g (ToStopID xfer) toRoute catch 1 of
           [] \<Rightarrow> ti_NextViableTripId imp = [] \<and> ti_AdditionalWaitSeconds imp = 0
         | v # _ \<Rightarrow> ti_NextViableTripId imp = TripID v
             \<and> ti_AdditionalWaitSeconds imp = (let a = i32 (DepartureSecs v - DepartureSecs dep) in if a < 0 then 0 else a))"
proof -
  note f = impact_of_fields [OF assms(1)]
  have "ti_RemainingMarginSeconds imp < i32 (min_transfer_time xfer)"
    using f(7) assms(2) by (simp split: if_splits)
  then show ?thesis
    using assms(1) f(6) by (auto simp: impact_of_def Let_def assms(3-6) split: list.splits)
qed

text \<open>C27: for a broken connection the reported earliest catch is the predicted arrival plus the
  minimum transfer time; the next viable trip is the first departure of the route from then on, and
  the additional wait is exactly its distance from the missed departure and no longer than that of
  any other departure the passenger could catch. When none is left the trip is empty and the wait 0.\<close>

theorem broken_impacts_next_viable:
  assumes "redis_client R ks" and "sorted_by_stop g" and "bounded_times g"
    and "EvaluateDelay R local now g publisher ev w = (imps, w')" and "imp \<in> set imps"
    and "ti_Level imp = BROKEN" and "ev_DelaySeconds ev \<le> 1000000000"
  shows "\<exists>xfer effTod. xfer \<in> set (GetTransfersFrom g (ev_StopId ev))
       \<and> ti_EarliestCatchSecs imp = effTod + ev_DelaySeconds ev + min_transfer_time xfer
       \<and> ti_SchedConnectionDepartureSecs imp = effTod + ti_OriginalTransferMarginSeconds imp
       \<and> (if \<exists>st. connects g xfer (ti_ToRouteId imp) st \<and> ti_EarliestCatchSecs imp \<le> DepartureSecs st
          then (\<exists>v. connects g xfer (ti_ToRouteId imp) v \<and> TripID v = ti_NextViableTripId imp
                 \<and> ti_EarliestCatchSecs imp \<le> DepartureSecs v
                 \<and> ti_AdditionalWaitSeconds imp = DepartureSecs v - ti_SchedConnectionDepartureSecs imp
                 \<and> 0 \<le> ti_AdditionalWaitSeconds imp
                 \<and> (\<forall>st. connects g xfer (ti_ToRouteId imp) st \<and> ti_EarliestCatchSecs imp \<le> DepartureSecs st
                      \<longrightarrow> DepartureSecs v \<le> DepartureSecs st))
          else ti_NextViableTripId imp = [] \<and> ti_AdditionalWaitSeconds imp = 0)"
proof -
  obtain xfer toRoute dl where x: "xfer \<in> set (GetTransfersFrom g (ev_StopId ev))"
    "pair_impact dl g now ev (arrival_tod local now g ev) xfer toRoute = Some imp" "0 < ev_DelaySeconds ev"
    using evaluate_delay_impact [OF assms(1,4,5)] .
  have mt: "MinTransferTime xfer \<le> 1000000"
    using x(1) bounded_timesD(2) [OF assms(3)] by (simp add: GetTransfersFrom_def)
  obtain effTod dep d where p: "toRoute \<noteq> ev_RouteId ev"
    "connection g xfer toRoute (arrival_tod local now g ev) = Some (effTod, dep)"
    "impact_of g now ev xfer toRoute effTod dep d = Some imp"
    using pair_impact_Some [OF x(2)] .
  note c = connection_facts [OF assms(2,3) conjunct1 [OF arrival_tod_range] conjunct2 [OF arrival_tod_range] mt p(2)]
  note f = impact_of_fields [OF p(3)]
  note m = min_transfer_time_range [OF mt]
  define catch where "catch = effTod + ev_DelaySeconds ev + min_transfer_time xfer"
  have r: "0 < catch" "catch \<le> 2000000000" using c(6) m x(3) assms(7) by (simp_all add: catch_def)
  have i: "i32 (DepartureSecs dep - effTod) = DepartureSecs dep - effTod" "i32 (DepartureSecs dep) = DepartureSecs dep"
    using c(5,6) by (intro i32_id; simp add: in_i32_def)+
  have k: "i64 (i64 (effTod + ev_DelaySeconds ev) + min_transfer_time xfer) = catch" "i32 catch = catch"
    using r c(6) m x(3) assms(7) by (simp_all add: catch_def i64_id i32_id in_i64_def in_i32_def)
  note e = broken_fields [OF p(3) assms(6) i k]
  show ?thesis
  proof (cases "GetNextDepartures g (ToStopID xfer) toRoute catch 1")
    case Nil
    then have "\<not> (\<exists>st. connects g xfer toRoute st \<and> catch \<le> DepartureSecs st)"
      using no_departure [OF assms(2), of 1 xfer toRoute catch] by fastforce
    then show ?thesis
      by (intro exI [of _ xfer] exI [of _ effTod]) (use e x(1) Nil f i in \<open>auto simp: catch_def\<close>)
  next
    case (Cons v vs)
    note fd = first_departure [OF assms(2) _ Cons, simplified]
    have "effTod + min_transfer_time xfer \<le> DepartureSecs v" using fd(2) x(3) by (simp add: catch_def)
    then have v: "DepartureSecs dep \<le> DepartureSecs v" using c(4) fd(1) by blast
    have "DepartureSecs v \<le> 1000000" using fd(1) bounded_timesD(1) [OF assms(3)] by (auto simp: connects_def)
    then have "i32 (DepartureSecs v - DepartureSecs dep) = DepartureSecs v - DepartureSecs dep"
      using v c(5) by (intro i32_id) (simp add: in_i32_def)
    then have w: "ti_AdditionalWaitSeconds imp = DepartureSecs v - DepartureSecs dep" "ti_NextViableTripId imp = TripID v"
      using e Cons v by (simp_all add: Let_def)
    have ex: "\<exists>st. connects g xfer toRoute st \<and> catch \<le> DepartureSecs st" using fd(1,2) by blast
    show ?thesis
      by (intro exI [of _ xfer] exI [of _ effTod])
        (use e x(1) f i w v ex fd in \<open>auto simp: catch_def [symmetric] intro!: exI [of _ v]\<close>)
  qed
qed

section \<open>An example\<close>

text \<open>Line B arrives 200 seconds late at the second station, from where line A leaves 330 seconds
  after the scheduled arrival and again ten minutes later; changing takes 180 seconds.\<close>

definition demo_late :: DelayEvent where
  "demo_late =
     \<lparr>ev_AgencyId = ''MTA'', ev_TripId = ''W_3'', ev_RouteId = ''B'', ev_StopId = ''b'', ev_DelaySeconds = 200,
      ev_ObservedAt = 5, ev_ScheduledArrival = 36000, ev_PredictedArrival = 0, ev_Type = ARRIVAL_DELAY\<rparr>"

definition demo_impact :: TransferImpact where
  "demo_impact =
     \<lparr>ti_FromTripId = ''W_3'', ti_FromRouteId = ''B'', ti_ToRouteId = ''A'', ti_StationId = ''Q'',
      ti_SourceDelaySeconds = 200, ti_OriginalTransferMarginSeconds = 330, ti_RemainingMarginSeconds = 130,
      ti_Level = BROKEN, ti_DetectedAt = 7, ti_NextViableTripId = ''W_2'', ti_AdditionalWaitSeconds = 600,
      ti_SchedConnectionDepartureSecs = 36330, ti_EarliestCatchSecs = 36380\<rparr>"

lemma demo_tz: "tz demo_graph = Some (\<lambda>_. 0)"
  by (simp add: demo_graph_def assemble_fields)

lemma demo_arrival_tod: "arrival_tod local now demo_graph demo_late = 36000"
  by (simp add: arrival_tod_def todFromUnix_def demo_late_def SecsSinceMidnight_def clock_secs_eq Location_def demo_tz)

lemma demo_parent: "ParentStationID demo_graph ''b'' = ''Q''" "ParentStationID demo_graph ''Q'' = ''Q''"
  by (simp_all add: ParentStationID_def parentStation_def demo_graph_facts demo_stops_def demo_stop_def)

lemma demo_departures:
  "GetNextDepartures demo_graph ''Q'' ''A'' a n =
     take (nat n) (filter (\<lambda>st. a \<le> DepartureSecs st) [demo_sst ''W_1'' ''b'' 36300 36330 2, demo_sst ''W_2'' ''b'' 36900 36930 2])"
  by (simp add: GetNextDepartures_eq [OF built_sorted [OF demo_built]] departures_spec_def demo_parent
      demo_graph_facts demo_sst_def mgetd_def)

lemma demo_connection:
  "connection demo_graph \<lparr>FromStopID = ''Q'', ToStopID = ''Q'', TransferType = 2, MinTransferTime = 180\<rparr> ''A'' 36000
   = Some (36000, demo_sst ''W_1'' ''b'' 36300 36330 2)"
  by (simp add: connection_def Let_def NextDeparturesAfter_def overnightWindowSecs_def min_transfer_time_def
      demo_departures i64_id in_i64_def) (simp add: demo_sst_def)

lemma demo_evaluate:
  "EvaluateDelay mem_client (\<lambda>_. 0) 7 demo_graph (Some (\<lambda>imp p. (True, p @ [imp]))) demo_late (demo_redis, [])
   = ([demo_impact], demo_redis, [demo_impact])"
proof -
  have t: "GetTransfersFrom demo_graph ''b'' = [\<lparr>FromStopID = ''Q'', ToStopID = ''Q'', TransferType = 2, MinTransferTime = 180\<rparr>]"
    using demo_parent(1) by (simp add: GetTransfersFrom_def demo_graph_facts mgetd_def ParentStationID_def)
  have rs: "GetRoutesAtStop demo_graph ''Q'' = [(''A'', True), (''B'', True)]"
    using demo_parent(2) by (simp add: GetRoutesAtStop_def demo_graph_facts mgetd_def ParentStationID_def)
  have s: "GetScheduledStopTime demo_graph ''W_1'' ''Q'' = Some (demo_sst ''W_1'' ''b'' 36300 36330 2)"
    by (simp add: GetScheduledStopTime_def ResolveTripID_def demo_graph_facts Let_def demo_sst_def mgetd_def
        parentStation_def demo_stops_def demo_stop_def)
  have d: "GetDelay mem_client ''MTA'' ''W_1'' ''b'' demo_redis = (Inr None, demo_redis)"
    by code_simp
  have f: "ev_AgencyId demo_late = ''MTA''" "ev_TripId demo_late = ''W_3''" "ev_RouteId demo_late = ''B''"
    "ev_StopId demo_late = ''b''" "ev_DelaySeconds demo_late = 200"
    by (simp_all add: demo_late_def)
  have w: "TripID (demo_sst x y u v z) = x" "StopID (demo_sst x y u v z) = y" for x y u v z
    by (simp_all add: demo_sst_def)
  have td: "tripDelayAt mem_client demo_graph ''MTA'' ''W_1'' ''Q'' demo_redis = (0, demo_redis)"
    by (simp add: tripDelayAt_def s w d)
  have i: "impact_of demo_graph 7 demo_late
      \<lparr>FromStopID = ''Q'', ToStopID = ''Q'', TransferType = 2, MinTransferTime = 180\<rparr> ''A'' 36000
      (demo_sst ''W_1'' ''b'' 36300 36330 2) 0 = Some demo_impact"
    by (simp add: impact_of_def Let_def min_transfer_time_def f demo_departures i64_id i32_id in_i64_def in_i32_def)
      (simp add: demo_sst_def i32_id in_i32_def demo_impact_def)
  show ?thesis
    by (simp add: EvaluateDelay_def t evaluate_transfers_def rs evaluate_pair_def demo_connection Let_def
        demo_arrival_tod f w td i)
qed

lemma demo_bounded: "bounded_times demo_graph"
  by (simp add: bounded_times_def demo_graph_facts demo_sst_def)

theorem evaluate_delay_refines_pairs_witness:
  "List.map_filter (\<lambda>(xfer, toRoute).
      pair_impact (known_delay (delays (mem_ks demo_redis)) demo_graph ''MTA'') demo_graph 7 demo_late 36000
        xfer toRoute) (all_pairs demo_graph demo_late) = [demo_impact]"
proof -
  have h: "mem_healthy demo_redis" by code_simp
  show ?thesis
    using evaluate_delay_refines_pairs [OF mem.healthy_redis_axioms h demo_evaluate]
    by (simp add: demo_arrival_tod) (simp add: demo_late_def)
qed

theorem impacts_are_endangered_connections_witness:
  "\<exists>xfer dep. xfer \<in> set (GetTransfersFrom demo_graph ''b'')
     \<and> connects demo_graph xfer ''A'' dep \<and> ti_RemainingMarginSeconds demo_impact < min_transfer_time xfer + 60"
proof -
  have "demo_impact \<in> set [demo_impact]" by simp
  from impacts_are_endangered_connections
    [OF mem.redis_client_axioms built_sorted [OF demo_built] demo_bounded demo_evaluate this]
  show ?thesis by (auto simp: demo_late_def demo_impact_def)
qed

theorem broken_impacts_next_viable_witness:
  "\<exists>xfer v. connects demo_graph xfer ''A'' v \<and> TripID v = ''W_2'' \<and> DepartureSecs v = 36930"
proof -
  have m: "demo_impact \<in> set [demo_impact]" by simp
  have l: "ti_Level demo_impact = BROKEN" "ev_DelaySeconds demo_late \<le> 1000000000"
    by (simp_all add: demo_impact_def demo_late_def)
  from broken_impacts_next_viable
    [OF mem.redis_client_axioms built_sorted [OF demo_built] demo_bounded demo_evaluate m l]
  show ?thesis by (auto simp: demo_impact_def split: if_splits)
qed

end
