(* ===== verification/History.thy ===== *)
theory History
  imports Redis
begin

text \<open>
  \<open>internal/propagation/history.go\<close> and \<open>stopimpact.go\<close>: the observed outcomes per transfer and
  hour, and per stop and hour, as sorted sets scored by their Unix time. \<open>now\<close> and \<open>nano\<close> are the
  readings \<open>time.Now().Unix()\<close> and \<open>time.Now().UnixNano()\<close>.
\<close>

section \<open>Definitions\<close>

definition historyRetentionDays :: int where "historyRetentionDays = 30"
definition historyRetentionSecs :: int where "historyRetentionSecs = historyRetentionDays * 24 * 3600"

record observation =
  ob_SourceDelay :: int
  ob_DownstreamImpact :: int
  ob_At :: int64

definition marshal_observation :: "observation \<Rightarrow> json" where
  "marshal_observation ob =
     JObj ([(''source_delay'', enc_int (ob_SourceDelay ob)), (''downstream_impact'', enc_int (ob_DownstreamImpact ob))]
           @ (if ob_At ob = 0 then [] else [(''at'', enc_int (ob_At ob))]))"

definition unmarshal_observation :: "json \<Rightarrow> observation option" where
  "unmarshal_observation j =
     (case j of
        JNull \<Rightarrow> Some \<lparr>ob_SourceDelay = 0, ob_DownstreamImpact = 0, ob_At = 0\<rparr>
      | JObj fs \<Rightarrow>
          (case (dec_i64 (jfield ''source_delay'' fs), dec_i64 (jfield ''downstream_impact'' fs),
                 dec_i64 (jfield ''at'' fs)) of
             (Some s, Some d, Some a) \<Rightarrow> Some \<lparr>ob_SourceDelay = s, ob_DownstreamImpact = d, ob_At = a\<rparr>
           | _ \<Rightarrow> None)
      | _ \<Rightarrow> None)"

record stopOutcome =
  so_Observed :: int
  so_At :: int64

definition marshal_stopOutcome :: "stopOutcome \<Rightarrow> json" where
  "marshal_stopOutcome so = JObj [(''observed'', enc_int (so_Observed so)), (''at'', enc_int (so_At so))]"

definition unmarshal_stopOutcome :: "json \<Rightarrow> stopOutcome option" where
  "unmarshal_stopOutcome j =
     (case j of
        JNull \<Rightarrow> Some \<lparr>so_Observed = 0, so_At = 0\<rparr>
      | JObj fs \<Rightarrow>
          (case (dec_i64 (jfield ''observed'' fs), dec_i64 (jfield ''at'' fs)) of
             (Some s, Some a) \<Rightarrow> Some \<lparr>so_Observed = s, so_At = a\<rparr>
           | _ \<Rightarrow> None)
      | _ \<Rightarrow> None)"

definition historyKey :: "string \<Rightarrow> string \<Rightarrow> string \<Rightarrow> int \<Rightarrow> string" where
  "historyKey fromRoute toRoute stationID hour =
     ''history:'' @ fromRoute @ '':'' @ toRoute @ '':'' @ stationID @ '':'' @ itoa hour"

definition stopImpactKey :: "string \<Rightarrow> string \<Rightarrow> int \<Rightarrow> string" where
  "stopImpactKey routeID stationID hour = ''stopimpact:'' @ routeID @ '':'' @ stationID @ '':'' @ itoa hour"

text \<open>The pipeline both stores run: add the member, trim the entries past the retention.\<close>

definition record_member :: "'r RedisClient \<Rightarrow> string \<Rightarrow> int64 \<Rightarrow> json \<Rightarrow> 'r \<Rightarrow> redis_error option \<times> 'r" where
  "record_member R key now member r =
     (let cutoff = i_to_f64 (i64 (now - historyRetentionSecs))
      in pipe_exec [rd_ZAdd R key (i_to_f64 now) member, rd_ZRemRangeByScore R key cutoff] r)"

definition RecordObservation ::
  "'r RedisClient \<Rightarrow> string \<Rightarrow> string \<Rightarrow> string \<Rightarrow> int \<Rightarrow> int \<Rightarrow> int \<Rightarrow> int64 \<Rightarrow> int64 \<Rightarrow> 'r
   \<Rightarrow> redis_error option \<times> 'r" where
  "RecordObservation R fromRoute toRoute stationID hourOfDay sourceDelay downstreamImpact now nano r =
     record_member R (historyKey fromRoute toRoute stationID hourOfDay) now
       (marshal_observation \<lparr>ob_SourceDelay = sourceDelay, ob_DownstreamImpact = downstreamImpact, ob_At = nano\<rparr>) r"

definition RecordStopOutcome ::
  "'r RedisClient \<Rightarrow> string \<Rightarrow> string \<Rightarrow> int \<Rightarrow> int \<Rightarrow> int64 \<Rightarrow> int64 \<Rightarrow> 'r \<Rightarrow> redis_error option \<times> 'r" where
  "RecordStopOutcome R routeID stationID hour observedDelay now nano r =
     record_member R (stopImpactKey routeID stationID hour) now
       (marshal_stopOutcome \<lparr>so_Observed = observedDelay, so_At = nano\<rparr>) r"

text \<open>Mean and count of the members that decode.\<close>

definition mean_of :: "(json \<Rightarrow> int option) \<Rightarrow> json list \<Rightarrow> float64 \<times> int" where
  "mean_of val members =
     (let (sum, count) = foldl (\<lambda>(sum, count) m.
            (case val m of None \<Rightarrow> (sum, count) | Some v \<Rightarrow> (i64 (sum + v), count + 1))) (0, 0) members
      in if count = 0 then (0, 0) else (f64 (i_to_f64 sum / i_to_f64 count), count))"

definition average_members ::
  "'r RedisClient \<Rightarrow> (json \<Rightarrow> int option) \<Rightarrow> string \<Rightarrow> int64 \<Rightarrow> 'r \<Rightarrow> (redis_error + float64 \<times> int) \<times> 'r" where
  "average_members R val key now r =
     (let cutoff = i_to_f64 (i64 (now - historyRetentionSecs))
      in case rd_ZRangeByScore R key (Some cutoff) None None r of
           (Inl e, r1) \<Rightarrow> (Inl e, r1)
         | (Inr members, r1) \<Rightarrow> (Inr (mean_of val members), r1))"

definition GetAverageImpact ::
  "'r RedisClient \<Rightarrow> string \<Rightarrow> string \<Rightarrow> string \<Rightarrow> int \<Rightarrow> int64 \<Rightarrow> 'r \<Rightarrow> (redis_error + float64 \<times> int) \<times> 'r" where
  "GetAverageImpact R fromRoute toRoute stationID hourOfDay now r =
     average_members R (map_option ob_DownstreamImpact \<circ> unmarshal_observation)
       (historyKey fromRoute toRoute stationID hourOfDay) now r"

definition GetAverageStopImpact ::
  "'r RedisClient \<Rightarrow> string \<Rightarrow> string \<Rightarrow> int \<Rightarrow> int64 \<Rightarrow> 'r \<Rightarrow> (redis_error + float64 \<times> int) \<times> 'r" where
  "GetAverageStopImpact R routeID stationID hour now r =
     average_members R (map_option so_Observed \<circ> unmarshal_stopOutcome) (stopImpactKey routeID stationID hour) now r"

text \<open>\<open>strings.SplitN\<close> for a one-byte separator and \<open>n > 0\<close>.\<close>

fun str_splitn :: "char \<Rightarrow> nat \<Rightarrow> string \<Rightarrow> string list" where
  "str_splitn c 0 s = []"
| "str_splitn c (Suc 0) s = [s]"
| "str_splitn c (Suc (Suc n)) s =
     (case str_index c s of None \<Rightarrow> [s] | Some i \<Rightarrow> take i s # str_splitn c (Suc n) (drop (i + 1) s))"

record TransferStat =
  ts_FromRouteID :: string
  ts_ToRouteID :: string
  ts_StationID :: string
  ts_AvgDelayWhenBroken :: float64
  ts_SampleCount :: int

definition key_routes :: "string \<Rightarrow> (string \<times> string) option" where
  "key_routes key =
     (let parts = str_splitn CHR '':'' 5 key
      in if length parts \<noteq> 5 then None
         else if \<not> snd (atoi (parts ! 4)) then None
         else Some (parts ! 1, parts ! 2))"

fun collect_stats ::
  "'r RedisClient \<Rightarrow> string \<Rightarrow> int \<Rightarrow> int64 \<Rightarrow> string list \<Rightarrow> TransferStat list \<Rightarrow> 'r \<Rightarrow> TransferStat list \<times> 'r" where
  "collect_stats R stationID hourOfDay now [] stats r = (stats, r)"
| "collect_stats R stationID hourOfDay now (key # keys) stats r =
     (case key_routes key of
        None \<Rightarrow> collect_stats R stationID hourOfDay now keys stats r
      | Some (from, to) \<Rightarrow>
          (case GetAverageImpact R from to stationID hourOfDay now r of
             (Inl e, r1) \<Rightarrow> collect_stats R stationID hourOfDay now keys stats r1
           | (Inr (avgImpact, cnt), r1) \<Rightarrow>
               if cnt = 0 then collect_stats R stationID hourOfDay now keys stats r1
               else collect_stats R stationID hourOfDay now keys
                      (stats @ [\<lparr>ts_FromRouteID = from, ts_ToRouteID = to, ts_StationID = stationID,
                                 ts_AvgDelayWhenBroken = avgImpact, ts_SampleCount = cnt\<rparr>]) r1))"

definition GetTransferStats ::
  "'r RedisClient \<Rightarrow> string \<Rightarrow> int \<Rightarrow> int64 \<Rightarrow> 'r \<Rightarrow> (TransferStat list \<times> redis_error option) \<times> 'r" where
  "GetTransferStats R stationID hourOfDay now r =
     (case rd_Scan R (''history:*:*:'' @ stationID @ '':'' @ itoa hourOfDay) r of
        ((keys, e), r1) \<Rightarrow>
          (case collect_stats R stationID hourOfDay now keys [] r1 of (stats, r2) \<Rightarrow> ((stats, e), r2)))"

section \<open>Means\<close>

lemma i64_add_left: "i64 (i64 a + b) = i64 (a + b)"
  by (simp add: i64_def mod_simps add_ac)

lemma mean_fold:
  "foldl (\<lambda>(sum, count) m. (case val m of None \<Rightarrow> (sum, count) | Some v \<Rightarrow> (i64 (sum + v), count + 1))) (i64 s, n) ms
   = (i64 (s + sum_list (List.map_filter val ms)), n + int (length (List.map_filter val ms)))"
  by (induction ms arbitrary: s n)
    (auto simp: map_filter_simps i64_add_left add.assoc split: option.splits)

definition mean_spec :: "int multiset \<Rightarrow> float64 \<times> int" where
  "mean_spec M = (if M = {#} then (0, 0)
     else (f64 (i_to_f64 (i64 (sum_mset M)) / i_to_f64 (int (size M))), int (size M)))"

lemma mean_of_spec: "mean_of val ms = mean_spec (mset (List.map_filter val ms))"
  using mean_fold [of val 0 0 ms]
  by (simp add: mean_of_def mean_spec_def sum_mset_sum_list)

definition values_in :: "(json \<Rightarrow> int option) \<Rightarrow> (json, rat) gomap \<Rightarrow> int list" where
  "values_in val z = List.map_filter (\<lambda>(m, s). val m) z"

lemma map_filter_fst: "List.map_filter val (map fst xs) = List.map_filter (\<lambda>(m, s). val m) xs"
  by (induction xs) (auto simp: map_filter_simps split: option.splits)

lemma mset_map_filter_cong: "mset xs = mset ys \<Longrightarrow> mset (List.map_filter f xs) = mset (List.map_filter f ys)"
  by (simp add: List.map_filter_def mset_filter flip: mset_map) (metis mset_filter mset_map)

lemma unmarshal_marshal_observation:
  "in_i64 (ob_SourceDelay ob) \<Longrightarrow> in_i64 (ob_DownstreamImpact ob) \<Longrightarrow> in_i64 (ob_At ob) \<Longrightarrow>
   unmarshal_observation (marshal_observation ob) = Some ob"
  by (simp add: unmarshal_observation_def marshal_observation_def jfield_def dec_int_def [of _ None])

lemma unmarshal_marshal_stopOutcome:
  "in_i64 (so_Observed so) \<Longrightarrow> in_i64 (so_At so) \<Longrightarrow> unmarshal_stopOutcome (marshal_stopOutcome so) = Some so"
  by (simp add: unmarshal_stopOutcome_def marshal_stopOutcome_def jfield_def)

section \<open>Recording and averaging\<close>

lemma zset_put [simp]: "zset (put_zset k z ks) k' = (if k' = k then Some z else zset ks k')"
  by (simp add: zset_def put_zset_def)

lemma mput_fresh: "k \<notin> fst ` set m \<Longrightarrow> mput k v m = m @ [(k, v)]"
  by (induction m) auto

lemma values_in_simps [simp]:
  "values_in val [] = []" "values_in val (a @ b) = values_in val a @ values_in val b"
  "values_in val [(m, s)] = (case val m of None \<Rightarrow> [] | Some v \<Rightarrow> [v])"
  by (simp_all add: values_in_def map_filter_simps List.map_filter_def split: option.splits)

text \<open>The values in the window that a record at \<open>now\<close> and a read at \<open>later\<close> leave visible.\<close>

definition in_window :: "int64 \<Rightarrow> int64 \<Rightarrow> json \<times> rat \<Rightarrow> bool" where
  "in_window now later e \<longleftrightarrow>
     of_int (now - historyRetentionSecs) < snd e \<and> of_int (later - historyRetentionSecs) \<le> snd e"

definition plain_time :: "int64 \<Rightarrow> bool" where
  "plain_time t \<longleftrightarrow> 0 \<le> t \<and> t < 4503599627370496"

lemma plain_time_f64:
  assumes "plain_time t"
  shows "i_to_f64 t = of_int t"
    and "i_to_f64 (i64 (t - historyRetentionSecs)) = of_int (t - historyRetentionSecs)"
proof -
  have r: "\<bar>t\<bar> < 2 ^ 53" "\<bar>t - 2592000\<bar> < 2 ^ 53" "in_i64 (t - 2592000)"
    using assms by (auto simp: plain_time_def in_i64_def)
  have h: "historyRetentionSecs = 2592000" by (simp add: historyRetentionSecs_def historyRetentionDays_def)
  show "i_to_f64 t = of_int t" unfolding i_to_f64_def by (rule f64_of_int [OF r(1)])
  show "i_to_f64 (i64 (t - historyRetentionSecs)) = of_int (t - historyRetentionSecs)"
    unfolding i_to_f64_def h i64_id [OF r(3)] by (rule f64_of_int [OF r(2)])
qed

context healthy_redis
begin

lemma record_member_zset:
  assumes "record_member R key now member r = (e, r')" "healthy r" "plain_time now"
    and "zset (ks r) key = Some z" "member \<notin> fst ` set z"
  shows "e = None \<and> healthy r' \<and>
    zset (ks r') key = Some (filter (\<lambda>x. of_int (now - historyRetentionSecs) < snd x) (z @ [(member, of_int now)]))"
proof -
  obtain e1 r1 where a: "rd_ZAdd R key (of_int now) member r = (e1, r1)" by fastforce
  obtain e2 r2 where b: "rd_ZRemRangeByScore R key (of_int (now - historyRetentionSecs)) r1 = (e2, r2)" by fastforce
  have 1: "healthy r1 \<and> e1 = None" using ZAdd_healthy [OF assms(2) a] assms(4) by simp
  then have z1: "zset (ks r1) key = Some (z @ [(member, of_int now)])"
    using ZAdd_law [OF a] assms(4,5) by (auto simp: mput_fresh)
  have 2: "healthy r2 \<and> e2 = None" using ZRemRangeByScore_healthy [OF conjunct1 [OF 1] b] z1 by simp
  then have "zset (ks r2) key = Some (filter (\<lambda>x. of_int (now - historyRetentionSecs) < snd x) (z @ [(member, of_int now)]))"
    using ZRemRangeByScore_law [OF b] z1 by (auto simp: not_le)
  then show ?thesis
    using assms(1) 1 2 a b by (simp add: record_member_def Let_def plain_time_f64 assms(3))
qed

lemma average_members_mean:
  assumes "average_members R val key now r = (res, r')" "healthy r" "plain_time now"
    and "zset (ks r) key = Some z"
  shows "ks r' = ks r \<and> healthy r' \<and>
    res = Inr (mean_spec (mset (values_in val (filter (\<lambda>x. of_int (now - historyRetentionSecs) \<le> snd x) z))))"
proof -
  obtain res1 r1 where a: "rd_ZRangeByScore R key (Some (of_int (now - historyRetentionSecs))) None None r = (res1, r1)"
    by fastforce
  have h: "healthy r1" "res1 \<noteq> Inl RedisErr" using ZRangeByScore_healthy [OF assms(2) a] assms(4) by simp_all
  obtain xs where xs: "mset xs = mset (filter (in_scores (Some (of_int (now - historyRetentionSecs))) None) z)"
    "res1 = Inr (map fst xs)" "ks r1 = ks r"
    using ZRangeByScore_law [OF a] h(2) assms(4) by auto
  have "in_scores (Some (of_int (now - historyRetentionSecs))) None = (\<lambda>x. of_int (now - historyRetentionSecs) \<le> snd x)"
    by (simp add: in_scores_def fun_eq_iff)
  then have "mset (List.map_filter val (map fst xs)) =
      mset (values_in val (filter (\<lambda>x. of_int (now - historyRetentionSecs) \<le> snd x) z))"
    using mset_map_filter_cong [OF xs(1), of "\<lambda>(m, s). val m"] by (simp add: map_filter_fst values_in_def)
  then show ?thesis
    using assms(1) a h xs by (auto simp: average_members_def Let_def plain_time_f64 assms(3) mean_of_spec)
qed

lemma record_then_average:
  assumes "record_member R key now member r = (e, r1)" "average_members R val key later r1 = (res, r2)"
    and "healthy r" "plain_time now" "plain_time later" "zset (ks r) key = Some z" "member \<notin> fst ` set z"
    and "val member = Some v" "later \<le> now + historyRetentionSecs"
  shows "e = None \<and> res = Inr (mean_spec (add_mset v (mset (values_in val (filter (in_window now later) z)))))"
proof -
  note 1 = record_member_zset [OF assms(1,3,4,6,7)]
  have h1: "healthy r1" and z1: "zset (ks r1) key = Some (filter (\<lambda>x. of_int (now - historyRetentionSecs) < snd x)
      (z @ [(member, of_int now)]))" using 1 by blast+
  note 2 = average_members_mean [OF assms(2) h1 assms(5) z1]
  have "(of_int later - of_int historyRetentionSecs :: rat) \<le> of_int now"
    using assms(9) by (metis add.commute diff_le_eq of_int_add of_int_le_iff)
  moreover have "(0 :: rat) < of_int historyRetentionSecs"
    by (simp add: historyRetentionSecs_def historyRetentionDays_def)
  ultimately have "filter (\<lambda>x. of_int (later - historyRetentionSecs) \<le> snd x)
      (filter (\<lambda>x. of_int (now - historyRetentionSecs) < snd x) (z @ [(member, of_int now)]))
    = filter (in_window now later) z @ [(member, of_int now)]"
    by (auto simp: in_window_def intro!: filter_cong)
  then show ?thesis using 1 2 assms(8) by simp
qed

end

section \<open>What is recorded is averaged\<close>

text \<open>An observation recorded for a transfer pair is part of every average read within the
  retention window: the answer is the mean and the number of the recorded impact together with all
  earlier impacts of the pair that are younger than 30 days, each counted once.\<close>

lemma recorded_observation_is_averaged:
  assumes "healthy_redis R ks healthy" and "healthy r"
    and "RecordObservation R fromRoute toRoute station hour sourceDelay impact now nano r = (e, r1)"
    and "GetAverageImpact R fromRoute toRoute station hour later r1 = (res, r2)"
    and "zset (ks r) (historyKey fromRoute toRoute station hour) = Some z"
    and "marshal_observation \<lparr>ob_SourceDelay = sourceDelay, ob_DownstreamImpact = impact, ob_At = nano\<rparr> \<notin> fst ` set z"
    and "in_i64 sourceDelay" and "in_i64 impact" and "in_i64 nano"
    and "plain_time now" and "plain_time later" and "later \<le> now + historyRetentionSecs"
  shows "e = None \<and>
    res = Inr (mean_spec (add_mset impact (mset (values_in (map_option ob_DownstreamImpact \<circ> unmarshal_observation)
      (filter (in_window now later) z)))))"
proof -
  have v: "(map_option ob_DownstreamImpact \<circ> unmarshal_observation)
      (marshal_observation \<lparr>ob_SourceDelay = sourceDelay, ob_DownstreamImpact = impact, ob_At = nano\<rparr>) = Some impact"
    using assms(7-9) by (simp add: unmarshal_marshal_observation)
  show ?thesis
    by (rule healthy_redis.record_then_average [OF assms(1) assms(3) [unfolded RecordObservation_def]
          assms(4) [unfolded GetAverageImpact_def] assms(2,10,11,5,6) v assms(12)])
qed

end
