(* ===== verification/GoHeap.thy ===== *)
theory GoHeap
  imports Prelude
begin

text \<open>
  \<open>container/heap\<close> of the Go standard library over a slice: \<open>Push\<close> appends and sifts up,
  \<open>Pop\<close> swaps the root with the last element, sifts down and cuts the slice. \<open>lt\<close> is the
  \<open>Less\<close> of the element type. The locale \<open>max_queue\<close> is what a client of a priority queue may rely
  on; the heap provides it for every ordering by a key, largest first.
\<close>

section \<open>Definitions\<close>

definition swap :: "nat \<Rightarrow> nat \<Rightarrow> 'a list \<Rightarrow> 'a list" where
  "swap i j xs = xs[i := xs ! j, j := xs ! i]"

function heap_up :: "('a \<Rightarrow> 'a \<Rightarrow> bool) \<Rightarrow> 'a list \<Rightarrow> nat \<Rightarrow> 'a list" where
  "heap_up lt xs j =
     (let i = (j - 1) div 2
      in if i = j \<or> \<not> lt (xs ! j) (xs ! i) then xs else heap_up lt (swap i j xs) i)"
  by pat_completeness auto
termination
  by (relation "measure (\<lambda>(lt, xs, j). j)") auto

definition child :: "('a \<Rightarrow> 'a \<Rightarrow> bool) \<Rightarrow> nat \<Rightarrow> 'a list \<Rightarrow> nat \<Rightarrow> nat" where
  "child lt n xs i =
     (let j1 = 2 * i + 1
      in if j1 + 1 < n \<and> lt (xs ! (j1 + 1)) (xs ! j1) then j1 + 1 else j1)"

lemma child_cases: "child lt n xs i = 2 * i + 1 \<or> child lt n xs i = 2 * i + 2 \<and> 2 * i + 2 < n"
  by (auto simp: child_def Let_def)

lemma child_less: "2 * i + 1 < n \<Longrightarrow> i < child lt n xs i \<and> child lt n xs i < n"
  using child_cases [of lt n xs i] by auto

function heap_down :: "('a \<Rightarrow> 'a \<Rightarrow> bool) \<Rightarrow> nat \<Rightarrow> 'a list \<Rightarrow> nat \<Rightarrow> 'a list" where
  "heap_down lt n xs i =
     (if 2 * i + 1 \<ge> n then xs
      else let j = child lt n xs i
           in if \<not> lt (xs ! j) (xs ! i) then xs else heap_down lt n (swap i j xs) j)"
  by pat_completeness auto
termination
proof (relation "measure (\<lambda>(lt, n, xs, i). n - i)", goal_cases)
  case (2 lt n xs i j)
  then show ?case using child_less [of i n lt xs] by auto
qed simp

declare heap_up.simps [simp del] heap_down.simps [simp del]

definition heap_push :: "('a \<Rightarrow> 'a \<Rightarrow> bool) \<Rightarrow> 'a \<Rightarrow> 'a list \<Rightarrow> 'a list" where
  "heap_push lt x xs = heap_up lt (xs @ [x]) (length xs)"

definition heap_pop :: "('a \<Rightarrow> 'a \<Rightarrow> bool) \<Rightarrow> 'a list \<Rightarrow> 'a \<times> 'a list" where
  "heap_pop lt xs =
     (let n = length xs - 1;
          ys = heap_down lt n (swap 0 n xs) 0
      in (ys ! n, take n ys))"

section \<open>Permutation\<close>

lemma length_swap [simp]: "length (swap i j xs) = length xs"
  by (simp add: swap_def)

lemma mset_swap [simp]: "i < length xs \<Longrightarrow> j < length xs \<Longrightarrow> mset (swap i j xs) = mset xs"
  by (simp add: swap_def mset_swap)

lemma nth_swap:
  "i < length xs \<Longrightarrow> j < length xs \<Longrightarrow> k < length xs \<Longrightarrow>
   swap i j xs ! k = (if k = j then xs ! i else if k = i then xs ! j else xs ! k)"
  by (simp add: swap_def nth_list_update)

lemma heap_up_perm: "j < length xs \<Longrightarrow> mset (heap_up lt xs j) = mset xs"
proof (induction lt xs j rule: heap_up.induct)
  case (1 lt xs j)
  then show ?case
    by (subst heap_up.simps) (auto simp: Let_def)
qed

lemma length_heap_up [simp]: "j < length xs \<Longrightarrow> length (heap_up lt xs j) = length xs"
  using heap_up_perm mset_eq_length by blast

lemma heap_down_perm:
  "n \<le> length xs \<Longrightarrow> i < length xs \<Longrightarrow>
   mset (heap_down lt n xs i) = mset xs \<and> (\<forall>k. n \<le> k \<and> i < n \<and> k < length xs \<longrightarrow> heap_down lt n xs i ! k = xs ! k)"
proof (induction lt n xs i rule: heap_down.induct)
  case (1 lt n xs i)
  show ?case
  proof (cases "n \<le> 2 * i + 1")
    case True
    then show ?thesis by (simp add: heap_down.simps [of lt n xs i] Let_def)
  next
    case False
    define j where "j = child lt n xs i"
    have j: "j < n" "i < j" using False child_less [of i n lt xs] by (auto simp: j_def)
    show ?thesis
    proof (cases "lt (xs ! j) (xs ! i)")
      case False2: False
      then show ?thesis
        using False by (simp add: heap_down.simps [of lt n xs i] Let_def flip: j_def)
    next
      case True
      have e: "heap_down lt n xs i = heap_down lt n (swap i j xs) j"
        using True False by (simp add: heap_down.simps [of lt n xs i] Let_def flip: j_def)
      have IH: "mset (heap_down lt n (swap i j xs) j) = mset (swap i j xs) \<and>
          (\<forall>k. n \<le> k \<and> j < n \<and> k < length (swap i j xs) \<longrightarrow> heap_down lt n (swap i j xs) j ! k = swap i j xs ! k)"
        by (rule "1.IH" [OF _ j_def]) (use False True "1.prems" j in simp_all)
      have ij: "i < length xs" "j < length xs" using j "1.prems" by simp_all
      show ?thesis
        unfolding e using IH j by (auto simp: nth_swap [OF ij] mset_swap [OF ij])
    qed
  qed
qed

lemma length_heap_down [simp]:
  "n \<le> length xs \<Longrightarrow> i < length xs \<Longrightarrow> length (heap_down lt n xs i) = length xs"
  using heap_down_perm mset_eq_length by blast

section \<open>Order\<close>

definition par :: "nat \<Rightarrow> nat" where
  "par c = (c - 1) div 2"

definition by_key :: "('a \<Rightarrow> 'b::linorder) \<Rightarrow> 'a \<Rightarrow> 'a \<Rightarrow> bool" where
  \<comment> \<open>\<open>Less\<close> of a queue that is served largest key first\<close>
  "by_key key x y \<longleftrightarrow> key x > key y"

definition heap_ok :: "('a \<Rightarrow> 'b::linorder) \<Rightarrow> 'a list \<Rightarrow> bool" where
  "heap_ok key xs \<longleftrightarrow> (\<forall>c. 0 < c \<and> c < length xs \<longrightarrow> key (xs ! c) \<le> key (xs ! par c))"

text \<open>A heap but for the edge above \<open>j\<close>, and a heap but for the edges below \<open>i\<close>.\<close>

definition heap_above :: "('a \<Rightarrow> 'b::linorder) \<Rightarrow> 'a list \<Rightarrow> nat \<Rightarrow> bool" where
  "heap_above key xs j \<longleftrightarrow>
     (\<forall>c. 0 < c \<and> c < length xs \<and> c \<noteq> j \<longrightarrow> key (xs ! c) \<le> key (xs ! par c))
     \<and> (\<forall>c. 0 < c \<and> c < length xs \<and> par c = j \<and> 0 < j \<longrightarrow> key (xs ! c) \<le> key (xs ! par j))"

definition heap_below :: "('a \<Rightarrow> 'b::linorder) \<Rightarrow> nat \<Rightarrow> 'a list \<Rightarrow> nat \<Rightarrow> bool" where
  "heap_below key n xs i \<longleftrightarrow>
     (\<forall>c. 0 < c \<and> c < n \<and> par c \<noteq> i \<longrightarrow> key (xs ! c) \<le> key (xs ! par c))
     \<and> (\<forall>c. 0 < c \<and> c < n \<and> par c = i \<and> 0 < i \<longrightarrow> key (xs ! c) \<le> key (xs ! par i))"

lemma par_less: "0 < c \<Longrightarrow> par c < c" and par_0 [simp]: "par 0 = 0"
  by (auto simp: par_def)

lemma par_cases: "0 < c \<Longrightarrow> par c = i \<longleftrightarrow> c = 2 * i + 1 \<or> c = 2 * i + 2"
  by (auto simp: par_def)

lemma heap_up_ok:
  assumes "j < length xs" "heap_above key xs j"
  shows "heap_ok key (heap_up (by_key key) xs j)"
  using assms
proof (induction "by_key key" xs j rule: heap_up.induct)
  case (1 xs j)
  show ?case
  proof (cases "par j = j \<or> \<not> key (xs ! par j) < key (xs ! j)")
    case True
    then have "heap_up (by_key key) xs j = xs"
      by (simp add: heap_up.simps [of _ xs j] Let_def by_key_def par_def)
    moreover have "j = 0 \<or> key (xs ! j) \<le> key (xs ! par j)"
      using True par_less [of j] by auto
    ultimately show ?thesis
      using "1.prems"(2) by (auto simp: heap_ok_def heap_above_def)
  next
    case False
    then have j: "0 < j" by (cases j) auto
    have p: "par j < j" "par j < length xs" using par_less [OF j] "1.prems"(1) by simp_all
    have e: "heap_up (by_key key) xs j = heap_up (by_key key) (swap (par j) j xs) (par j)"
      using False by (simp add: heap_up.simps [of _ xs j] Let_def by_key_def par_def)
    note nth = nth_swap [OF p(2) "1.prems"(1)]
    have h: "\<And>c. 0 < c \<Longrightarrow> c < length xs \<Longrightarrow> c \<noteq> j \<Longrightarrow> key (xs ! c) \<le> key (xs ! par c)"
      "\<And>c. 0 < c \<Longrightarrow> c < length xs \<Longrightarrow> par c = j \<Longrightarrow> key (xs ! c) \<le> key (xs ! par j)"
      using "1.prems"(2) j by (auto simp: heap_above_def)
    have lt: "key (xs ! par j) < key (xs ! j)" using False by auto
    have "heap_above key (swap (par j) j xs) (par j)"
      unfolding heap_above_def length_swap
    proof (intro conjI allI impI; elim conjE)
      fix c assume c: "0 < c" "c < length xs" "c \<noteq> par j"
      have pc: "par c < length xs" using par_less [OF c(1)] c(2) by simp
      show "key (swap (par j) j xs ! c) \<le> key (swap (par j) j xs ! par c)"
        unfolding nth [OF c(2)] nth [OF pc]
        using c h(1) [OF c(1,2)] h(2) [OF c(1,2)] lt by (auto dest: order_trans less_imp_le)
    next
      fix c assume c: "0 < c" "c < length xs" "par c = par j" "0 < par j"
      have pp: "par (par j) < length xs" using par_less [OF c(4)] p(2) by simp
      have "par (par j) \<noteq> j" "par (par j) \<noteq> par j" using par_less [OF c(4)] p(1) by auto
      then show "key (swap (par j) j xs ! c) \<le> key (swap (par j) j xs ! par (par j))"
        unfolding nth [OF c(2)] nth [OF pp]
        using c h(1) [OF c(1,2)] h(1) [OF c(4) p(2)] p(1) by (auto intro: order_trans)
    qed
    then show ?thesis
      using "1.hyps" [OF refl] False p by (simp add: e by_key_def par_def)
  qed
qed

lemma heap_down_ok:
  assumes "n \<le> length xs" "i < n" "heap_below key n xs i"
  shows "\<forall>c. 0 < c \<and> c < n \<longrightarrow>
    key (heap_down (by_key key) n xs i ! c) \<le> key (heap_down (by_key key) n xs i ! par c)"
  using assms
proof (induction "by_key key" n xs i rule: heap_down.induct)
  case (1 n xs i)
  have h: "\<And>c. 0 < c \<Longrightarrow> c < n \<Longrightarrow> par c \<noteq> i \<Longrightarrow> key (xs ! c) \<le> key (xs ! par c)"
    "\<And>c. 0 < c \<Longrightarrow> c < n \<Longrightarrow> par c = i \<Longrightarrow> 0 < i \<Longrightarrow> key (xs ! c) \<le> key (xs ! par i)"
    using "1.prems"(3) by (auto simp: heap_below_def)
  define j where "j = child (by_key key) n xs i"
  show ?case
  proof (cases "n \<le> 2 * i + 1 \<or> \<not> by_key key (xs ! j) (xs ! i)")
    case True
    then have e: "heap_down (by_key key) n xs i = xs"
      by (auto simp: heap_down.simps [of _ n xs i] Let_def simp flip: j_def)
    have "key (xs ! c) \<le> key (xs ! par c)" if c: "0 < c" "c < n" "par c = i" for c
    proof -
      have "c = 2 * i + 1 \<or> c = 2 * i + 2" using par_cases [OF c(1)] c(3) by blast
      then show ?thesis using True c by (auto simp: j_def child_def Let_def by_key_def split: if_splits)
    qed
    then show ?thesis using h(1) by (auto simp: e)
  next
    case False
    have j: "j < n" "i < j" "par j = i" "0 < j"
      using False child_less [of i n "by_key key" xs] child_cases [of "by_key key" n xs i]
      by (auto simp: j_def par_def)
    have e: "heap_down (by_key key) n xs i = heap_down (by_key key) n (swap i j xs) j"
      using False by (simp add: heap_down.simps [of _ n xs i] Let_def flip: j_def)
    have ij: "i < length xs" "j < length xs" using j "1.prems" by simp_all
    note nth = nth_swap [OF ij]
    have sib: "key (xs ! c) \<le> key (xs ! j)" if c: "0 < c" "c < n" "par c = i" for c
    proof -
      have "c = 2 * i + 1 \<or> c = 2 * i + 2" using par_cases [OF c(1)] c(3) by blast
      then show ?thesis using c by (auto simp: j_def child_def Let_def by_key_def split: if_splits)
    qed
    have lt: "key (xs ! i) < key (xs ! j)" using False by (auto simp: by_key_def)
    have "heap_below key n (swap i j xs) j"
      unfolding heap_below_def
    proof (intro conjI allI impI; elim conjE)
      fix c assume c: "0 < c" "c < n" "par c \<noteq> j"
      have cl: "c < length xs" "par c < length xs" using c par_less [OF c(1)] "1.prems"(1) by simp_all
      show "key (swap i j xs ! c) \<le> key (swap i j xs ! par c)"
        unfolding nth [OF cl(1)] nth [OF cl(2)]
        using c h(1) [OF c(1,2)] h(2) [OF c(1,2)] sib [OF c(1,2)] lt j(2,3) h(2) [OF j(4,1,3)]
        by (auto dest: less_imp_le)
    next
      fix c assume c: "0 < c" "c < n" "par c = j" "0 < j"
      have cl: "c < length xs" using c "1.prems"(1) by simp
      have "c \<noteq> i" "c \<noteq> j" using par_less [OF c(1)] c(3) j(2) by auto
      then show "key (swap i j xs ! c) \<le> key (swap i j xs ! par j)"
        unfolding nth [OF cl] j(3) nth [OF ij(1)] using h(1) [OF c(1,2)] c(3) j(2) by auto
    qed
    moreover have "\<not> n \<le> 2 * i + 1" "by_key key (xs ! j) (xs ! i)" using False by simp_all
    ultimately show ?thesis
      unfolding e using "1.hyps" [OF _ j_def] j(1) "1.prems"(1) by simp
  qed
qed

section \<open>The operations\<close>

lemma root_largest:
  assumes "heap_ok key xs" "c < length xs"
  shows "key (xs ! c) \<le> key (xs ! 0)"
  using assms(2)
proof (induction c rule: less_induct)
  case (less c)
  show ?case
  proof (cases "c = 0")
    case False
    then have "key (xs ! c) \<le> key (xs ! par c)" "par c < c"
      using assms(1) less.prems par_less [of c] by (auto simp: heap_ok_def)
    with less.IH [of "par c"] less.prems show ?thesis by (auto intro: order_trans)
  qed simp
qed

lemma heap_push_ok: "heap_ok key xs \<Longrightarrow> heap_ok key (heap_push (by_key key) x xs)"
proof -
  assume h: "heap_ok key xs"
  have "heap_above key (xs @ [x]) (length xs)"
    unfolding heap_above_def
  proof (intro conjI allI impI; elim conjE)
    fix c assume c: "0 < c" "c < length (xs @ [x])" "c \<noteq> length xs"
    then have "par c < length xs" "c < length xs" using par_less [of c] by auto
    then show "key ((xs @ [x]) ! c) \<le> key ((xs @ [x]) ! par c)"
      using h c(1) by (simp add: nth_append heap_ok_def)
  next
    fix c assume "0 < c" "c < length (xs @ [x])" "par c = length xs"
    then show "key ((xs @ [x]) ! c) \<le> key ((xs @ [x]) ! par (length xs))"
      using par_less [of c] by simp
  qed
  then show ?thesis unfolding heap_push_def by (intro heap_up_ok) simp_all
qed

lemma heap_push_perm: "mset (heap_push lt x xs) = add_mset x (mset xs)"
  by (simp add: heap_push_def heap_up_perm)

lemma heap_pop_spec:
  assumes "heap_ok key xs" "xs \<noteq> []" "heap_pop (by_key key) xs = (x, ys)"
  shows "heap_ok key ys \<and> mset xs = add_mset x (mset ys) \<and> (\<forall>y\<in>set xs. key y \<le> key x)"
proof -
  define n where "n = length xs - 1"
  define sw where "sw = swap 0 n xs"
  define zs where "zs = heap_down (by_key key) n sw 0"
  have n: "n < length xs" "0 < length xs" "length xs = Suc n" using assms(2) by (auto simp: n_def)
  have len: "length sw = length xs" "length zs = length xs" using n by (simp_all add: zs_def sw_def)
  have r: "x = zs ! n" "ys = take n zs"
    using assms(3) by (simp_all add: heap_pop_def Let_def zs_def sw_def n_def)
  have perm: "mset zs = mset xs" using heap_down_perm [of n sw 0 "by_key key"] n len by (simp add: zs_def sw_def)
  have x: "zs ! n = xs ! 0"
  proof (cases "n = 0")
    case True
    then have "zs = sw" by (simp add: zs_def heap_down.simps)
    then show ?thesis using True n by (simp add: sw_def nth_swap)
  next
    case False
    then have "zs ! n = sw ! n" using heap_down_perm [of n sw 0 "by_key key"] n len by (simp add: zs_def)
    then show ?thesis using n by (simp add: sw_def nth_swap)
  qed
  have below: "heap_below key n sw 0"
    unfolding heap_below_def
  proof (intro conjI allI impI; elim conjE)
    fix c assume c: "0 < c" "c < n" "par c \<noteq> 0"
    have "par c < n" using par_less [OF c(1)] c(2) by simp
    then have "sw ! c = xs ! c" "sw ! par c = xs ! par c"
      using c n nth_swap [OF n(2,1), of c] nth_swap [OF n(2,1), of "par c"] by (auto simp: sw_def)
    then show "key (sw ! c) \<le> key (sw ! par c)" using assms(1) c n by (simp add: heap_ok_def)
  qed simp
  have ok: "heap_ok key ys"
  proof (cases "n = 0")
    case True
    then show ?thesis by (simp add: r heap_ok_def)
  next
    case False
    then have h: "key (zs ! c) \<le> key (zs ! par c)" if "0 < c" "c < n" for c
      using heap_down_ok [OF _ _ below] n len that by (simp add: zs_def)
    have "par c < n" if "0 < c" "c < n" for c using par_less [of c] that by simp
    with h show ?thesis by (simp add: r heap_ok_def len)
  qed
  have "zs = take n zs @ [zs ! n]" using n len by (metis lessI take_Suc_conv_app_nth take_all_iff le_refl)
  then have "mset zs = mset (take n zs @ [zs ! n])" by (rule arg_cong)
  then have m: "mset xs = add_mset x (mset ys)" by (simp add: perm r)
  have "\<forall>y\<in>set xs. key y \<le> key x"
    using root_largest [OF assms(1)] by (auto simp: r x in_set_conv_nth)
  with ok m show ?thesis by blast
qed

section \<open>The contract\<close>

locale max_queue =
  fixes push :: "'a \<Rightarrow> 'q \<Rightarrow> 'q" and pop :: "'q \<Rightarrow> 'a \<times> 'q" and nil :: 'q
    and content :: "'q \<Rightarrow> 'a multiset" and key :: "'a \<Rightarrow> 'k::linorder" and ok :: "'q \<Rightarrow> bool"
  assumes nil_ok: "ok nil" "content nil = {#}"
    and push_ok: "ok q \<Longrightarrow> ok (push x q)"
    and push_content: "ok q \<Longrightarrow> content (push x q) = add_mset x (content q)"
    and pop_ok: "ok q \<Longrightarrow> content q \<noteq> {#} \<Longrightarrow> pop q = (x, q') \<Longrightarrow>
      ok q' \<and> content q = add_mset x (content q') \<and> (\<forall>y\<in>#content q. key y \<le> key x)"
begin

lemma push_all:
  "ok q \<Longrightarrow> ok (foldl (\<lambda>q x. push x q) q xs) \<and> content (foldl (\<lambda>q x. push x q) q xs) = content q + mset xs"
  by (induction xs arbitrary: q) (auto simp: push_ok push_content)

lemma pop_descending:
  "ok q \<Longrightarrow> content q \<noteq> {#} \<Longrightarrow> pop q = (x, q') \<Longrightarrow> content q' \<noteq> {#} \<Longrightarrow> pop q' = (y, q'') \<Longrightarrow> key y \<le> key x"
  using pop_ok [of q x q'] pop_ok [of q' y q''] by auto

lemma pop_mem: "ok q \<Longrightarrow> content q \<noteq> {#} \<Longrightarrow> pop q = (x, q') \<Longrightarrow> x \<in># content q"
  using pop_ok [of q x q'] by simp

end

interpretation heap: max_queue "heap_push (by_key key)" "heap_pop (by_key key)" "[]" mset key "heap_ok key"
  for key :: "'a \<Rightarrow> 'k::linorder"
proof (unfold_locales, goal_cases)
  case (3 q x)
  then show ?case by (rule heap_push_ok)
next
  case (5 q x q')
  then have r: "heap_ok key q'" "mset q = add_mset x (mset q')" "\<forall>y\<in>set q. key y \<le> key x"
    using heap_pop_spec [of key q x q'] by auto
  have "\<forall>y\<in>#mset q. key y \<le> key x" using r(3) by (simp only: set_mset_mset)
  then show ?case by (intro conjI r(1,2))
qed (simp_all add: heap_push_perm heap_ok_def)

end
