(* ===== verification/Config.thy ===== *)
theory Config
  imports Prelude Float64
begin

text \<open>
  \<open>internal/propagation/config.go\<close> and \<open>internal/ingest/config.go\<close>: the parameters of the
  propagation model and the configuration file. Reading the file and decoding YAML are arguments:
  \<open>unmarshal\<close> yields the structure with the zero value in every field the document does not set.
\<close>

section \<open>Definitions\<close>

record Config =
  cf_BaseDwellSecs :: int
  cf_DwellElasticity :: float64
  cf_LoadIncreasePct :: float64
  cf_ConfidenceDecay :: float64
  cf_MinConfidence :: float64
  cf_MinDelayThreshold :: int32
  cf_MaxDepth :: int
  cf_MaxImpacts :: int
  cf_PerStopMinCount :: int

definition DefaultConfig :: Config where
  "DefaultConfig =
     \<lparr>cf_BaseDwellSecs = 30, cf_DwellElasticity = f64 (3 / 10), cf_LoadIncreasePct = f64 (15 / 100),
      cf_ConfidenceDecay = f64 (7 / 10), cf_MinConfidence = f64 (2 / 10), cf_MinDelayThreshold = 15,
      cf_MaxDepth = 5, cf_MaxImpacts = 100, cf_PerStopMinCount = 5\<rparr>"

definition or_default :: "'a::zero \<Rightarrow> 'a \<Rightarrow> 'a" where
  \<comment> \<open>\<open>if c.F == 0 { c.F = d.F }\<close>\<close>
  "or_default d x = (if x = 0 then d else x)"

definition WithDefaults :: "Config \<Rightarrow> Config" where
  "WithDefaults c =
     (let d = DefaultConfig
      in \<lparr>cf_BaseDwellSecs = or_default (cf_BaseDwellSecs d) (cf_BaseDwellSecs c),
          cf_DwellElasticity = or_default (cf_DwellElasticity d) (cf_DwellElasticity c),
          cf_LoadIncreasePct = or_default (cf_LoadIncreasePct d) (cf_LoadIncreasePct c),
          cf_ConfidenceDecay = or_default (cf_ConfidenceDecay d) (cf_ConfidenceDecay c),
          cf_MinConfidence = or_default (cf_MinConfidence d) (cf_MinConfidence c),
          cf_MinDelayThreshold = or_default (cf_MinDelayThreshold d) (cf_MinDelayThreshold c),
          cf_MaxDepth = or_default (cf_MaxDepth d) (cf_MaxDepth c),
          cf_MaxImpacts = or_default (cf_MaxImpacts d) (cf_MaxImpacts c),
          cf_PerStopMinCount = or_default (cf_PerStopMinCount d) (cf_PerStopMinCount c)\<rparr>)"

text \<open>Durations are nanoseconds.\<close>

record FeedConfig =
  fc_Name :: string
  fc_URL :: string
  fc_PollInterval :: int64
  fc_Routes :: "string list"

record FileConfig =
  ic_AgencyID :: string
  ic_Feeds :: "FeedConfig list"
  ic_PollingDefaultInterval :: int64
  ic_KafkaBrokers :: "string list"
  ic_KafkaTopic :: string
  ic_Propagation :: Config

datatype config_error = CE_read | CE_parse

definition feed_default :: "int64 \<Rightarrow> FeedConfig \<Rightarrow> FeedConfig" where
  "feed_default d fc = (if fc_PollInterval fc = 0 then fc\<lparr>fc_PollInterval := d\<rparr> else fc)"

definition config_defaults :: "FileConfig \<Rightarrow> FileConfig" where
  "config_defaults cfg0 =
     (let cfg1 = (if ic_PollingDefaultInterval cfg0 = 0
                  then cfg0\<lparr>ic_PollingDefaultInterval := 15 * 1000000000\<rparr> else cfg0);
          cfg2 = (if ic_KafkaTopic cfg1 = [] then cfg1\<lparr>ic_KafkaTopic := ''delay-events''\<rparr> else cfg1);
          cfg3 = cfg2\<lparr>ic_Feeds := map (feed_default (ic_PollingDefaultInterval cfg2)) (ic_Feeds cfg2)\<rparr>
      in cfg3\<lparr>ic_Propagation := WithDefaults (ic_Propagation cfg3)\<rparr>)"

definition LoadConfig ::
  "(string \<Rightarrow> 'b option) \<Rightarrow> ('b \<Rightarrow> FileConfig option) \<Rightarrow> string \<Rightarrow> config_error + FileConfig" where
  "LoadConfig ReadFile unmarshal path =
     (case ReadFile path of
        None \<Rightarrow> Inl CE_read
      | Some data \<Rightarrow>
          (case unmarshal data of
             None \<Rightarrow> Inl CE_parse
           | Some cfg \<Rightarrow> Inr (config_defaults cfg)))"

section \<open>Merging with the defaults\<close>

lemma or_default_simps [simp]: "or_default d 0 = d" "x \<noteq> 0 \<Longrightarrow> or_default d x = x"
  by (simp_all add: or_default_def)

lemma or_default_nonzero: "d \<noteq> 0 \<Longrightarrow> or_default d x \<noteq> 0"
  by (simp add: or_default_def)

lemma or_default_cases: "P d \<Longrightarrow> (x \<noteq> 0 \<Longrightarrow> P x) \<Longrightarrow> P (or_default d x)"
  by (simp add: or_default_def)

lemma default_literals [simp]:
  "0 < f64 (1 / 5)" "0 < f64 (3 / 10)" "0 < f64 (3 / 20)" "0 < f64 (7 / 10)"
  "f64 (1 / 5) \<le> 1" "f64 (7 / 10) \<le> 1"
  by (simp_all add: f64_pos f64_le_1)

text \<open>Every parameter is set, and the probabilities are probabilities.\<close>

definition config_set :: "Config \<Rightarrow> bool" where
  "config_set c \<longleftrightarrow>
     cf_BaseDwellSecs c \<noteq> 0 \<and> cf_DwellElasticity c \<noteq> 0 \<and> cf_LoadIncreasePct c \<noteq> 0
     \<and> cf_ConfidenceDecay c \<noteq> 0 \<and> cf_MinConfidence c \<noteq> 0 \<and> cf_MinDelayThreshold c \<noteq> 0
     \<and> cf_MaxDepth c \<noteq> 0 \<and> cf_MaxImpacts c \<noteq> 0 \<and> cf_PerStopMinCount c \<noteq> 0"

definition sane_config :: "Config \<Rightarrow> bool" where
  "sane_config c \<longleftrightarrow>
     0 < cf_ConfidenceDecay c \<and> cf_ConfidenceDecay c \<le> 1
     \<and> 0 < cf_MinConfidence c \<and> cf_MinConfidence c \<le> 1
     \<and> in_i32 (cf_MinDelayThreshold c) \<and> in_i32 (cf_MaxDepth c)"

lemma default_config_sane: "sane_config DefaultConfig" and default_config_set: "config_set DefaultConfig"
  by (simp_all add: sane_config_def config_set_def DefaultConfig_def in_i32_def less_imp_neq [THEN not_sym])

lemma with_defaults_set: "config_set (WithDefaults c)"
  using default_config_set
  by (simp add: config_set_def WithDefaults_def Let_def or_default_nonzero)

lemma with_defaults_id: "config_set c \<Longrightarrow> WithDefaults c = c"
  by (cases c) (simp add: config_set_def WithDefaults_def Let_def)

lemma with_defaults_idem: "WithDefaults (WithDefaults c) = WithDefaults c"
  by (simp add: with_defaults_id with_defaults_set)

section \<open>The loaded configuration\<close>

text \<open>\<open>LoadConfig\<close> fails exactly when the file cannot be read or parsed. A configuration it
  returns has every default filled in: the polling interval of every feed, the topic and every
  propagation parameter are set, the feeds keep their order, names and URLs, and filling in the
  defaults once more changes nothing.\<close>

lemma load_config_complete:
  "case LoadConfig ReadFile unmarshal path of
     Inl CE_read \<Rightarrow> ReadFile path = None
   | Inl CE_parse \<Rightarrow> \<exists>data. ReadFile path = Some data \<and> unmarshal data = None
   | Inr cfg \<Rightarrow>
       \<exists>data raw. ReadFile path = Some data \<and> unmarshal data = Some raw \<and>
         ic_PollingDefaultInterval cfg \<noteq> 0 \<and> ic_KafkaTopic cfg \<noteq> [] \<and>
         list_all (\<lambda>fc. fc_PollInterval fc \<noteq> 0) (ic_Feeds cfg) \<and>
         map fc_URL (ic_Feeds cfg) = map fc_URL (ic_Feeds raw) \<and>
         map fc_Name (ic_Feeds cfg) = map fc_Name (ic_Feeds raw) \<and>
         config_set (ic_Propagation cfg) \<and> config_defaults cfg = cfg"
proof (cases "ReadFile path")
  case (Some data)
  show ?thesis
  proof (cases "unmarshal data")
    case raw: (Some raw)
    have "feed_default d (feed_default d fc) = feed_default d fc" for d fc
      by (simp add: feed_default_def)
    then show ?thesis
      using Some raw
      by (auto simp: LoadConfig_def config_defaults_def Let_def list_all_iff feed_default_def
          with_defaults_set with_defaults_idem)
  qed (simp add: LoadConfig_def Some)
qed (simp add: LoadConfig_def)

end
