(* ===== verification/Propagation.thy ===== *)
theory Propagation
  imports Poller Transfers History GoHeap Config "HOL-Library.While_Combinator"
begin

text \<open>
  \<open>internal/propagation/engine.go\<close> and \<open>Publish\<close> of \<open>internal/propagation/kafka.go\<close>: the walk
  downstream of a broken transfer. Redis is threaded through the calls; \<open>now\<close> stands for the clock
  readings of one call. The state manager and the per-stop store may be absent, as nil is in the
  code. A queue item leaves out \<open>index\<close>, which the heap writes and nothing reads.
\<close>

section \<open>Definitions\<close>

definition shrinkageK :: float64 where "shrinkageK = 10"
definition maxConnectingDelayAddSecs :: float64 where "maxConnectingDelayAddSecs = 900"

record PropagationEngine =
  pe_graph :: TransitGraph
  pe_state :: bool \<comment> \<open>the state manager is there\<close>
  pe_stopHist :: bool \<comment> \<open>the per-stop store is there\<close>
  pe_agencyID :: string
  pe_cfg :: Config

definition NewPropagationEngine :: "TransitGraph \<Rightarrow> bool \<Rightarrow> bool \<Rightarrow> string \<Rightarrow> Config \<Rightarrow> PropagationEngine" where
  "NewPropagationEngine g mgr stopHist agencyID cfg =
     \<lparr>pe_graph = g, pe_state = mgr, pe_stopHist = stopHist, pe_agencyID = agencyID, pe_cfg = WithDefaults cfg\<rparr>"

record queueItem =
  qi_routeID :: string
  qi_stopID :: string
  qi_delay :: int32
  qi_confidence :: float64
  qi_hops :: int
  qi_impactType :: string
  qi_directionID :: int

text \<open>The queue is ordered by \<open>Less\<close>: larger delays first.\<close>

abbreviation push_item :: "queueItem \<Rightarrow> queueItem list \<Rightarrow> queueItem list" where
  "push_item \<equiv> heap_push (by_key qi_delay)"

abbreviation pop_item :: "queueItem list \<Rightarrow> queueItem \<times> queueItem list" where
  "pop_item \<equiv> heap_pop (by_key qi_delay)"

record walk =
  wk_pq :: "queueItem list"
  wk_visited :: "(string, bool) gomap"
  wk_live :: "(string, int32) gomap"
  wk_tod :: int
  wk_hour :: int

definition route_station :: "string \<Rightarrow> string \<Rightarrow> string" where
  "route_station routeID stationID = routeID @ '':'' @ stationID"

definition snapshotLiveDelays ::
  "'r RedisClient \<Rightarrow> PropagationEngine \<Rightarrow> 'r \<Rightarrow> (string, int32) gomap \<times> 'r" where
  "snapshotLiveDelays R e r =
     (if \<not> pe_state e then ([], r)
      else (case GetAllActiveDelays R (pe_agencyID e) r of
              (Inl _, r1) \<Rightarrow> ([], r1)
            | (Inr active, r1) \<Rightarrow>
                (foldl (\<lambda>out ds.
                   if sd_DelaySeconds ds \<le> 0 then out
                   else let key = route_station (sd_RouteID ds) (ParentStationID (pe_graph e) (sd_StopID ds))
                        in if sd_DelaySeconds ds > mgetd 0 out key then mput key (sd_DelaySeconds ds) out else out)
                 [] active, r1)))"

definition blend :: "int \<Rightarrow> float64 \<Rightarrow> float64 \<Rightarrow> int32" where
  \<comment> \<open>\<open>wgt*avg + (1-wgt)*model\<close> with \<open>wgt = n/(n+shrinkageK)\<close>, rounded\<close>
  "blend n avg model =
     (let wgt = f64 (i_to_f64 n / f64 (i_to_f64 n + shrinkageK))
      in f64_to_i32 (go_round (f64 (f64 (wgt * avg) + f64 (f64 (1 - wgt) * model)))))"

definition blendPerStop ::
  "'r RedisClient \<Rightarrow> PropagationEngine \<Rightarrow> int64 \<Rightarrow> int \<Rightarrow> string \<Rightarrow> string \<Rightarrow> int32 \<Rightarrow> 'r \<Rightarrow> int32 \<times> 'r" where
  "blendPerStop R e now hour routeID stopID modelDelay r =
     (if \<not> pe_stopHist e then (modelDelay, r)
      else (case GetAverageStopImpact R routeID (ParentStationID (pe_graph e) stopID) hour now r of
              (Inl _, r1) \<Rightarrow> (modelDelay, r1)
            | (Inr (avg, n), r1) \<Rightarrow>
                (if n < cf_PerStopMinCount (pe_cfg e) then modelDelay
                 else blend n avg (i_to_f64 modelDelay), r1)))"

definition extra_dwell :: "Config \<Rightarrow> int32" where
  "extra_dwell c =
     f64_to_i32 (go_round (f64 (f64 (i_to_f64 (cf_BaseDwellSecs c) * cf_LoadIncreasePct c) * cf_DwellElasticity c)))"

text \<open>The loop over the stops past the first; \<open>i\<close> is the loop counter.\<close>

fun seed_stops ::
  "'r RedisClient \<Rightarrow> PropagationEngine \<Rightarrow> int64 \<Rightarrow> string \<Rightarrow> int \<Rightarrow> float64 \<Rightarrow> int \<Rightarrow> string \<Rightarrow> int32 \<Rightarrow> nat
   \<Rightarrow> ScheduledStopTime list \<Rightarrow> walk \<times> 'r \<Rightarrow> walk \<times> 'r" where
  "seed_stops R e now routeID directionID baseConf hops impactType accumulated i [] st = st"
| "seed_stops R e now routeID directionID baseConf hops impactType accumulated i (stop # stops) st =
     (let accumulated1 = i32 (accumulated + extra_dwell (pe_cfg e));
          conf = f64 (baseConf * go_pow (cf_ConfidenceDecay (pe_cfg e)) (i + 1))
      in if conf < cf_MinConfidence (pe_cfg e) \<or> accumulated1 < cf_MinDelayThreshold (pe_cfg e) then st
         else (case st of (w, r) \<Rightarrow>
                (case blendPerStop R e now (wk_hour w) routeID (StopID stop) accumulated1 r of
                   (delay, r1) \<Rightarrow>
                     seed_stops R e now routeID directionID baseConf hops impactType accumulated1 (i + 1) stops
                       (w\<lparr>wk_pq := push_item \<lparr>qi_routeID = routeID, qi_stopID = StopID stop, qi_delay = delay,
                                     qi_confidence = conf, qi_hops = hops, qi_impactType = impactType,
                                     qi_directionID = directionID\<rparr> (wk_pq w)\<rparr>, r1))))"

definition seedDownstream ::
  "'r RedisClient \<Rightarrow> PropagationEngine \<Rightarrow> int64 \<Rightarrow> string \<Rightarrow> string \<Rightarrow> int \<Rightarrow> int32 \<Rightarrow> float64 \<Rightarrow> int \<Rightarrow> string
   \<Rightarrow> walk \<times> 'r \<Rightarrow> walk \<times> 'r" where
  "seedDownstream R e now routeID stationID directionID startDelay baseConf hops impactType st =
     (case GetDownstreamStops (pe_graph e) routeID stationID directionID of
        [] \<Rightarrow> st
      | first # rest \<Rightarrow>
          (case st of (w, r) \<Rightarrow>
             seed_stops R e now routeID directionID baseConf hops impactType startDelay 1 rest
               (w\<lparr>wk_pq := push_item \<lparr>qi_routeID = routeID, qi_stopID = StopID first, qi_delay = startDelay,
                             qi_confidence = baseConf, qi_hops = hops, qi_impactType = impactType,
                             qi_directionID = directionID\<rparr> (wk_pq w)\<rparr>, r)))"

definition deriveDirection :: "PropagationEngine \<Rightarrow> string \<Rightarrow> string \<Rightarrow> int \<Rightarrow> int \<times> bool" where
  "deriveDirection e routeID stationID tod =
     (case fst (NextDeparturesAfter (pe_graph e) stationID routeID tod 1) of
        [] \<Rightarrow> (0, False)
      | dep # _ \<Rightarrow>
          (case mget (TripDirection (pe_graph e)) (TripID dep) of None \<Rightarrow> (0, False) | Some d \<Rightarrow> (d, True)))"

text \<open>The item the body of the inner loop pushes, if it reaches the push.\<close>

definition cascade_item ::
  "PropagationEngine \<Rightarrow> walk \<Rightarrow> string \<Rightarrow> int32 \<Rightarrow> float64 \<Rightarrow> int \<Rightarrow> Transfer \<Rightarrow> string \<Rightarrow> queueItem option" where
  "cascade_item e w sourceRoute delay parentConf parentHops xfer toRoute =
     (let destParent = ParentStationID (pe_graph e) (ToStopID xfer);
          connDelay = mgetd 0 (wk_live w) (route_station toRoute destParent);
          newConf = f64 (parentConf * cf_ConfidenceDecay (pe_cfg e));
          newDelay = f64_to_i32 (f64 (i_to_f64 delay * cf_DwellElasticity (pe_cfg e)))
      in if toRoute = sourceRoute then None
         else if mgetd False (wk_visited w) (route_station toRoute destParent) then None
         else if delay < i64 (min_transfer_time xfer + connDelay) then None
         else if newConf < cf_MinConfidence (pe_cfg e) then None
         else if newDelay < cf_MinDelayThreshold (pe_cfg e) then None
         else Some \<lparr>qi_routeID = toRoute, qi_stopID = ToStopID xfer, qi_delay = newDelay,
                    qi_confidence = newConf, qi_hops = parentHops + 1, qi_impactType = ''cascade_transfer'',
                    qi_directionID = 0\<rparr>)"

definition push_cascade ::
  "PropagationEngine \<Rightarrow> string \<Rightarrow> int32 \<Rightarrow> float64 \<Rightarrow> int \<Rightarrow> Transfer \<Rightarrow> walk \<Rightarrow> string \<Rightarrow> walk" where
  "push_cascade e sourceRoute delay parentConf parentHops xfer w toRoute =
     (case cascade_item e w sourceRoute delay parentConf parentHops xfer toRoute of
        None \<Rightarrow> w | Some item \<Rightarrow> w\<lparr>wk_pq := push_item item (wk_pq w)\<rparr>)"

definition propagateTransfers ::
  "PropagationEngine \<Rightarrow> string \<Rightarrow> string \<Rightarrow> int32 \<Rightarrow> float64 \<Rightarrow> int \<Rightarrow> walk \<Rightarrow> walk" where
  "propagateTransfers e stationID sourceRoute delay parentConf parentHops w =
     foldl (\<lambda>w' xfer.
       foldl (\<lambda>w'' (toRoute, present). push_cascade e sourceRoute delay parentConf parentHops xfer w'' toRoute)
         w' (GetRoutesAtStop (pe_graph e) (ToStopID xfer)))
       w (GetTransfersFrom (pe_graph e) stationID)"

definition scheduled_estimate ::
  "location \<Rightarrow> PropagationEngine \<Rightarrow> int64 \<Rightarrow> TransferImpact \<Rightarrow> int \<Rightarrow> int32 \<Rightarrow> float64" where
  "scheduled_estimate local e now impact directionID connectingDelay =
     (if ti_FromRouteId impact \<noteq> [] \<and> ti_FromRouteId impact = ti_ToRouteId impact
      then i_to_f64 (ti_SourceDelaySeconds impact)
      else
        let c = pe_cfg e;
            tod = SecsSinceMidnight local now (Some (pe_graph e)) (ti_DetectedAt impact);
            (hw, hwOK) = GetScheduledHeadway (Some (pe_graph e)) (ti_ToRouteId impact) directionID
                           (ti_StationId impact) tod;
            wait = i_to_f64 (ti_AdditionalWaitSeconds impact);
            half = f64 (hw / 2);
            est1 = (if hwOK \<and> half > wait then half else wait);
            est2 = (if est1 \<le> 0
                    then f64 (f64 (i_to_f64 (ti_SourceDelaySeconds impact) * cf_LoadIncreasePct c) * cf_DwellElasticity c)
                    else est1);
            conn = i_to_f64 connectingDelay;
            add = (if hwOK then (if conn > hw then hw else conn)
                   else if conn > maxConnectingDelayAddSecs then maxConnectingDelayAddSecs else conn)
        in if connectingDelay > 0 then f64 (est2 + add) else est2)"

definition estimateInitialDelay ::
  "location \<Rightarrow> PropagationEngine \<Rightarrow> int64 \<Rightarrow> TransferImpact \<Rightarrow> int \<Rightarrow> int32 \<Rightarrow> float64 \<Rightarrow> int \<Rightarrow> int32" where
  "estimateInitialDelay local e now impact directionID connectingDelay histAvg histCount =
     blend histCount histAvg (scheduled_estimate local e now impact directionID connectingDelay)"

text \<open>One round of the queue loop, split at its two guards.\<close>

definition item_impact :: "PropagationEngine \<Rightarrow> queueItem \<Rightarrow> DownstreamImpact" where
  "item_impact e item =
     \<lparr>di_RouteId = qi_routeID item, di_StopId = ParentStationID (pe_graph e) (qi_stopID item),
      di_PredictedAdditionalDelay = qi_delay item, di_Confidence = f32 (qi_confidence item),
      di_HopsFromSource = i32 (qi_hops item), di_ImpactType = qi_impactType item\<rparr>"

definition expand ::
  "'r RedisClient \<Rightarrow> PropagationEngine \<Rightarrow> int64 \<Rightarrow> queueItem \<Rightarrow> walk \<times> 'r \<Rightarrow> walk \<times> 'r" where
  "expand R e now item st =
     (case st of (w, r) \<Rightarrow>
        if qi_hops item < cf_MaxDepth (pe_cfg e) \<and> qi_delay item \<ge> cf_MinDelayThreshold (pe_cfg e) then
          let parentID = ParentStationID (pe_graph e) (qi_stopID item);
              w1 = propagateTransfers e parentID (qi_routeID item) (qi_delay item) (qi_confidence item) (qi_hops item) w
          in if qi_impactType item = ''cascade_transfer''
             then (case deriveDirection e (qi_routeID item) parentID (wk_tod w) of
                     (dir, ok) \<Rightarrow>
                       if ok then seedDownstream R e now (qi_routeID item) parentID dir (qi_delay item)
                                    (qi_confidence item) (qi_hops item) ''cascade_dwell'' (w1, r)
                       else (w1, r))
             else (w1, r)
        else st)"

type_synonym 'r walk_state = "walk \<times> DownstreamImpact list \<times> 'r"

definition walk_more :: "PropagationEngine \<Rightarrow> 'r walk_state \<Rightarrow> bool" where
  "walk_more e s = (case s of (w, impacts, r) \<Rightarrow>
     wk_pq w \<noteq> [] \<and> int (length impacts) < cf_MaxImpacts (pe_cfg e))"

definition walk_step :: "'r RedisClient \<Rightarrow> PropagationEngine \<Rightarrow> int64 \<Rightarrow> 'r walk_state \<Rightarrow> 'r walk_state" where
  "walk_step R e now s = (case s of (w, impacts, r) \<Rightarrow>
     (case pop_item (wk_pq w) of (item, pq) \<Rightarrow>
        let key = route_station (qi_routeID item) (ParentStationID (pe_graph e) (qi_stopID item));
            w0 = w\<lparr>wk_pq := pq\<rparr>
        in if mgetd False (wk_visited w) key then (w0, impacts, r)
           else let w1 = w0\<lparr>wk_visited := mput key True (wk_visited w)\<rparr>
                in (case expand R e now item (w1, r) of (w2, r2) \<Rightarrow> (w2, impacts @ [item_impact e item], r2))))"

text \<open>\<open>Propagate\<close>; \<open>None\<close> would be a walk that never ends.\<close>

definition impact_direction :: "PropagationEngine \<Rightarrow> TransferImpact \<Rightarrow> int" where
  "impact_direction e impact =
     (if ti_NextViableTripId impact \<noteq> []
      then mgetd 0 (TripDirection (pe_graph e)) (ti_NextViableTripId impact) else 0)"

definition walk_hour :: "location \<Rightarrow> PropagationEngine \<Rightarrow> int64 \<Rightarrow> TransferImpact \<Rightarrow> int" where
  "walk_hour local e now impact =
     tmod (tdiv (SecsSinceMidnight local now (Some (pe_graph e)) (ti_DetectedAt impact)) 3600) 24"

definition historical_impact ::
  "'r RedisClient \<Rightarrow> location \<Rightarrow> PropagationEngine \<Rightarrow> int64 \<Rightarrow> TransferImpact \<Rightarrow> 'r
   \<Rightarrow> (redis_error + float64 \<times> int) \<times> 'r" where
  "historical_impact R local e now impact r =
     GetAverageImpact R (ti_FromRouteId impact) (ti_ToRouteId impact)
       (ParentStationID (pe_graph e) (ti_StationId impact)) (walk_hour local e now impact) now r"

definition walk_start ::
  "'r RedisClient \<Rightarrow> location \<Rightarrow> PropagationEngine \<Rightarrow> int64 \<Rightarrow> TransferImpact \<Rightarrow> 'r \<Rightarrow> walk \<times> 'r" where
  "walk_start R local e now impact r =
     (let g = pe_graph e;
          toRoute = ti_ToRouteId impact;
          stationID = ti_StationId impact;
          directionID = impact_direction e impact;
          tod = SecsSinceMidnight local now (Some g) (ti_DetectedAt impact)
      in case snapshotLiveDelays R e r of
           (live, r1) \<Rightarrow>
             let w = \<lparr>wk_pq = [], wk_visited = [], wk_live = live, wk_tod = tod, wk_hour = walk_hour local e now impact\<rparr>
             in (case historical_impact R local e now impact r1 of
                   (hist, r2) \<Rightarrow>
                     let (histAvg, histCount) = (case hist of Inl _ \<Rightarrow> (0, 0) | Inr ac \<Rightarrow> ac);
                         connDelay = mgetd 0 live (route_station toRoute (ParentStationID g stationID));
                         initialDelay = estimateInitialDelay local e now impact directionID connDelay histAvg histCount
                     in seedDownstream R e now toRoute stationID directionID initialDelay 1 1 ''dwell_increase'' (w, r2)))"

definition Propagate ::
  "'r RedisClient \<Rightarrow> location \<Rightarrow> PropagationEngine \<Rightarrow> int64 \<Rightarrow> TransferImpact \<Rightarrow> 'r
   \<Rightarrow> (PropagationResult \<times> 'r) option" where
  "Propagate R local e now impact r =
     (case walk_start R local e now impact r of
        (w, r1) \<Rightarrow>
          (case while_option (walk_more e) (walk_step R e now) (w, [], r1) of
             None \<Rightarrow> None
           | Some (w', impacts, r2) \<Rightarrow>
               Some (\<lparr>pr_SourceTripId = ti_FromTripId impact, pr_SourceStopId = ti_StationId impact,
                      pr_SourceDelaySeconds = ti_SourceDelaySeconds impact, pr_Impacts = impacts,
                      pr_ComputedAt = now\<rparr>, r2)))"

definition KafkaPredictionPublisher_Publish ::
  "(PropagationResult \<Rightarrow> 'b option) \<Rightarrow> ('b ProducerMessage \<Rightarrow> 'w \<Rightarrow> bool \<times> 'w) \<Rightarrow> string
   \<Rightarrow> PropagationResult \<Rightarrow> 'w \<Rightarrow> bool \<times> 'w" where
  "KafkaPredictionPublisher_Publish marshal SendMessage topic result w =
     (case marshal result of
        None \<Rightarrow> (False, w)
      | Some payload \<Rightarrow> SendMessage \<lparr>pm_Topic = topic, pm_Key = pr_SourceStopId result, pm_Value = payload\<rparr> w)"

end
