(* ===== verification/PropagationProps.thy ===== *)
theory PropagationProps
  imports Propagation GraphProps
begin

text \<open>
  What a propagation reports. The invariant \<open>walk_inv\<close> of the queue loop ties every queued and every
  reported item to where it came from (\<open>origin\<close>); the properties follow from it at the end of the walk.
\<close>

section \<open>The queue\<close>

lemma set_push [simp]: "set (push_item x q) = insert x (set q)"
  by (metis heap_push_perm set_mset_add_mset_insert set_mset_mset)

lemma pop_queue:
  assumes "heap_ok qi_delay q" "q \<noteq> []" "pop_item q = (x, q')"
  shows "heap_ok qi_delay q'" "set q = insert x (set q')" "length q = Suc (length q')"
    "\<forall>y\<in>set q. qi_delay y \<le> qi_delay x"
proof -
  from heap_pop_spec [OF assms] have h: "heap_ok qi_delay q'" "mset q = add_mset x (mset q')"
    "\<forall>y\<in>set q. qi_delay y \<le> qi_delay x" by blast+
  then show "heap_ok qi_delay q'" "\<forall>y\<in>set q. qi_delay y \<le> qi_delay x" by blast+
  from h(2) have "set_mset (mset q) = insert x (set_mset (mset q'))" by simp
  then show "set q = insert x (set q')" by simp
  from h(2) have "size (mset q) = Suc (size (mset q'))" by simp
  then show "length q = Suc (length q')" by simp
qed

text \<open>\<open>grown Q w w'\<close>: the walk only pushed items with \<open>Q\<close>.\<close>

definition grown :: "(queueItem \<Rightarrow> bool) \<Rightarrow> walk \<Rightarrow> walk \<Rightarrow> bool" where
  "grown Q w w' \<longleftrightarrow>
     wk_live w' = wk_live w \<and> wk_visited w' = wk_visited w \<and> wk_tod w' = wk_tod w
     \<and> (heap_ok qi_delay (wk_pq w) \<longrightarrow> heap_ok qi_delay (wk_pq w'))
     \<and> (\<forall>q\<in>set (wk_pq w'). q \<in> set (wk_pq w) \<or> Q q)"

lemma grown_refl [simp]: "grown Q w w"
  by (simp add: grown_def)

lemma grown_trans: "grown Q w w' \<Longrightarrow> grown Q w' w'' \<Longrightarrow> grown Q w w''"
  unfolding grown_def by metis

lemma grown_mono: "grown Q w w' \<Longrightarrow> (\<And>q. Q q \<Longrightarrow> P q) \<Longrightarrow> grown P w w'"
  unfolding grown_def by blast

lemma grown_push: "Q item \<Longrightarrow> grown Q w (w\<lparr>wk_pq := push_item item (wk_pq w)\<rparr>)"
  by (auto simp: grown_def heap_push_ok)

lemma grown_foldl:
  "(\<And>v x. x \<in> set xs \<Longrightarrow> wk_live v = live \<Longrightarrow> grown Q v (f v x)) \<Longrightarrow> wk_live w = live \<Longrightarrow> grown Q w (foldl f w xs)"
proof (induction xs arbitrary: w)
  case (Cons x xs)
  from Cons.prems have 1: "grown Q w (f w x)" by simp
  then have "wk_live (f w x) = live" using Cons.prems(2) by (simp add: grown_def)
  then have "grown Q (f w x) (foldl f (f w x) xs)" using Cons by simp
  with 1 show ?case using grown_trans by fastforce
qed simp

section \<open>Confidence\<close>

lemma f64_prob: "0 \<le> x \<Longrightarrow> x \<le> 1 \<Longrightarrow> 0 \<le> f64 x \<and> f64 x \<le> 1"
  by (simp add: f64_nonneg f64_le_1)

lemma prob_mult: "0 \<le> a \<Longrightarrow> a \<le> 1 \<Longrightarrow> 0 \<le> b \<Longrightarrow> b \<le> (1::rat) \<Longrightarrow> 0 \<le> a * b \<and> a * b \<le> 1"
  by (simp add: mult_le_one)

lemma pow_loop_prob:
  "0 \<le> a \<Longrightarrow> a \<le> 1 \<Longrightarrow> 0 \<le> b \<Longrightarrow> b \<le> 1 \<Longrightarrow> 0 \<le> pow_loop a b i \<and> pow_loop a b i \<le> 1"
proof (induction a b i rule: pow_loop.induct)
  case (1 a b i)
  show ?case
  proof (cases "i = 0")
    case False
    then show ?thesis
      using "1.IH" "1.prems" f64_prob [of "a * b"] f64_prob [of "b * b"] prob_mult [of a b] prob_mult [of b b]
      by (subst (1 2) pow_loop.simps) simp
  qed (use "1.prems" in \<open>simp add: pow_loop.simps\<close>)
qed

lemma go_pow_prob: "0 \<le> x \<Longrightarrow> x \<le> 1 \<Longrightarrow> 0 \<le> go_pow x n \<and> go_pow x n \<le> 1"
  by (simp add: go_pow_def pow_loop_prob)

lemma conf_le_1:
  assumes "sane_config c" "x \<le> 1" "0 \<le> x"
  shows "f64 (x * cf_ConfidenceDecay c) \<le> 1" "f64 (x * go_pow (cf_ConfidenceDecay c) n) \<le> 1"
  using assms prob_mult [of x "cf_ConfidenceDecay c"] prob_mult [of x "go_pow (cf_ConfidenceDecay c) n"]
    go_pow_prob [of "cf_ConfidenceDecay c" n]
  by (simp_all add: sane_config_def f64_le_1)

definition conf_ok :: "Config \<Rightarrow> queueItem \<Rightarrow> bool" where
  "conf_ok c item \<longleftrightarrow> cf_MinConfidence c \<le> qi_confidence item \<and> qi_confidence item \<le> 1"

section \<open>Where items come from\<close>

text \<open>The stops after \<open>stationID\<close> on the route and direction, with a confidence in range if the
  base confidence is.\<close>

definition seeded ::
  "PropagationEngine \<Rightarrow> string \<Rightarrow> string \<Rightarrow> int \<Rightarrow> int \<Rightarrow> string \<Rightarrow> float64 \<Rightarrow> queueItem \<Rightarrow> bool" where
  "seeded e routeID stationID dir hops impactType baseConf item \<longleftrightarrow>
     qi_routeID item = routeID \<and> qi_hops item = hops \<and> qi_impactType item = impactType
     \<and> qi_stopID item \<in> StopID ` set (GetDownstreamStops (pe_graph e) routeID stationID dir)
     \<and> (sane_config (pe_cfg e) \<and> cf_MinConfidence (pe_cfg e) \<le> baseConf \<and> baseConf \<le> 1 \<longrightarrow> conf_ok (pe_cfg e) item)"

lemma seed_stops_grown:
  assumes "seed_stops R e now routeID dir baseConf hops impactType acc i stops (w, r) = (w', r')"
    and "set stops \<subseteq> set (GetDownstreamStops (pe_graph e) routeID stationID dir)"
  shows "grown (seeded e routeID stationID dir hops impactType baseConf) w w'"
  using assms
proof (induction stops arbitrary: acc i w r)
  case (Cons stop stops)
  let ?acc = "i32 (acc + extra_dwell (pe_cfg e))"
  let ?conf = "f64 (baseConf * go_pow (cf_ConfidenceDecay (pe_cfg e)) (i + 1))"
  show ?case
  proof (cases "?conf < cf_MinConfidence (pe_cfg e) \<or> ?acc < cf_MinDelayThreshold (pe_cfg e)")
    case False
    obtain delay r1 where b: "blendPerStop R e now (wk_hour w) routeID (StopID stop) ?acc r = (delay, r1)"
      by fastforce
    define item where "item = \<lparr>qi_routeID = routeID, qi_stopID = StopID stop, qi_delay = delay,
      qi_confidence = ?conf, qi_hops = hops, qi_impactType = impactType, qi_directionID = dir\<rparr>"
    have "?conf \<le> 1"
      if "sane_config (pe_cfg e)" "cf_MinConfidence (pe_cfg e) \<le> baseConf" "baseConf \<le> 1"
      using that conf_le_1(2) [OF that(1,3)] by (simp add: sane_config_def)
    then have "seeded e routeID stationID dir hops impactType baseConf item"
      using False Cons.prems(2) by (auto simp: seeded_def item_def conf_ok_def)
    moreover have "grown (seeded e routeID stationID dir hops impactType baseConf)
        (w\<lparr>wk_pq := push_item item (wk_pq w)\<rparr>) w'"
      using Cons.IH [of ?acc "i + 1" "w\<lparr>wk_pq := push_item item (wk_pq w)\<rparr>" r1] Cons.prems False b
      by (simp add: Let_def item_def)
    ultimately show ?thesis using grown_push grown_trans by blast
  qed (use Cons.prems in \<open>auto simp: Let_def\<close>)
qed simp

lemma seedDownstream_grown:
  assumes "seedDownstream R e now routeID stationID dir startDelay baseConf hops impactType (w, r) = (w', r')"
  shows "grown (seeded e routeID stationID dir hops impactType baseConf) w w'"
proof (cases "GetDownstreamStops (pe_graph e) routeID stationID dir")
  case (Cons first rest)
  define item where "item = \<lparr>qi_routeID = routeID, qi_stopID = StopID first, qi_delay = startDelay,
      qi_confidence = baseConf, qi_hops = hops, qi_impactType = impactType, qi_directionID = dir\<rparr>"
  have "seeded e routeID stationID dir hops impactType baseConf item"
    by (simp add: seeded_def item_def Cons conf_ok_def)
  moreover have "grown (seeded e routeID stationID dir hops impactType baseConf)
      (w\<lparr>wk_pq := push_item item (wk_pq w)\<rparr>) w'"
    by (rule seed_stops_grown [of R e now routeID dir baseConf hops impactType startDelay 1 rest _ r _ r'])
      (use assms Cons in \<open>auto simp: seedDownstream_def item_def\<close>)
  ultimately show ?thesis using grown_push grown_trans by blast
qed (use assms in \<open>simp add: seedDownstream_def\<close>)

text \<open>A connection that the delay at \<open>stationID\<close> breaks.\<close>

definition breaks ::
  "PropagationEngine \<Rightarrow> (string, int32) gomap \<Rightarrow> string \<Rightarrow> string \<Rightarrow> int32 \<Rightarrow> Transfer \<Rightarrow> string \<Rightarrow> bool" where
  "breaks e live stationID sourceRoute delay xfer toRoute \<longleftrightarrow>
     xfer \<in> set (GetTransfersFrom (pe_graph e) stationID)
     \<and> toRoute \<in> fst ` set (GetRoutesAtStop (pe_graph e) (ToStopID xfer)) \<and> toRoute \<noteq> sourceRoute
     \<and> i64 (min_transfer_time xfer + mgetd 0 live (route_station toRoute (ParentStationID (pe_graph e) (ToStopID xfer))))
        \<le> delay"

definition damped :: "PropagationEngine \<Rightarrow> int32 \<Rightarrow> int32" where
  "damped e delay = f64_to_i32 (f64 (i_to_f64 delay * cf_DwellElasticity (pe_cfg e)))"

definition cascaded :: "PropagationEngine \<Rightarrow> (string, int32) gomap \<Rightarrow> queueItem \<Rightarrow> queueItem \<Rightarrow> bool" where
  "cascaded e live p item \<longleftrightarrow>
     (\<exists>xfer. breaks e live (ParentStationID (pe_graph e) (qi_stopID p)) (qi_routeID p) (qi_delay p) xfer (qi_routeID item)
        \<and> qi_stopID item = ToStopID xfer)
     \<and> qi_delay item = damped e (qi_delay p) \<and> cf_MinDelayThreshold (pe_cfg e) \<le> qi_delay item
     \<and> qi_hops item = qi_hops p + 1 \<and> qi_impactType item = ''cascade_transfer''
     \<and> (sane_config (pe_cfg e) \<and> conf_ok (pe_cfg e) p \<longrightarrow> conf_ok (pe_cfg e) item)"

lemma push_cascade_grown:
  assumes "xfer \<in> set (GetTransfersFrom (pe_graph e) (ParentStationID (pe_graph e) (qi_stopID p)))"
    and "(toRoute, b) \<in> set (GetRoutesAtStop (pe_graph e) (ToStopID xfer))" and "wk_live w = live"
  shows "grown (cascaded e live p) w
     (push_cascade e (qi_routeID p) (qi_delay p) (qi_confidence p) (qi_hops p) xfer w toRoute)"
proof (cases "cascade_item e w (qi_routeID p) (qi_delay p) (qi_confidence p) (qi_hops p) xfer toRoute")
  case (Some item)
  have f: "qi_routeID item = toRoute" "qi_stopID item = ToStopID xfer" "qi_delay item = damped e (qi_delay p)"
    "cf_MinDelayThreshold (pe_cfg e) \<le> qi_delay item" "qi_hops item = qi_hops p + 1"
    "qi_impactType item = ''cascade_transfer''"
    "qi_confidence item = f64 (qi_confidence p * cf_ConfidenceDecay (pe_cfg e))"
    "cf_MinConfidence (pe_cfg e) \<le> qi_confidence item"
    using Some by (auto simp: cascade_item_def Let_def damped_def split: if_splits)
  have "toRoute \<in> fst ` set (GetRoutesAtStop (pe_graph e) (ToStopID xfer))"
    using assms(2) by (rule image_eqI [rotated]) simp
  then have "breaks e live (ParentStationID (pe_graph e) (qi_stopID p)) (qi_routeID p) (qi_delay p) xfer toRoute"
    using Some assms(1,3) by (auto simp: cascade_item_def Let_def breaks_def split: if_splits)
  moreover have "conf_ok (pe_cfg e) item" if "sane_config (pe_cfg e)" "conf_ok (pe_cfg e) p"
    using conf_le_1(1) [of "pe_cfg e" "qi_confidence p"] that f(7,8) by (auto simp: conf_ok_def sane_config_def)
  ultimately have "cascaded e live p item" using f(1-6) by (auto simp: cascaded_def)
  then show ?thesis by (simp add: push_cascade_def Some grown_push)
qed (simp add: push_cascade_def)

lemma propagateTransfers_grown:
  "grown (cascaded e (wk_live w) p) w
     (propagateTransfers e (ParentStationID (pe_graph e) (qi_stopID p)) (qi_routeID p) (qi_delay p)
        (qi_confidence p) (qi_hops p) w)"
  unfolding propagateTransfers_def
  by (intro grown_foldl [where live = "wk_live w"]) (auto intro: push_cascade_grown)

definition expandable :: "PropagationEngine \<Rightarrow> queueItem \<Rightarrow> bool" where
  "expandable e p \<longleftrightarrow> qi_hops p < cf_MaxDepth (pe_cfg e) \<and> cf_MinDelayThreshold (pe_cfg e) \<le> qi_delay p"

definition rippled :: "PropagationEngine \<Rightarrow> int \<Rightarrow> queueItem \<Rightarrow> queueItem \<Rightarrow> bool" where
  "rippled e tod p item \<longleftrightarrow>
     qi_impactType p = ''cascade_transfer'' \<and>
     (\<exists>dir. deriveDirection e (qi_routeID p) (ParentStationID (pe_graph e) (qi_stopID p)) tod = (dir, True)
        \<and> seeded e (qi_routeID p) (ParentStationID (pe_graph e) (qi_stopID p)) dir (qi_hops p) ''cascade_dwell''
             (qi_confidence p) item)"

definition spawned :: "PropagationEngine \<Rightarrow> (string, int32) gomap \<Rightarrow> int \<Rightarrow> queueItem \<Rightarrow> queueItem \<Rightarrow> bool" where
  "spawned e live tod p item \<longleftrightarrow> expandable e p \<and> (cascaded e live p item \<or> rippled e tod p item)"

lemma expand_grown:
  assumes "expand R e now p (w, r) = (w', r')"
  shows "grown (spawned e (wk_live w) (wk_tod w) p) w w'"
proof (cases "expandable e p")
  case True
  let ?s = "ParentStationID (pe_graph e) (qi_stopID p)"
  define w1 where "w1 = propagateTransfers e ?s (qi_routeID p) (qi_delay p) (qi_confidence p) (qi_hops p) w"
  have 1: "grown (spawned e (wk_live w) (wk_tod w) p) w w1"
    unfolding w1_def by (rule grown_mono [OF propagateTransfers_grown]) (simp add: spawned_def True)
  obtain dir ok where d: "deriveDirection e (qi_routeID p) ?s (wk_tod w) = (dir, ok)" by fastforce
  show ?thesis
  proof (cases "qi_impactType p = ''cascade_transfer'' \<and> ok")
    case cascade: True
    have "grown (seeded e (qi_routeID p) ?s dir (qi_hops p) ''cascade_dwell'' (qi_confidence p)) w1 w'"
      by (rule seedDownstream_grown [of R e now _ _ _ "qi_delay p" _ _ _ w1 r w' r'])
        (use assms True cascade d in \<open>simp add: expand_def expandable_def w1_def Let_def\<close>)
    then have "grown (spawned e (wk_live w) (wk_tod w) p) w1 w'"
      by (rule grown_mono) (use True cascade d in \<open>auto simp: spawned_def rippled_def\<close>)
    with 1 show ?thesis by (rule grown_trans)
  next
    case False
    then have "w' = w1"
      using assms True d by (auto simp: expand_def expandable_def w1_def Let_def split: if_splits)
    with 1 show ?thesis by simp
  qed
qed (use assms in \<open>auto simp: expand_def expandable_def\<close>)

section \<open>The invariant of the queue loop\<close>

definition chain :: "('a list \<Rightarrow> 'a \<Rightarrow> bool) \<Rightarrow> 'a list \<Rightarrow> bool" where
  "chain P xs \<longleftrightarrow> (\<forall>k<length xs. P (take k xs) (xs ! k))"

lemma chain_Nil [simp]: "chain P []"
  by (simp add: chain_def)

lemma chain_snoc [simp]: "chain P (xs @ [x]) \<longleftrightarrow> chain P xs \<and> P xs x"
  by (auto simp: chain_def nth_append less_Suc_eq)

definition origin ::
  "PropagationEngine \<Rightarrow> (string, int32) gomap \<Rightarrow> int \<Rightarrow> TransferImpact \<Rightarrow> queueItem list \<Rightarrow> queueItem \<Rightarrow> bool" where
  "origin e live tod src before item \<longleftrightarrow>
     seeded e (ti_ToRouteId src) (ti_StationId src) (impact_direction e src) 1 ''dwell_increase'' 1 item
     \<or> (\<exists>p\<in>set before. spawned e live tod p item)"

lemma origin_mono: "origin e live tod src before item \<Longrightarrow> set before \<subseteq> set before' \<Longrightarrow> origin e live tod src before' item"
  unfolding origin_def by blast

definition largest_first :: "queueItem list \<Rightarrow> queueItem \<Rightarrow> bool" where
  "largest_first before item \<longleftrightarrow>
     (qi_impactType item = ''dwell_increase'' \<longrightarrow> (\<forall>p\<in>set before. qi_delay item \<le> qi_delay p))"

definition item_key :: "PropagationEngine \<Rightarrow> queueItem \<Rightarrow> string" where
  "item_key e item = route_station (qi_routeID item) (ParentStationID (pe_graph e) (qi_stopID item))"

definition items_inv ::
  "PropagationEngine \<Rightarrow> (string, int32) gomap \<Rightarrow> int \<Rightarrow> TransferImpact \<Rightarrow> walk \<Rightarrow> queueItem list \<Rightarrow> bool" where
  "items_inv e live tod src w reported \<longleftrightarrow>
     wk_live w = live \<and> wk_tod w = tod \<and> heap_ok qi_delay (wk_pq w)
     \<and> (\<forall>k. mgetd False (wk_visited w) k \<longleftrightarrow> k \<in> item_key e ` set reported) \<and> distinct (map (item_key e) reported)
     \<and> chain (origin e live tod src) reported \<and> (\<forall>q\<in>set (wk_pq w). origin e live tod src reported q)
     \<and> chain largest_first reported \<and> (\<forall>q\<in>set (wk_pq w). largest_first reported q)
     \<and> int (length reported) \<le> max 0 (cf_MaxImpacts (pe_cfg e))"

definition walk_inv ::
  "PropagationEngine \<Rightarrow> (string, int32) gomap \<Rightarrow> int \<Rightarrow> TransferImpact \<Rightarrow> 'r walk_state \<Rightarrow> bool" where
  "walk_inv e live tod src s \<longleftrightarrow>
     (case s of (w, impacts, r) \<Rightarrow> \<exists>reported. impacts = map (item_impact e) reported \<and> items_inv e live tod src w reported)"

text \<open>Reporting one item keeps the invariant.\<close>

lemma items_inv_report:
  assumes inv: "items_inv e live tod src w reported" and more: "int (length reported) < cf_MaxImpacts (pe_cfg e)"
    and pop: "wk_pq w \<noteq> []" "pop_item (wk_pq w) = (item, pq)"
    and new: "item_key e item \<notin> item_key e ` set reported"
    and grown: "grown (spawned e live tod item)
      (w\<lparr>wk_pq := pq, wk_visited := mput (item_key e item) True (wk_visited w)\<rparr>) w'"
  shows "items_inv e live tod src w' (reported @ [item])"
proof -
  have h: "heap_ok qi_delay (wk_pq w)" using inv by (simp add: items_inv_def)
  note p = pop_queue [OF h pop]
  have item: "origin e live tod src reported item" "largest_first reported item"
    using inv p(2) by (auto simp: items_inv_def)
  have queued: "origin e live tod src (reported @ [item]) q \<and> largest_first (reported @ [item]) q"
    if q: "q \<in> set (wk_pq w')" for q
  proof (cases "q \<in> set pq")
    case True
    then have "q \<in> set (wk_pq w)" using p(2) by simp
    then have "origin e live tod src reported q" "largest_first reported q" "qi_delay q \<le> qi_delay item"
      using inv p(4) by (auto simp: items_inv_def)
    then show ?thesis using origin_mono [of e live tod src reported q "reported @ [item]"] by (auto simp: largest_first_def)
  next
    case False
    then have sp: "spawned e live tod item q" using grown q by (auto simp: grown_def)
    then have "qi_impactType q \<noteq> ''dwell_increase''"
      by (auto simp: spawned_def cascaded_def rippled_def seeded_def)
    with sp show ?thesis by (auto simp: origin_def largest_first_def)
  qed
  have frame: "wk_live w' = live" "wk_tod w' = tod" "heap_ok qi_delay (wk_pq w')"
    "wk_visited w' = mput (item_key e item) True (wk_visited w)"
    using grown inv p(1) by (auto simp: grown_def items_inv_def)
  show ?thesis
    using inv item queued frame new more by (auto simp: items_inv_def)
qed

lemma items_inv_skip:
  assumes inv: "items_inv e live tod src w reported" and pop: "wk_pq w \<noteq> []" "pop_item (wk_pq w) = (item, pq)"
  shows "items_inv e live tod src (w\<lparr>wk_pq := pq\<rparr>) reported"
  using pop_queue [OF _ pop] inv by (simp add: items_inv_def)

lemma walk_step_inv:
  assumes inv: "walk_inv e live tod src s" and more: "walk_more e s"
  shows "walk_inv e live tod src (walk_step R e now s)"
proof -
  obtain w impacts r where s: "s = (w, impacts, r)" by (cases s)
  from inv obtain "reported" where d: "impacts = map (item_impact e) reported" "items_inv e live tod src w reported"
    by (auto simp: walk_inv_def s)
  obtain item pq where pop: "pop_item (wk_pq w) = (item, pq)" by fastforce
  have ne: "wk_pq w \<noteq> []" "int (length reported) < cf_MaxImpacts (pe_cfg e)"
    using more d(1) by (auto simp: walk_more_def s)
  show ?thesis
  proof (cases "mgetd False (wk_visited w) (item_key e item)")
    case True
    then have "walk_step R e now s = (w\<lparr>wk_pq := pq\<rparr>, impacts, r)"
      by (simp add: walk_step_def s pop item_key_def Let_def)
    then show ?thesis using d items_inv_skip [OF d(2) ne(1) pop] by (auto simp: walk_inv_def)
  next
    case False
    let ?w1 = "w\<lparr>wk_pq := pq, wk_visited := mput (item_key e item) True (wk_visited w)\<rparr>"
    obtain w2 r2 where ex: "expand R e now item (?w1, r) = (w2, r2)" by fastforce
    have st: "walk_step R e now s = (w2, impacts @ [item_impact e item], r2)"
      using False ex by (simp add: walk_step_def s pop item_key_def Let_def)
    have "grown (spawned e live tod item) ?w1 w2"
      using expand_grown [OF ex] d(2) by (simp add: items_inv_def)
    moreover have "item_key e item \<notin> item_key e ` set reported"
      using False d(2) by (simp add: items_inv_def)
    ultimately have "items_inv e live tod src w2 (reported @ [item])"
      using items_inv_report [OF d(2) ne(2,1) pop] by blast
    then show ?thesis using d(1) by (auto simp: walk_inv_def st intro!: exI [of _ "reported @ [item]"])
  qed
qed

lemma walk_start_inv:
  assumes "walk_start R local e now src r = (w, r1)"
  shows "walk_inv e (fst (snapshotLiveDelays R e r))
     (SecsSinceMidnight local now (Some (pe_graph e)) (ti_DetectedAt src)) src (w, [], r1)"
proof -
  let ?tod = "SecsSinceMidnight local now (Some (pe_graph e)) (ti_DetectedAt src)"
  obtain live r0 where s: "snapshotLiveDelays R e r = (live, r0)" by fastforce
  define w0 where "w0 = \<lparr>wk_pq = [], wk_visited = [], wk_live = live, wk_tod = ?tod, wk_hour = walk_hour local e now src\<rparr>"
  have "\<exists>d r2. seedDownstream R e now (ti_ToRouteId src) (ti_StationId src) (impact_direction e src) d 1 1
      ''dwell_increase'' (w0, r2) = (w, r1)"
    using assms by (auto simp: walk_start_def Let_def s w0_def split: prod.splits)
  then have "grown (seeded e (ti_ToRouteId src) (ti_StationId src) (impact_direction e src) 1 ''dwell_increase'' 1) w0 w"
    by (elim exE) (rule seedDownstream_grown)
  then have "items_inv e live ?tod src w []"
    by (auto simp: grown_def items_inv_def w0_def heap_ok_def origin_def largest_first_def)
  then show ?thesis by (auto simp: walk_inv_def s)
qed

text \<open>Every round reports an item or shortens the queue, and at most \<open>MaxImpacts\<close> items are reported.\<close>

lemma walk_ends:
  assumes "walk_inv e live tod src s"
  shows "\<exists>t. while_option (walk_more e) (walk_step R e now) s = Some t \<and> walk_inv e live tod src t"
proof -
  let ?rel = "inv_image (less_than <*lex*> less_than)
    (\<lambda>s. case s of (w, impacts, r) \<Rightarrow> (nat (cf_MaxImpacts (pe_cfg e) - int (length impacts)), length (wk_pq w)))"
  have "(walk_step R e now s, s) \<in> ?rel" if inv: "walk_inv e live tod src s" and more: "walk_more e s" for s
  proof -
    obtain w impacts r where s: "s = (w, impacts, r)" by (cases s)
    obtain item pq where pop: "pop_item (wk_pq w) = (item, pq)" by fastforce
    have h: "heap_ok qi_delay (wk_pq w)" "wk_pq w \<noteq> []" "int (length impacts) < cf_MaxImpacts (pe_cfg e)"
      using inv more by (auto simp: s walk_inv_def items_inv_def walk_more_def)
    then have "length pq < length (wk_pq w)" using pop_queue(3) [OF h(1,2) pop] by simp
    then show ?thesis
      using h(3) by (auto simp: s walk_step_def pop Let_def split: prod.splits)
  qed
  moreover have "wf ?rel" by auto
  ultimately obtain t where t: "while_option (walk_more e) (walk_step R e now) s = Some t"
    using wf_rel_while_option_Some [of ?rel "walk_inv e live tod src" "walk_more e" "walk_step R e now" s]
      assms walk_step_inv by blast
  moreover have "walk_inv e live tod src t"
    using while_option_rule [of "walk_inv e live tod src", OF _ t assms] walk_step_inv by blast
  ultimately show ?thesis by blast
qed

text \<open>What the walk leaves behind.\<close>

lemma propagate_items:
  obtains res r' reported where "Propagate R local e now src r = Some (res, r')"
    "pr_Impacts res = map (item_impact e) reported" "pr_SourceStopId res = ti_StationId src" "pr_ComputedAt res = now"
    "int (length reported) \<le> max 0 (cf_MaxImpacts (pe_cfg e))" "distinct (map (item_key e) reported)"
    "chain (origin e (fst (snapshotLiveDelays R e r))
      (SecsSinceMidnight local now (Some (pe_graph e)) (ti_DetectedAt src)) src) reported"
    "chain largest_first reported"
proof -
  obtain w r1 where w: "walk_start R local e now src r = (w, r1)" by fastforce
  from walk_ends [OF walk_start_inv [OF w], of R now] obtain t where
    t: "while_option (walk_more e) (walk_step R e now) (w, [], r1) = Some t"
      "walk_inv e (fst (snapshotLiveDelays R e r))
        (SecsSinceMidnight local now (Some (pe_graph e)) (ti_DetectedAt src)) src t" by blast
  obtain w' impacts r2 where tt: "t = (w', impacts, r2)" by (cases t)
  from t(2) obtain reported where "impacts = map (item_impact e) reported"
    "items_inv e (fst (snapshotLiveDelays R e r))
       (SecsSinceMidnight local now (Some (pe_graph e)) (ti_DetectedAt src)) src w' reported"
    by (auto simp: walk_inv_def tt)
  with t(1) that show ?thesis by (auto simp: Propagate_def w tt items_inv_def)
qed

lemma chain_nth: "chain P xs \<Longrightarrow> k < length xs \<Longrightarrow> P (take k xs) (xs ! k)"
  by (simp add: chain_def)

lemma chain_origin_hops:
  "chain (origin e live tod src) xs \<Longrightarrow>
   \<forall>p\<in>set xs. 1 \<le> qi_hops p \<and> qi_hops p \<le> max 1 (cf_MaxDepth (pe_cfg e))"
proof (induction xs rule: rev_induct)
  case (snoc x xs)
  then have "origin e live tod src xs x" and ih: "\<forall>p\<in>set xs. 1 \<le> qi_hops p \<and> qi_hops p \<le> max 1 (cf_MaxDepth (pe_cfg e))"
    by auto
  then show ?case
    by (fastforce simp: origin_def spawned_def expandable_def cascaded_def rippled_def seeded_def)
qed simp

lemma chain_origin_conf:
  "sane_config (pe_cfg e) \<Longrightarrow> chain (origin e live tod src) xs \<Longrightarrow> \<forall>p\<in>set xs. conf_ok (pe_cfg e) p"
proof (induction xs rule: rev_induct)
  case (snoc x xs)
  then have "origin e live tod src xs x" and ih: "\<forall>p\<in>set xs. conf_ok (pe_cfg e) p"
    by auto
  then show ?case
    using snoc.prems(1)
    by (fastforce simp: origin_def spawned_def cascaded_def rippled_def seeded_def conf_ok_def sane_config_def)
qed simp

section \<open>An example\<close>

text \<open>The graph of the demo feed, one stored delay, the default configuration: a broken transfer onto
  route A at P delays A at Q, which breaks the transfer to B there.\<close>

definition demo_engine :: PropagationEngine where
  "demo_engine = NewPropagationEngine demo_graph True True ''MTA'' DefaultConfig"

definition demo_broken :: TransferImpact where
  "demo_broken =
     \<lparr>ti_FromTripId = ''W_3'', ti_FromRouteId = ''B'', ti_ToRouteId = ''A'', ti_StationId = ''P'',
      ti_SourceDelaySeconds = 400, ti_OriginalTransferMarginSeconds = 180, ti_RemainingMarginSeconds = - 220,
      ti_Level = BROKEN, ti_DetectedAt = 1728036000, ti_NextViableTripId = ''W_1'',
      ti_AdditionalWaitSeconds = 600, ti_SchedConnectionDepartureSecs = 36030, ti_EarliestCatchSecs = 36500\<rparr>"

definition demo_first :: queueItem where
  "demo_first = \<lparr>qi_routeID = ''A'', qi_stopID = ''b'', qi_delay = 1000, qi_confidence = 1, qi_hops = 1,
     qi_impactType = ''dwell_increase'', qi_directionID = 1\<rparr>"

definition demo_second :: queueItem where
  "demo_second = \<lparr>qi_routeID = ''B'', qi_stopID = ''Q'', qi_delay = 300, qi_confidence = f64 (7 / 10), qi_hops = 2,
     qi_impactType = ''cascade_transfer'', qi_directionID = 0\<rparr>"

definition demo_walk :: walk where
  "demo_walk = \<lparr>wk_pq = [demo_first], wk_visited = [], wk_live = [(''A:P'', 400)], wk_tod = 36000, wk_hour = 10\<rparr>"

lemma demo_engine_fields [simp]:
  "pe_graph demo_engine = demo_graph" "pe_state demo_engine" "pe_stopHist demo_engine" "pe_agencyID demo_engine = ''MTA''"
  "pe_cfg demo_engine = DefaultConfig"
  by (simp_all add: demo_engine_def NewPropagationEngine_def with_defaults_id default_config_set)

lemma demo_station [simp]:
  "ParentStationID demo_graph ''a'' = ''P''" "ParentStationID demo_graph ''P'' = ''P''"
  "ParentStationID demo_graph ''b'' = ''Q''" "ParentStationID demo_graph ''Q'' = ''Q''"
  by (simp_all add: ParentStationID_def parentStation_def demo_graph_facts demo_stops_def demo_stop_def)

lemma demo_active: "GetAllActiveDelays mem_client ''MTA'' demo_redis =
    (Inr [first_state ''A'' (demo_delay ARRIVAL_DELAY ''a'' 400 100)], demo_redis)"
  by code_simp

lemma demo_live: "snapshotLiveDelays mem_client demo_engine demo_redis = ([(''A:P'', 400)], demo_redis)"
  by (simp add: snapshotLiveDelays_def demo_active) (simp add: first_state_def demo_delay_def route_station_def Let_def)

lemma demo_history: "GetAverageImpact mem_client ''B'' ''A'' ''P'' 10 1728036000 demo_redis = (Inr (0, 0), demo_redis)"
  by code_simp

lemma demo_time: "SecsSinceMidnight local now (Some demo_graph) 1728036000 = 36000"
  by (simp add: SecsSinceMidnight_def clock_secs_eq Location_def demo_tz)

lemma demo_headway_P: "GetScheduledHeadway (Some demo_graph) ''A'' 1 ''P'' 36000 = (600, True)"
  by (simp add: GetScheduledHeadway_def demo_headways Let_def tdiv_def maxHeadwayHour_def
      headwayKey_def demo_itoa parentStation_def demo_graph_facts demo_stops_def demo_stop_def)

lemma round_numeral [simp]: "go_round (numeral n) = numeral n"
  using go_round_of_int [of "numeral n"] by simp

lemma to_i32_numeral [simp]: "in_i32 (numeral n) \<Longrightarrow> f64_to_i32 (numeral n) = numeral n"
  using f64_to_i32_of_int [of "numeral n"] by simp

lemma demo_estimate:
  "estimateInitialDelay local demo_engine now demo_broken 1 400 0 0 = 1000"
  by (simp add: estimateInitialDelay_def scheduled_estimate_def demo_broken_def demo_time demo_headway_P Let_def
      blend_def in_i32_def shrinkageK_def)

lemma demo_downstream:
  "GetDownstreamStops demo_graph ''A'' ''P'' 1 = [demo_sst ''W_1'' ''b'' 36300 36330 2]"
  "GetDownstreamStops demo_graph ''B'' ''Q'' 0 = []"
  by (simp_all add: GetDownstreamStops_def Let_def demo_graph_facts demo_sst_def mgetd_def
      parentStation_def demo_stops_def demo_stop_def)

lemma push_one [simp]: "push_item x [] = [x]"
  by (simp add: heap_push_def heap_up.simps)

lemma pop_one [simp]: "pop_item [x] = (x, [])"
  by (simp add: heap_pop_def swap_def heap_down.simps)

lemma demo_start:
  "walk_start mem_client local demo_engine 1728036000 demo_broken demo_redis = (demo_walk, demo_redis)"
proof -
  have d: "impact_direction demo_engine demo_broken = 1"
    by (simp add: impact_direction_def demo_broken_def demo_graph_facts mgetd_def)
  have f: "ti_FromRouteId demo_broken = ''B''" "ti_ToRouteId demo_broken = ''A''" "ti_StationId demo_broken = ''P''"
    "ti_DetectedAt demo_broken = 1728036000"
    by (simp_all add: demo_broken_def)
  show ?thesis
    by (simp add: walk_start_def walk_hour_def historical_impact_def d f demo_live demo_time demo_history demo_estimate Let_def tdiv_def tmod_def
        seedDownstream_def demo_downstream)
      (simp add: demo_walk_def demo_first_def demo_sst_def route_station_def mgetd_def demo_estimate)
qed


lemma demo_damped: "damped demo_engine 1000 = 300"
  by (simp add: damped_def DefaultConfig_def) code_simp

lemma demo_conf: "f64 (1 * f64 (7 / 10)) = f64 (7 / 10)"
  by simp

lemma demo_step:
  "walk_step mem_client demo_engine 1728036000 (demo_walk, [], demo_redis) =
     (demo_walk\<lparr>wk_pq := [demo_second], wk_visited := [(''A:Q'', True)]\<rparr>, [item_impact demo_engine demo_first], demo_redis)"
proof -
  have t: "GetTransfersFrom demo_graph ''Q'' = [\<lparr>FromStopID = ''Q'', ToStopID = ''Q'', TransferType = 2, MinTransferTime = 180\<rparr>]"
    using demo_station(4) by (simp add: GetTransfersFrom_def demo_graph_facts mgetd_def ParentStationID_def)
  have rs: "GetRoutesAtStop demo_graph ''Q'' = [(''A'', True), (''B'', True)]"
    using demo_station(4) by (simp add: GetRoutesAtStop_def demo_graph_facts mgetd_def ParentStationID_def)
  let ?w = "demo_walk\<lparr>wk_pq := [], wk_visited := [(''A:Q'', True)]\<rparr>"
  have m: "f64 (2 / 10) \<le> f64 (7 / 10)" by (rule f64_mono) simp
  have c: "cascade_item demo_engine ?w ''A'' 1000 1 1
      \<lparr>FromStopID = ''Q'', ToStopID = ''Q'', TransferType = 2, MinTransferTime = 180\<rparr> ''B'' = Some demo_second"
    using demo_damped m
    by (simp add: cascade_item_def Let_def damped_def demo_walk_def route_station_def mgetd_def min_transfer_time_def
        i64_id in_i64_def demo_second_def) (simp add: DefaultConfig_def)
  have c0: "cascade_item demo_engine v ''A'' d f h x ''A'' = None" for v d f h x
    by (simp add: cascade_item_def Let_def)
  have p: "propagateTransfers demo_engine ''Q'' ''A'' 1000 1 1 ?w = ?w\<lparr>wk_pq := [demo_second]\<rparr>"
    by (simp add: propagateTransfers_def t rs push_cascade_def c c0) 
  have x: "expand mem_client demo_engine 1728036000 demo_first (?w, demo_redis) = (?w\<lparr>wk_pq := [demo_second]\<rparr>, demo_redis)"
    using p by (simp add: expand_def demo_first_def Let_def DefaultConfig_def)
  show ?thesis
    using x by (simp add: walk_step_def) (simp add: demo_walk_def demo_first_def route_station_def mgetd_def)
qed

lemma demo_step2:
  "walk_step mem_client demo_engine 1728036000
     (demo_walk\<lparr>wk_pq := [demo_second], wk_visited := [(''A:Q'', True)]\<rparr>, [item_impact demo_engine demo_first], demo_redis) =
   (demo_walk\<lparr>wk_pq := [], wk_visited := [(''A:Q'', True), (''B:Q'', True)]\<rparr>,
    [item_impact demo_engine demo_first, item_impact demo_engine demo_second], demo_redis)"
proof -
  let ?w = "demo_walk\<lparr>wk_pq := [], wk_visited := [(''A:Q'', True), (''B:Q'', True)]\<rparr>"
  have t: "GetTransfersFrom demo_graph ''Q'' = [\<lparr>FromStopID = ''Q'', ToStopID = ''Q'', TransferType = 2, MinTransferTime = 180\<rparr>]"
    using demo_station(4) by (simp add: GetTransfersFrom_def demo_graph_facts mgetd_def ParentStationID_def)
  have rs: "GetRoutesAtStop demo_graph ''Q'' = [(''A'', True), (''B'', True)]"
    using demo_station(4) by (simp add: GetRoutesAtStop_def demo_graph_facts mgetd_def ParentStationID_def)
  have c: "cascade_item demo_engine ?w ''B'' d f h
      \<lparr>FromStopID = ''Q'', ToStopID = ''Q'', TransferType = 2, MinTransferTime = 180\<rparr> r = None"
    if "r = ''A'' \<or> r = ''B''" for d f h r
    using that by (auto simp: cascade_item_def Let_def demo_walk_def route_station_def mgetd_def)
  have p: "propagateTransfers demo_engine ''Q'' ''B'' d f h ?w = ?w" for d f h
    by (simp add: propagateTransfers_def t rs push_cascade_def c)
  have dir: "snd (deriveDirection demo_engine ''B'' ''Q'' 36000) \<longrightarrow> fst (deriveDirection demo_engine ''B'' ''Q'' 36000) = 0"
    by (auto simp: deriveDirection_def NextDeparturesAfter_def GetNextDepartures_eq [OF built_sorted [OF demo_built]]
        departures_spec_def demo_graph_facts demo_sst_def mgetd_def Let_def split: list.splits option.splits)
  obtain d ok where dd: "deriveDirection demo_engine ''B'' ''Q'' 36000 = (d, ok)" by fastforce
  have seed: "seedDownstream mem_client demo_engine n ''B'' ''Q'' 0 sd bc h ty st = st" for n sd bc h ty st
    by (simp add: seedDownstream_def demo_downstream)
  have f: "ParentStationID (pe_graph demo_engine) (qi_stopID demo_second) = ''Q''" "qi_routeID demo_second = ''B''"
    "wk_tod ?w = 36000"
    by (simp_all add: demo_second_def demo_walk_def)
  have x: "expand mem_client demo_engine 1728036000 demo_second (?w, demo_redis) = (?w, demo_redis)"
    using dir by (simp only: expand_def f p dd Let_def prod.case) (simp add: seed)
  show ?thesis
    using x by (simp add: walk_step_def) (simp add: demo_walk_def demo_second_def route_station_def mgetd_def)
qed

lemma demo_propagate:
  "Propagate mem_client local demo_engine 1728036000 demo_broken demo_redis =
     Some (\<lparr>pr_SourceTripId = ''W_3'', pr_SourceStopId = ''P'', pr_SourceDelaySeconds = 400,
            pr_Impacts = [item_impact demo_engine demo_first, item_impact demo_engine demo_second],
            pr_ComputedAt = 1728036000\<rparr>, demo_redis)"
proof -
  let ?s = "walk_step mem_client demo_engine 1728036000" and ?m = "walk_more demo_engine"
  have m: "?m (demo_walk, [], demo_redis)"
    "?m (demo_walk\<lparr>wk_pq := [demo_second], wk_visited := v\<rparr>, [i], demo_redis)"
    "\<not> ?m (demo_walk\<lparr>wk_pq := [], wk_visited := v\<rparr>, is, demo_redis)" for v i "is"
    by (simp_all add: walk_more_def demo_walk_def DefaultConfig_def)
  have "while_option ?m ?s (demo_walk, [], demo_redis) =
    Some (demo_walk\<lparr>wk_pq := [], wk_visited := [(''A:Q'', True), (''B:Q'', True)]\<rparr>,
      [item_impact demo_engine demo_first, item_impact demo_engine demo_second], demo_redis)"
    by (subst while_option_unfold, simp only: m demo_step if_True, subst while_option_unfold,
        simp only: m demo_step2 if_True, subst while_option_unfold, simp only: m if_False)
  then show ?thesis
    by (simp add: Propagate_def demo_start) (simp add: demo_broken_def)
qed

text \<open>A line of three stops: a train 300 seconds late at the first one.\<close>

definition line_graph :: TransitGraph where
  "line_graph =
     \<lparr>Stops = [], Routes = [], TripRoute = [(''T'', ''R'')], TripDirection = [(''T'', 0)],
      StopTimesByStop = [(''a'', [demo_sst ''T'' ''a'' 100 100 1])],
      StopTimesByTrip = [(''T'', [demo_sst ''T'' ''a'' 100 100 1, demo_sst ''T'' ''b'' 200 200 2, demo_sst ''T'' ''c'' 300 300 3])],
      TransfersByStop = [], RoutesAtStop = [], activeTrips = [], headways = None, tripSuffix = [], tz = None\<rparr>"

definition line_engine :: PropagationEngine where
  "line_engine = NewPropagationEngine line_graph False False ''MTA'' DefaultConfig"

definition line_item :: "string \<Rightarrow> int32 \<Rightarrow> float64 \<Rightarrow> queueItem" where
  "line_item s d c = \<lparr>qi_routeID = ''R'', qi_stopID = s, qi_delay = d, qi_confidence = c, qi_hops = 1,
     qi_impactType = ''dwell_increase'', qi_directionID = 0\<rparr>"

definition line_walk :: "(string, bool) gomap \<Rightarrow> queueItem list \<Rightarrow> walk" where
  "line_walk v q = \<lparr>wk_pq = q, wk_visited = v, wk_live = [], wk_tod = 50, wk_hour = 0\<rparr>"

abbreviation "line_first \<equiv> line_item ''b'' 300 1"
abbreviation "line_second \<equiv> line_item ''c'' 301 (f64 (1 * go_pow (f64 (7 / 10)) 2))"

lemma line_engine_fields [simp]:
  "pe_graph line_engine = line_graph" "\<not> pe_state line_engine" "\<not> pe_stopHist line_engine"
  "pe_cfg line_engine = DefaultConfig"
  by (simp_all add: line_engine_def NewPropagationEngine_def with_defaults_id default_config_set)

lemma line_station [simp]: "ParentStationID line_graph s = s"
  by (simp add: ParentStationID_def parentStation_def line_graph_def)

lemma line_dwell: "extra_dwell DefaultConfig = 1"
  by code_simp

lemma line_conf: "\<not> f64 (1 * go_pow (f64 (7 / 10)) 2) < f64 (2 / 10)"
  by code_simp

lemma line_seed:
  "seedDownstream mem_client line_engine 50 ''R'' ''a'' 0 300 1 1 ''dwell_increase'' (line_walk [] [], r) =
     (line_walk [] [line_second, line_first], r)"
proof -
  have ds: "GetDownstreamStops line_graph ''R'' ''a'' 0 = [demo_sst ''T'' ''b'' 200 200 2, demo_sst ''T'' ''c'' 300 300 3]"
    by (simp add: GetDownstreamStops_def Let_def line_graph_def demo_sst_def mgetd_def parentStation_def)
  have "push_item line_second [line_first] = [line_second, line_first]"
    by (simp add: heap_push_def heap_up.simps [of _ _ "Suc 0"] heap_up.simps [of _ _ 0] by_key_def swap_def line_item_def)
  then show ?thesis
    using line_conf by (simp add: seedDownstream_def ds Let_def line_dwell blendPerStop_def i32_id in_i32_def)
      (simp add: DefaultConfig_def line_walk_def line_item_def demo_sst_def numeral_2_eq_2)
qed

lemma pop_two: "pop_item [x, y] = (x, [y])"
  by (simp add: heap_pop_def swap_def heap_down.simps)

lemma line_step:
  assumes "pop_item q = (line_item s d c, q')" and "mget v (''R:'' @ s) = None"
  shows "walk_step mem_client line_engine 50 (line_walk v q, imps, r) =
    (line_walk (mput (''R:'' @ s) True v) q', imps @ [item_impact line_engine (line_item s d c)], r)"
proof -
  have "propagateTransfers line_engine s ''R'' d c 1 w = w" for w
    by (simp add: propagateTransfers_def GetTransfersFrom_def line_graph_def mgetd_def)
  then have x: "expand mem_client line_engine 50 (line_item s d c) st = st" for st
    by (cases st) (simp add: expand_def line_item_def Let_def)
  have f: "qi_routeID (line_item s d c) = ''R''" "qi_stopID (line_item s d c) = s"
    by (simp_all add: line_item_def)
  have "wk_pq (line_walk v q) = q" "wk_visited (line_walk v q) = v" for q by (simp_all add: line_walk_def)
  then show ?thesis
    using assms by (simp add: walk_step_def f x route_station_def mgetd_def Let_def) (simp add: line_walk_def)
qed

definition line_src :: TransferImpact where
  "line_src =
     \<lparr>ti_FromTripId = ''T'', ti_FromRouteId = ''R'', ti_ToRouteId = ''R'', ti_StationId = ''a'',
      ti_SourceDelaySeconds = 300, ti_OriginalTransferMarginSeconds = 0, ti_RemainingMarginSeconds = 0,
      ti_Level = BROKEN, ti_DetectedAt = 50, ti_NextViableTripId = ''T'', ti_AdditionalWaitSeconds = 0,
      ti_SchedConnectionDepartureSecs = 0, ti_EarliestCatchSecs = 0\<rparr>"

lemma line_start:
  "walk_start mem_client (\<lambda>_. 0) line_engine 50 line_src empty_redis = (line_walk [] [line_second, line_first], empty_redis)"
proof -
  have a: "impact_direction line_engine line_src = 0"
    by (simp add: impact_direction_def line_src_def line_graph_def mgetd_def)
  have f: "ti_FromRouteId line_src = ''R''" "ti_ToRouteId line_src = ''R''" "ti_StationId line_src = ''a''"
    "ti_DetectedAt line_src = 50"
    by (simp_all add: line_src_def)
  have t: "SecsSinceMidnight (\<lambda>_. 0) 50 (Some line_graph) 50 = 50"
    by (simp add: SecsSinceMidnight_def clock_secs_eq Location_def line_graph_def)
  have h: "GetAverageImpact mem_client ''R'' ''R'' ''a'' 0 50 empty_redis = (Inr (0, 0), empty_redis)"
    by code_simp
  have e: "estimateInitialDelay (\<lambda>_. 0) line_engine 50 line_src 0 0 0 0 = 300"
    by (simp add: estimateInitialDelay_def scheduled_estimate_def line_src_def blend_def in_i32_def shrinkageK_def)
  show ?thesis
    using line_seed [of empty_redis]
    by (simp add: walk_start_def walk_hour_def historical_impact_def f a t h e Let_def snapshotLiveDelays_def tdiv_def tmod_def mgetd_def line_walk_def)
qed

lemma line_propagate:
  "\<exists>res. Propagate mem_client (\<lambda>_. 0) line_engine 50 line_src empty_redis = Some (res, empty_redis)
     \<and> pr_Impacts res = [item_impact line_engine line_second, item_impact line_engine line_first]"
proof -
  let ?s = "walk_step mem_client line_engine 50" and ?m = "walk_more line_engine"
  have m: "?m (line_walk v (i # q), [], r)" "?m (line_walk v (i # q), [j], r)" "\<not> ?m (line_walk v [], imps, r)"
    for v i j q imps and r :: mem_redis
    by (simp_all add: walk_more_def line_walk_def DefaultConfig_def)
  have "while_option ?m ?s (line_walk [] [line_second, line_first], [], empty_redis) =
    Some (line_walk [(''R:c'', True), (''R:b'', True)] [],
      [item_impact line_engine line_second, item_impact line_engine line_first], empty_redis)"
    by (subst while_option_unfold, simp only: m line_step [OF pop_two] if_True map_of.simps,
        subst while_option_unfold, simp add: m line_step [OF pop_one] ,
        subst while_option_unfold, simp add: m)
  then show ?thesis by (auto simp: Propagate_def line_start)
qed

section \<open>Properties\<close>

text \<open>C6: \<open>Propagate\<close> always returns: the queue loop ends, whatever graph, configuration, clock, stored
  delays and Redis behaviour it runs on. The result names the transfer station, reports at most
  \<open>MaxImpacts\<close> impacts and no route twice at the same station.\<close>

theorem propagate_terminates:
  "\<exists>res r'. Propagate R local e now src r = Some (res, r')
     \<and> pr_SourceStopId res = ti_StationId src
     \<and> int (length (pr_Impacts res)) \<le> max 0 (cf_MaxImpacts (pe_cfg e))
     \<and> distinct (map (\<lambda>imp. (di_RouteId imp, di_StopId imp)) (pr_Impacts res))"
proof (rule propagate_items [of R local e now src r])
  fix res r' reported
  assume p: "Propagate R local e now src r = Some (res, r')" "pr_Impacts res = map (item_impact e) reported"
    "pr_SourceStopId res = ti_StationId src" "int (length reported) \<le> max 0 (cf_MaxImpacts (pe_cfg e))"
    and d: "distinct (map (item_key e) reported)"
  have "distinct (map (\<lambda>imp. (di_RouteId imp, di_StopId imp)) (pr_Impacts res))"
    using d by (auto simp: p(2) distinct_map inj_on_def item_key_def item_impact_def)
  with p show ?thesis by auto
qed

text \<open>What a reported impact rests on: the stops after the transfer station on the receiving route, a
  transfer broken by an earlier reported impact, or the stops after such a cascade on its route.\<close>

definition downstream_station :: "TransitGraph \<Rightarrow> string \<Rightarrow> string \<Rightarrow> int \<Rightarrow> string \<Rightarrow> bool" where
  "downstream_station g routeID stationID dir s \<longleftrightarrow>
     list_ex (\<lambda>st. ParentStationID g (StopID st) = s) (GetDownstreamStops g routeID stationID dir)"

definition follows ::
  "PropagationEngine \<Rightarrow> (string, int32) gomap \<Rightarrow> int \<Rightarrow> DownstreamImpact \<Rightarrow> DownstreamImpact \<Rightarrow> bool" where
  "follows e live tod p imp \<longleftrightarrow>
     di_HopsFromSource p < cf_MaxDepth (pe_cfg e)
     \<and> cf_MinDelayThreshold (pe_cfg e) \<le> di_PredictedAdditionalDelay p
     \<and> (di_ImpactType imp = ''cascade_transfer''
          \<and> (\<exists>xfer. breaks e live (di_StopId p) (di_RouteId p) (di_PredictedAdditionalDelay p) xfer (di_RouteId imp)
                \<and> di_StopId imp = ParentStationID (pe_graph e) (ToStopID xfer))
          \<and> di_PredictedAdditionalDelay imp = damped e (di_PredictedAdditionalDelay p)
          \<and> cf_MinDelayThreshold (pe_cfg e) \<le> di_PredictedAdditionalDelay imp
          \<and> di_HopsFromSource imp = di_HopsFromSource p + 1
        \<or> di_ImpactType imp = ''cascade_dwell'' \<and> di_ImpactType p = ''cascade_transfer''
          \<and> di_RouteId imp = di_RouteId p \<and> di_HopsFromSource imp = di_HopsFromSource p
          \<and> (\<exists>dir. deriveDirection e (di_RouteId p) (di_StopId p) tod = (dir, True)
                \<and> downstream_station (pe_graph e) (di_RouteId p) (di_StopId p) dir (di_StopId imp)))"

definition explained ::
  "PropagationEngine \<Rightarrow> (string, int32) gomap \<Rightarrow> int \<Rightarrow> TransferImpact \<Rightarrow> DownstreamImpact list \<Rightarrow> DownstreamImpact \<Rightarrow> bool" where
  "explained e live tod src before imp \<longleftrightarrow>
     di_ImpactType imp = ''dwell_increase'' \<and> di_HopsFromSource imp = 1 \<and> di_RouteId imp = ti_ToRouteId src
       \<and> downstream_station (pe_graph e) (ti_ToRouteId src) (ti_StationId src) (impact_direction e src) (di_StopId imp)
     \<or> (\<exists>p\<in>set before. follows e live tod p imp)"

lemma origin_explained:
  assumes "origin e live tod src before item" and "qi_hops item = i32 (qi_hops item)"
    and "\<forall>p\<in>set before. qi_hops p = i32 (qi_hops p)"
  shows "explained e live tod src (map (item_impact e) before) (item_impact e item)"
proof -
  have f: "di_HopsFromSource (item_impact e q) = qi_hops q" if "qi_hops q = i32 (qi_hops q)" for q
    using that by (simp add: item_impact_def)
  from assms(1) consider
      (seed) "seeded e (ti_ToRouteId src) (ti_StationId src) (impact_direction e src) 1 ''dwell_increase'' 1 item"
    | (spawn) p where "p \<in> set before" "spawned e live tod p item"
    unfolding origin_def by blast
  then show ?thesis
  proof cases
    case seed
    then show ?thesis
      by (auto simp: explained_def seeded_def item_impact_def downstream_station_def list_ex_iff)
  next
    case spawn
    then have "follows e live tod (item_impact e p) (item_impact e item)"
      using f [OF assms(2)] f [of p] assms(3)
      by (auto simp: follows_def spawned_def expandable_def cascaded_def rippled_def seeded_def item_impact_def
          downstream_station_def list_ex_iff)
    with spawn(1) show ?thesis by (auto simp: explained_def)
  qed
qed

text \<open>C7: every reported impact is explained: it is a stop after the transfer station on the receiving
  route (hop 1), or an earlier reported impact below the depth limit and above the delay threshold
  breaks a transfer to its route at its station, one hop further and with the damped delay, or it
  follows such a cascade down the new route. Hop counts lie between 1 and \<open>MaxDepth\<close>.\<close>

theorem impacts_explained:
  assumes "in_i32 (cf_MaxDepth (pe_cfg e))" and "Propagate R local e now src r = Some (res, r')"
  shows "chain (explained e (fst (snapshotLiveDelays R e r))
            (SecsSinceMidnight local now (Some (pe_graph e)) (ti_DetectedAt src)) src) (pr_Impacts res)
    \<and> list_all (\<lambda>imp. 1 \<le> di_HopsFromSource imp \<and> di_HopsFromSource imp \<le> max 1 (cf_MaxDepth (pe_cfg e))) (pr_Impacts res)"
proof (rule propagate_items [of R local e now src r])
  let ?live = "fst (snapshotLiveDelays R e r)"
  let ?tod = "SecsSinceMidnight local now (Some (pe_graph e)) (ti_DetectedAt src)"
  fix res1 r1 reported
  assume p: "Propagate R local e now src r = Some (res1, r1)" "pr_Impacts res1 = map (item_impact e) reported"
    and c: "chain (origin e ?live ?tod src) reported"
  have hops: "1 \<le> qi_hops p \<and> qi_hops p \<le> max 1 (cf_MaxDepth (pe_cfg e)) \<and> i32 (qi_hops p) = qi_hops p"
    if "p \<in> set reported" for p
    using chain_origin_hops [OF c] that assms(1) by (auto simp: i32_id in_i32_def max_def split: if_splits)
  have "explained e ?live ?tod src (take k (map (item_impact e) reported)) (map (item_impact e) reported ! k)"
    if "k < length reported" for k
    using origin_explained [OF chain_nth [OF c that]] hops that in_set_takeD [of _ k reported]
    by (simp add: take_map)
  then show ?thesis
    using p assms(2) hops by (auto simp: chain_def list_all_iff item_impact_def)
qed

theorem impacts_explained_witness:
  "di_RouteId (item_impact demo_engine demo_second) = ''B'' \<and>
   follows demo_engine [(''A:P'', 400)] 36000 (item_impact demo_engine demo_first) (item_impact demo_engine demo_second)"
proof -
  have "in_i32 (cf_MaxDepth (pe_cfg demo_engine))" by (simp add: DefaultConfig_def in_i32_def)
  from impacts_explained [OF this demo_propagate]
  have "chain (explained demo_engine [(''A:P'', 400)] 36000 demo_broken)
      ([item_impact demo_engine demo_first] @ [item_impact demo_engine demo_second])"
    by (simp add: demo_live demo_time) (simp add: demo_broken_def demo_time)
  then have "explained demo_engine [(''A:P'', 400)] 36000 demo_broken [item_impact demo_engine demo_first]
      (item_impact demo_engine demo_second)" by (simp only: chain_snoc)
  then show ?thesis by (auto simp: explained_def) (simp_all add: item_impact_def demo_second_def)
qed

text \<open>C19: with a sensible configuration (decay and minimum confidence in (0, 1]) every reported confidence
  lies between the minimum confidence and 1.\<close>

theorem impact_confidence_range:
  assumes "sane_config (pe_cfg e)" and "Propagate R local e now src r = Some (res, r')"
  shows "list_all (\<lambda>imp. f32 (cf_MinConfidence (pe_cfg e)) \<le> di_Confidence imp \<and> di_Confidence imp \<le> 1) (pr_Impacts res)"
proof (rule propagate_items [of R local e now src r])
  fix res1 r1 reported
  assume p: "Propagate R local e now src r = Some (res1, r1)" "pr_Impacts res1 = map (item_impact e) reported"
    and c: "chain (origin e (fst (snapshotLiveDelays R e r))
      (SecsSinceMidnight local now (Some (pe_graph e)) (ti_DetectedAt src)) src) reported"
  have "f32 (1 :: rat) = 1" by code_simp
  then have "f32 (cf_MinConfidence (pe_cfg e)) \<le> f32 x \<and> f32 x \<le> 1"
    if "cf_MinConfidence (pe_cfg e) \<le> x" "x \<le> 1" for x
    using that rnd_mono [of _ x 24] rnd_mono [of x 1 24] by (simp add: f32_def)
  then show ?thesis
    using chain_origin_conf [OF assms(1) c] p assms(2) by (auto simp: list_all_iff item_impact_def conf_ok_def)
qed

theorem impact_confidence_range_witness:
  "f32 (f64 (2 / 10)) \<le> di_Confidence (item_impact demo_engine demo_second) \<and>
   di_Confidence (item_impact demo_engine demo_first) = 1"
proof -
  have "sane_config (pe_cfg demo_engine)" by (simp add: default_config_sane)
  from impact_confidence_range [OF this demo_propagate]
  have "f32 (f64 (2 / 10)) \<le> di_Confidence (item_impact demo_engine demo_second)"
    by (simp add: DefaultConfig_def)
  moreover have "f32 (1 :: rat) = 1" by code_simp
  ultimately show ?thesis by (simp add: item_impact_def demo_first_def)
qed

text \<open>The walk is served largest delay first: a stop of the receiving route (reported as a dwell
  increase) is never predicted more delay than any impact reported before it.\<close>

theorem dwell_impacts_after_larger:
  assumes "Propagate R local e now src r = Some (res, r')"
    and "j < k" and "k < length (pr_Impacts res)" and "di_ImpactType (pr_Impacts res ! k) = ''dwell_increase''"
  shows "di_PredictedAdditionalDelay (pr_Impacts res ! k) \<le> di_PredictedAdditionalDelay (pr_Impacts res ! j)"
proof (rule propagate_items [of R local e now src r])
  fix res1 r1 reported
  assume p: "Propagate R local e now src r = Some (res1, r1)" "pr_Impacts res1 = map (item_impact e) reported"
    and c: "chain largest_first reported"
  have r: "pr_Impacts res = map (item_impact e) reported" using p assms(1) by simp
  have "reported ! j \<in> set (take k reported)"
    using assms(2,3) by (auto simp: r in_set_conv_nth intro!: exI [of _ j])
  then show ?thesis
    using chain_nth [OF c, of k] assms(2-4) by (auto simp: r largest_first_def item_impact_def)
qed

theorem dwell_impacts_after_larger_witness:
  "\<exists>res. Propagate mem_client (\<lambda>_. 0) line_engine 50 line_src empty_redis = Some (res, empty_redis)
     \<and> map di_StopId (pr_Impacts res) = [''c'', ''b'']
     \<and> di_PredictedAdditionalDelay (pr_Impacts res ! 1) \<le> di_PredictedAdditionalDelay (pr_Impacts res ! 0)"
proof -
  obtain res where res: "Propagate mem_client (\<lambda>_. 0) line_engine 50 line_src empty_redis = Some (res, empty_redis)"
    "pr_Impacts res = [item_impact line_engine line_second, item_impact line_engine line_first]"
    using line_propagate by blast
  have "di_ImpactType (item_impact line_engine line_first) = ''dwell_increase''"
    by (simp add: item_impact_def line_item_def)
  then show ?thesis
    using res dwell_impacts_after_larger [OF res(1), of 0 1] by (simp add: item_impact_def line_item_def)
qed

end
