(* ===== verification/InitialDelay.thy ===== *)
theory InitialDelay
  imports PropagationProps
begin

text \<open>
  The numbers a propagation starts from: the initial delay on the receiving route (\<open>estimateInitialDelay\<close>
  and the shrinkage \<open>blend\<close>, in the float arithmetic of the code), and the snapshot of the live delays.
\<close>

section \<open>Blending\<close>

lemma weight_range: "0 \<le> n \<Longrightarrow> 0 \<le> f64 (i_to_f64 n / f64 (i_to_f64 n + shrinkageK)) \<and> f64 (i_to_f64 n / f64 (i_to_f64 n + shrinkageK)) \<le> 1"
proof -
  assume "0 \<le> n"
  then have x: "0 \<le> i_to_f64 n" by (simp add: i_to_f64_def f64_nonneg)
  have "i_to_f64 n \<le> f64 (i_to_f64 n + shrinkageK)"
    using f64_mono [of "i_to_f64 n" "i_to_f64 n + shrinkageK"] by (simp add: i_to_f64_def shrinkageK_def)
  moreover have "0 < f64 (i_to_f64 n + shrinkageK)" using x by (intro f64_pos) (simp add: shrinkageK_def)
  ultimately show ?thesis using x by (intro f64_prob) simp_all
qed

lemma f64_near: "\<bar>x\<bar> \<le> 2 ^ 33 \<Longrightarrow> \<bar>f64 x - x\<bar> \<le> 1 / 2 ^ 20"
proof -
  assume "\<bar>x\<bar> \<le> 2 ^ 33"
  then have "\<bar>x\<bar> / 2 ^ 53 \<le> 2 ^ 33 / 2 ^ 53" by (intro divide_right_mono) simp_all
  with f64_err [of x] show ?thesis by simp
qed

lemma weighted_range:
  fixes w x y lo hi :: rat
  assumes "0 \<le> w" "w \<le> 1" "lo \<le> x" "x \<le> hi" "lo \<le> y" "y \<le> hi"
  shows "lo \<le> w * x + (1 - w) * y" "w * x + (1 - w) * y \<le> hi"
proof -
  have "w * lo \<le> w * x" "(1 - w) * lo \<le> (1 - w) * y" "w * x \<le> w * hi" "(1 - w) * y \<le> (1 - w) * hi"
    using assms by (auto intro: mult_left_mono)
  then show "lo \<le> w * x + (1 - w) * y" "w * x + (1 - w) * y \<le> hi" by (simp_all add: algebra_simps)
qed

lemma err_sum:
  fixes S A B a b c e :: rat
  assumes "\<bar>S - (A + B)\<bar> \<le> e" "\<bar>A - a\<bar> \<le> e" "\<bar>B - b\<bar> \<le> e" "\<bar>b - c\<bar> \<le> e"
  shows "\<bar>S - (a + c)\<bar> \<le> 4 * e"
  using assms by linarith

lemma near_range:
  fixes S x a b :: rat
  shows "\<bar>S - x\<bar> < 1 / 2 \<Longrightarrow> a \<le> x \<Longrightarrow> x \<le> b \<Longrightarrow> a - 1 / 2 < S \<and> S < b + 1 / 2"
  by linarith

lemma blend_between:
  assumes n: "0 \<le> n" and a: "of_int a \<le> avg" "avg \<le> of_int b" and m: "of_int a \<le> model" "model \<le> of_int b"
    and r: "in_i32 a" "in_i32 b"
  shows "a \<le> blend n avg model \<and> blend n avg model \<le> b"
proof -
  define w where "w = f64 (i_to_f64 n / f64 (i_to_f64 n + shrinkageK))"
  have w: "0 \<le> w" "w \<le> 1" using weight_range [OF n] by (simp_all add: w_def)
  define v where "v = f64 (1 - w)"
  have v: "0 \<le> v" "v \<le> 1" "\<bar>v - (1 - w)\<bar> \<le> 1 / 2 ^ 53"
    using f64_prob [of "1 - w"] f64_err [of "1 - w"] w by (auto simp: v_def divide_le_cancel abs_le_iff)
  have big: "\<bar>avg\<bar> \<le> 2 ^ 31" "\<bar>model\<bar> \<le> 2 ^ 31" using a m r by (auto simp: in_i32_def abs_le_iff)
  have wa: "\<bar>w * avg\<bar> \<le> 2 ^ 31" using big w by (simp add: abs_mult mult_le_one mult_mono' [of w 1 "\<bar>avg\<bar>" "2^31", simplified])
  have vm: "\<bar>v * model\<bar> \<le> 2 ^ 31" using big v by (simp add: abs_mult mult_mono' [of v 1 "\<bar>model\<bar>" "2^31", simplified])
  have e1: "\<bar>f64 (w * avg) - w * avg\<bar> \<le> 1 / 2 ^ 20" using wa by (intro f64_near) simp
  have e2: "\<bar>f64 (v * model) - v * model\<bar> \<le> 1 / 2 ^ 20" using vm by (intro f64_near) simp
  have e3: "\<bar>v * model - (1 - w) * model\<bar> \<le> 1 / 2 ^ 20"
  proof -
    have "\<bar>v * model - (1 - w) * model\<bar> = \<bar>v - (1 - w)\<bar> * \<bar>model\<bar>" by (simp add: abs_mult left_diff_distrib [symmetric])
    also have "\<dots> \<le> (1 / 2 ^ 53) * 2 ^ 31" using v(3) big(2) by (intro mult_mono) simp_all
    finally show ?thesis by simp
  qed
  define S where "S = f64 (f64 (w * avg) + f64 (v * model))"
  have "\<bar>S - (f64 (w * avg) + f64 (v * model))\<bar> \<le> 1 / 2 ^ 20"
    unfolding S_def
    using abs_triangle_ineq [of "f64 (w * avg)" "f64 (v * model)"]
      abs_triangle_ineq2 [of "f64 (w * avg)" "w * avg"] abs_triangle_ineq2 [of "f64 (v * model)" "v * model"] e1 e2 wa vm
    by (intro f64_near) simp
  from err_sum [OF this e1 e2 e3] have s: "\<bar>S - (w * avg + (1 - w) * model)\<bar> < 1 / 2" by (rule le_less_trans) simp
  have "of_int a - 1 / 2 < S" "S < of_int b + 1 / 2"
    using near_range [OF s weighted_range(1) [OF w a m] weighted_range(2) [OF w a m]] by simp_all
  from round_i32_between [OF this r] show ?thesis
    by (simp add: blend_def Let_def S_def w_def v_def)
qed


lemma weight_0: "f64 (i_to_f64 0 / f64 (i_to_f64 0 + shrinkageK)) = 0"
  by (simp add: i_to_f64_def)

lemma blend_no_history: "in_i32 d \<Longrightarrow> blend 0 avg (of_int d) = d"
  by (simp add: blend_def weight_0)

lemma scheduled_estimate_range:
  assumes "ti_FromRouteId src \<noteq> ti_ToRouteId src"
    and w: "0 < ti_AdditionalWaitSeconds src" "ti_AdditionalWaitSeconds src \<le> 1000000000"
    and c: "0 \<le> conn" "in_i32 conn"
    and hw: "\<And>h. GetScheduledHeadway (Some (pe_graph e)) (ti_ToRouteId src) dir (ti_StationId src)
       (SecsSinceMidnight local now (Some (pe_graph e)) (ti_DetectedAt src)) = (h, True) \<Longrightarrow> 1 \<le> h \<and> h \<le> 10800"
  shows "of_int (ti_AdditionalWaitSeconds src) \<le> scheduled_estimate local e now src dir conn
    \<and> scheduled_estimate local e now src dir conn \<le> of_int (max (ti_AdditionalWaitSeconds src) 5400 + min conn 10800)"
proof -
  obtain h ok where h: "GetScheduledHeadway (Some (pe_graph e)) (ti_ToRouteId src) dir (ti_StationId src)
       (SecsSinceMidnight local now (Some (pe_graph e)) (ti_DetectedAt src)) = (h, ok)" by fastforce
  let ?w = "ti_AdditionalWaitSeconds src"
  have iw: "i_to_f64 ?w = of_int ?w" "i_to_f64 conn = of_int conn"
    using w c by (simp_all add: in_i32_def)
  define est where "est = (if ok \<and> f64 (h / 2) > of_int ?w then f64 (h / 2) else of_int ?w)"
  define add where "add = (if ok then (if of_int conn > h then h else of_int conn)
    else if of_int conn > maxConnectingDelayAddSecs then maxConnectingDelayAddSecs else of_int conn)"
  have half: "f64 (h / 2) \<le> 5400" if ok
    using hw [of h] h that f64_le_int [of "h / 2" 5400] by simp
  have est: "of_int ?w \<le> est" "est \<le> of_int (max ?w 5400)"
    using half by (auto simp: est_def)
  have add: "0 \<le> add" "add \<le> of_int (min conn 10800)"
    using hw [of h] h c(1) by (auto simp: add_def maxConnectingDelayAddSecs_def min_def)
  have "scheduled_estimate local e now src dir conn = (if conn > 0 then f64 (est + add) else est)"
    using assms(1) w(1) est(1) by (auto simp: scheduled_estimate_def h iw est_def add_def Let_def)
  moreover have "of_int ?w \<le> f64 (est + add)"
    using w est add by (intro f64_ge_int) auto
  moreover have "f64 (est + add) \<le> of_int (max ?w 5400 + min conn 10800)"
    using w c est add by (intro f64_le_int) (auto simp: add_mono)
  ultimately show ?thesis using est c(1) by (auto simp: min_def)
qed

section \<open>Live delays\<close>

lemma live_fold:
  fixes dl :: "'a \<Rightarrow> int32" and key :: "'a \<Rightarrow> string"
  defines "f \<equiv> \<lambda>out x. if dl x \<le> 0 then out else if dl x > mgetd 0 out (key x) then mput (key x) (dl x) out else out"
  shows "(\<forall>x\<in>set xs. key x = k \<longrightarrow> dl x \<le> mgetd 0 (foldl f out xs) k \<or> dl x \<le> 0)
    \<and> mgetd 0 out k \<le> mgetd 0 (foldl f out xs) k
    \<and> (mgetd 0 (foldl f out xs) k = mgetd 0 out k
        \<or> (\<exists>x\<in>set xs. key x = k \<and> 0 < dl x \<and> mgetd 0 (foldl f out xs) k = dl x))"
proof (induction xs arbitrary: out)
  case (Cons x xs)
  have "mgetd 0 out k \<le> mgetd 0 (f out x) k" "key x = k \<Longrightarrow> dl x \<le> mgetd 0 (f out x) k \<or> dl x \<le> 0"
    "mgetd 0 (f out x) k = mgetd 0 out k \<or> key x = k \<and> 0 < dl x \<and> mgetd 0 (f out x) k = dl x"
    by (auto simp: f_def)
  with Cons.IH [of "f out x"] show ?case by (auto intro: order_trans)
qed simp

section \<open>Properties\<close>

text \<open>C28: for a transfer between two routes the initial delay lies between the additional wait and the
  larger of that wait and half a headway (at most 90 minutes) plus the connecting train's own delay
  (at most three hours); observed history moves it at most as far as the observed average. The code's
  float arithmetic and rounding are included.\<close>

theorem initial_delay_of_transfer:
  fixes local :: location and now :: int64 and dir :: int
  assumes "BuildGraph loadLocation loc files date = Inr (pe_graph e)"
    and "ti_FromRouteId src \<noteq> ti_ToRouteId src"
    and "0 < ti_AdditionalWaitSeconds src" and "ti_AdditionalWaitSeconds src \<le> 1000000000"
    and "0 \<le> conn" and "in_i32 conn" and "0 \<le> histCount" and "\<bar>histAvg\<bar> \<le> 1000000000"
  defines "est \<equiv> estimateInitialDelay local e now src dir conn histAvg histCount"
    and "longest \<equiv> max (ti_AdditionalWaitSeconds src) 5400 + min conn 10800"
  shows "min (ti_AdditionalWaitSeconds src) \<lfloor>histAvg\<rfloor> \<le> est \<and> est \<le> max longest \<lceil>histAvg\<rceil>"
proof -
  obtain hw where "headways (pe_graph e) = Some hw" "index_ok hw"
    using BuildGraph_wf [OF assms(1)] by (auto simp: graph_wf_def)
  then have hw: "GetScheduledHeadway (Some (pe_graph e)) a b c t = (h, True) \<Longrightarrow> 1 \<le> h \<and> h \<le> 10800" for a b c t h
    using GetScheduledHeadway_ok by (auto simp: headway_ok_def)
  have r: "of_int (ti_AdditionalWaitSeconds src) \<le> scheduled_estimate local e now src dir conn
      \<and> scheduled_estimate local e now src dir conn \<le> of_int longest"
    unfolding longest_def by (rule scheduled_estimate_range [OF assms(2-6)]) (rule hw)
  let ?a = "min (ti_AdditionalWaitSeconds src) \<lfloor>histAvg\<rfloor>" and ?b = "max longest \<lceil>histAvg\<rceil>"
  have avg: "of_int ?a \<le> histAvg" "histAvg \<le> of_int ?b" by (auto simp: min_def max_def) linarith+
  have "- 1000000000 \<le> \<lfloor>histAvg\<rfloor>" "\<lceil>histAvg\<rceil> \<le> 1000000000"
    using assms(8) by (auto simp: le_floor_iff ceiling_le_iff abs_le_iff)
  then have rng: "in_i32 ?a" "in_i32 ?b"
    using assms(3-6) by (auto simp: in_i32_def longest_def min_def max_def)
  have model: "of_int ?a \<le> scheduled_estimate local e now src dir conn" "scheduled_estimate local e now src dir conn \<le> of_int ?b"
    using r by (auto intro: order_trans [of _ "of_int (ti_AdditionalWaitSeconds src)"] order_trans [of _ "of_int longest"])
  show ?thesis
    unfolding est_def estimateInitialDelay_def
    by (rule blend_between [OF assms(7) avg model rng])
qed

theorem initial_delay_of_transfer_witness:
  "600 \<le> estimateInitialDelay (\<lambda>_. 0) demo_engine 0 demo_broken 1 400 700 3
   \<and> estimateInitialDelay (\<lambda>_. 0) demo_engine 0 demo_broken 1 400 700 3 \<le> 5800"
proof -
  have f: "ti_FromRouteId demo_broken \<noteq> ti_ToRouteId demo_broken" "ti_AdditionalWaitSeconds demo_broken = 600"
    by (simp_all add: demo_broken_def)
  have b: "BuildGraph (\<lambda>_. None) (\<lambda>_. 0) demo_dir 1728000000 = Inr (pe_graph demo_engine)"
    by (simp add: demo_built)
  show ?thesis
    using initial_delay_of_transfer [OF b f(1), of 400 3 700 "\<lambda>_. 0" 0 1] by (simp add: f(2) in_i32_def)
qed

text \<open>A train propagating down its own route carries its delay: exactly that delay without history,
  and a value between it and the observed average otherwise.\<close>

theorem own_delay_carried:
  assumes "ti_FromRouteId src = ti_ToRouteId src" and "ti_ToRouteId src \<noteq> []"
    and "in_i32 (ti_SourceDelaySeconds src)" and "0 \<le> histCount" and "\<bar>histAvg\<bar> \<le> 1000000000"
  shows "estimateInitialDelay local e now src dir conn histAvg 0 = ti_SourceDelaySeconds src
    \<and> min (ti_SourceDelaySeconds src) \<lfloor>histAvg\<rfloor> \<le> estimateInitialDelay local e now src dir conn histAvg histCount
    \<and> estimateInitialDelay local e now src dir conn histAvg histCount \<le> max (ti_SourceDelaySeconds src) \<lceil>histAvg\<rceil>"
proof -
  have s: "scheduled_estimate local e now src dir conn = of_int (ti_SourceDelaySeconds src)"
    using assms(1-3) by (simp add: scheduled_estimate_def)
  have "estimateInitialDelay local e now src dir conn histAvg 0 = ti_SourceDelaySeconds src"
    using assms(3) by (simp add: estimateInitialDelay_def s blend_no_history)
  moreover
  let ?a = "min (ti_SourceDelaySeconds src) \<lfloor>histAvg\<rfloor>" and ?b = "max (ti_SourceDelaySeconds src) \<lceil>histAvg\<rceil>"
  have avg: "of_int ?a \<le> histAvg" "histAvg \<le> of_int ?b" by (auto simp: min_def max_def) linarith+
  have "- 1000000000 \<le> \<lfloor>histAvg\<rfloor>" "\<lceil>histAvg\<rceil> \<le> 1000000000"
    using assms(5) by (auto simp: le_floor_iff ceiling_le_iff abs_le_iff)
  then have rng: "in_i32 ?a" "in_i32 ?b"
    using assms(3) by (auto simp: in_i32_def min_def max_def)
  have "?a \<le> estimateInitialDelay local e now src dir conn histAvg histCount
      \<and> estimateInitialDelay local e now src dir conn histAvg histCount \<le> ?b"
    unfolding estimateInitialDelay_def s
    by (rule blend_between [OF assms(4) avg _ _ rng]) simp_all
  ultimately show ?thesis by blast
qed

theorem own_delay_carried_witness:
  "estimateInitialDelay (\<lambda>_. 0) line_engine 50 line_src 0 0 100 0 = 300
   \<and> 100 \<le> estimateInitialDelay (\<lambda>_. 0) line_engine 50 line_src 0 0 100 7"
proof -
  have f: "ti_FromRouteId line_src = ti_ToRouteId line_src" "ti_ToRouteId line_src \<noteq> []"
    "ti_SourceDelaySeconds line_src = 300"
    by (simp_all add: line_src_def)
  then have i: "in_i32 (ti_SourceDelaySeconds line_src)" by (simp add: in_i32_def)
  show ?thesis
    using own_delay_carried [OF f(1,2) i, of 7 100 "\<lambda>_. 0" line_engine 50 0 0]
    by (simp add: f(3))
qed

text \<open>On a healthy connection the snapshot holds, per route and station, the largest positive delay
  among the stored states of the agency that are active (more than a minute), and nothing else.\<close>

theorem live_snapshot_is_maximum:
  fixes k :: string
  assumes "healthy_redis R ks healthy" and "healthy r" and "glob_free (pe_agencyID e)" and "pe_state e"
    and "snapshotLiveDelays R e r = (live, r')"
  defines "here \<equiv> {ds. (\<exists>rest. delays (ks r) (''delay:'' @ pe_agencyID e @ '':'' @ rest) = Some ds)
      \<and> 60 < abs32 (sd_DelaySeconds ds)
      \<and> route_station (sd_RouteID ds) (ParentStationID (pe_graph e) (sd_StopID ds)) = k}"
  shows "(\<forall>ds\<in>here. sd_DelaySeconds ds \<le> mgetd 0 live k)
    \<and> (mgetd 0 live k = 0 \<or> (\<exists>ds\<in>here. 0 < sd_DelaySeconds ds \<and> mgetd 0 live k = sd_DelaySeconds ds))"
proof -
  obtain res r1 where g: "GetAllActiveDelays R (pe_agencyID e) r = (res, r1)" by fastforce
  from healthy_redis.scan_states_exact [OF assms(1) g [unfolded GetAllActiveDelays_def] assms(2,3)]
  obtain out where out: "res = Inr out" "set out = {ds. (\<exists>rest. delays (ks r) (''delay:'' @ pe_agencyID e @ '':'' @ rest) = Some ds) \<and> 60 < abs32 (sd_DelaySeconds ds)}"
    by (elim conjE exE) (rule that, assumption, auto simp: activeDelayThreshold_def)
  have here: "here = {ds \<in> set out. route_station (sd_RouteID ds) (ParentStationID (pe_graph e) (sd_StopID ds)) = k}"
    by (auto simp: here_def out(2))
  let ?key = "\<lambda>ds. route_station (sd_RouteID ds) (ParentStationID (pe_graph e) (sd_StopID ds))"
  have l: "live = foldl (\<lambda>out ds. if sd_DelaySeconds ds \<le> 0 then out
      else if sd_DelaySeconds ds > mgetd 0 out (?key ds) then mput (?key ds) (sd_DelaySeconds ds) out else out) [] out"
    using assms(4,5) unfolding snapshotLiveDelays_def Let_def by (simp add: g out(1))
  from live_fold [of out "?key" k sd_DelaySeconds "[]", folded l]
  show ?thesis by (auto simp: here)
qed

theorem live_snapshot_is_maximum_witness:
  "400 \<le> mgetd 0 (fst (snapshotLiveDelays mem_client demo_engine demo_redis)) ''A:P''"
proof -
  have h: "mem_healthy demo_redis" by code_simp
  have g: "glob_free (pe_agencyID demo_engine)" by (simp add: glob_free_def)
  let ?ds = "first_state ''A'' (demo_delay ARRIVAL_DELAY ''a'' 400 100)"
  have f: "sd_DelaySeconds ?ds = 400" "sd_RouteID ?ds = ''A''" "sd_StopID ?ds = ''a''"
    by (simp_all add: first_state_def demo_delay_def)
  have "delays (mem_ks demo_redis) (''delay:'' @ pe_agencyID demo_engine @ '':'' @ ''W_1:a'') = Some ?ds"
    using demo_stored by simp
  moreover have "60 < abs32 (sd_DelaySeconds ?ds)" by (simp add: abs32_def f)
  moreover have "route_station (sd_RouteID ?ds) (ParentStationID (pe_graph demo_engine) (sd_StopID ?ds)) = ''A:P''"
    by (simp add: f route_station_def)
  ultimately have "sd_DelaySeconds ?ds \<le> mgetd 0 [(''A:P'', 400)] ''A:P''"
    using live_snapshot_is_maximum [OF mem.healthy_redis_axioms h g demo_engine_fields(2) demo_live, of "''A:P''"] by blast
  then show ?thesis by (simp add: f demo_live)
qed

end
