(* ===== verification/Pending.thy ===== *)
theory Pending
  imports DelayState History "HOL-Library.Monad_Syntax"
begin

text \<open>
  \<open>internal/evaluation/pending.go\<close>: the pending predictions in Redis. A prediction is a document under
  its own key, and its ID is a member of two sorted sets scored by the expiry time: the match index of
  its agency, route and station, and the expiry set the sweeper reads. \<open>now\<close> is a Unix time,
  \<open>nowNano\<close> the reading of \<open>time.Until\<close> in nanoseconds. The members of the two sets are IDs, which
  nothing but \<open>Add\<close> writes.
\<close>

section \<open>Definitions\<close>

definition pendingKeyPrefix :: string where "pendingKeyPrefix = ''pending:pred:''"
definition indexKeyPrefix :: string where "indexKeyPrefix = ''pending:idx:''"
definition expiryKey :: string where "expiryKey = ''pending:expiry''"
definition pendingIndexTTL :: int64 where "pendingIndexTTL = 50 * 60 * 1000000000"

record PendingPrediction =
  pd_ID :: string
  pd_AgencyID :: string
  pd_FromRoute :: string
  pd_RouteID :: string
  pd_StationID :: string
  pd_SourceStation :: string
  pd_Direction :: int
  pd_SourceDelaySecs :: int32
  pd_PredictedSecs :: int32
  pd_BaselineSecs :: int32
  pd_SchedConnDepSecs :: int32
  pd_EarliestCatchSecs :: int32
  pd_Confidence :: float64
  pd_Hops :: int32
  pd_Hour :: int
  pd_IsPrimary :: bool
  pd_CreatedAt :: int64
  pd_ExpiresAt :: int64
  pd_ObservedMax :: int32
  pd_Matched :: bool

definition omit_empty :: "bool \<Rightarrow> string \<Rightarrow> json \<Rightarrow> (string \<times> json) list" where
  "omit_empty absent name j = (if absent then [] else [(name, j)])"

definition marshal_pending :: "PendingPrediction \<Rightarrow> json" where
  "marshal_pending p =
     JObj ([(''id'', JStr (pd_ID p)), (''agency_id'', JStr (pd_AgencyID p)), (''from_route'', JStr (pd_FromRoute p)),
            (''route_id'', JStr (pd_RouteID p)), (''station_id'', JStr (pd_StationID p))]
       @ omit_empty (pd_SourceStation p = []) ''source_station'' (JStr (pd_SourceStation p))
       @ [(''direction'', enc_int (pd_Direction p)), (''source_delay_secs'', enc_int (pd_SourceDelaySecs p)),
          (''predicted_secs'', enc_int (pd_PredictedSecs p)), (''baseline_secs'', enc_int (pd_BaselineSecs p))]
       @ omit_empty (pd_SchedConnDepSecs p = 0) ''sched_conn_dep_secs'' (enc_int (pd_SchedConnDepSecs p))
       @ omit_empty (pd_EarliestCatchSecs p = 0) ''earliest_catch_secs'' (enc_int (pd_EarliestCatchSecs p))
       @ [(''confidence'', JNum (pd_Confidence p)), (''hops'', enc_int (pd_Hops p)), (''hour'', enc_int (pd_Hour p)),
          (''is_primary'', JBool (pd_IsPrimary p)), (''created_at'', enc_int (pd_CreatedAt p)),
          (''expires_at'', enc_int (pd_ExpiresAt p)), (''observed_max'', enc_int (pd_ObservedMax p)),
          (''matched'', JBool (pd_Matched p))])"

definition zero_pending :: PendingPrediction where
  "zero_pending =
     \<lparr>pd_ID = [], pd_AgencyID = [], pd_FromRoute = [], pd_RouteID = [], pd_StationID = [], pd_SourceStation = [],
      pd_Direction = 0, pd_SourceDelaySecs = 0, pd_PredictedSecs = 0, pd_BaselineSecs = 0, pd_SchedConnDepSecs = 0,
      pd_EarliestCatchSecs = 0, pd_Confidence = 0, pd_Hops = 0, pd_Hour = 0, pd_IsPrimary = False,
      pd_CreatedAt = 0, pd_ExpiresAt = 0, pd_ObservedMax = 0, pd_Matched = False\<rparr>"

definition pending_of_fields :: "(string \<times> json) list \<Rightarrow> PendingPrediction option" where
  "pending_of_fields fs =
     do { pid \<leftarrow> dec_string (jfield ''id'' fs); agency \<leftarrow> dec_string (jfield ''agency_id'' fs);
          from \<leftarrow> dec_string (jfield ''from_route'' fs); route \<leftarrow> dec_string (jfield ''route_id'' fs);
          station \<leftarrow> dec_string (jfield ''station_id'' fs); source \<leftarrow> dec_string (jfield ''source_station'' fs);
          dir \<leftarrow> dec_i64 (jfield ''direction'' fs); delay \<leftarrow> dec_i32 (jfield ''source_delay_secs'' fs);
          predicted \<leftarrow> dec_i32 (jfield ''predicted_secs'' fs); baseline \<leftarrow> dec_i32 (jfield ''baseline_secs'' fs);
          dep \<leftarrow> dec_i32 (jfield ''sched_conn_dep_secs'' fs); catch \<leftarrow> dec_i32 (jfield ''earliest_catch_secs'' fs);
          conf \<leftarrow> dec_float (jfield ''confidence'' fs); hops \<leftarrow> dec_i32 (jfield ''hops'' fs);
          hour \<leftarrow> dec_i64 (jfield ''hour'' fs); primary \<leftarrow> dec_bool (jfield ''is_primary'' fs);
          created \<leftarrow> dec_i64 (jfield ''created_at'' fs); expires \<leftarrow> dec_i64 (jfield ''expires_at'' fs);
          observed \<leftarrow> dec_i32 (jfield ''observed_max'' fs); matched \<leftarrow> dec_bool (jfield ''matched'' fs);
          Some \<lparr>pd_ID = pid, pd_AgencyID = agency, pd_FromRoute = from, pd_RouteID = route, pd_StationID = station,
                pd_SourceStation = source, pd_Direction = dir, pd_SourceDelaySecs = delay, pd_PredictedSecs = predicted,
                pd_BaselineSecs = baseline, pd_SchedConnDepSecs = dep, pd_EarliestCatchSecs = catch,
                pd_Confidence = conf, pd_Hops = hops, pd_Hour = hour, pd_IsPrimary = primary, pd_CreatedAt = created,
                pd_ExpiresAt = expires, pd_ObservedMax = observed, pd_Matched = matched\<rparr> }"

definition unmarshal_pending :: "json \<Rightarrow> PendingPrediction option" where
  "unmarshal_pending j = (case j of JNull \<Rightarrow> Some zero_pending | JObj fs \<Rightarrow> pending_of_fields fs | _ \<Rightarrow> None)"

definition pendingKey :: "string \<Rightarrow> string" where
  "pendingKey pid = pendingKeyPrefix @ pid"

definition indexKey :: "string \<Rightarrow> string \<Rightarrow> string \<Rightarrow> string" where
  "indexKey agencyID routeID stationID = indexKeyPrefix @ agencyID @ '':'' @ routeID @ '':'' @ stationID"

datatype pending_error = PE_redis redis_error | PE_json | PE_expired

text \<open>\<open>time.Until\<close>: a difference of times saturates at the ends of \<open>Duration\<close>.\<close>

definition time_until :: "int \<Rightarrow> int64 \<Rightarrow> int64" where
  "time_until nowNano t = max (- 9223372036854775808) (min 9223372036854775807 (t * 1000000000 - nowNano))"

definition Add :: "'r RedisClient \<Rightarrow> int \<Rightarrow> PendingPrediction \<Rightarrow> 'r \<Rightarrow> pending_error option \<times> 'r" where
  "Add R nowNano p r =
     (let ttl = i64 (time_until nowNano (pd_ExpiresAt p) + 10 * 60 * 1000000000);
          idxKey = indexKey (pd_AgencyID p) (pd_RouteID p) (pd_StationID p);
          score = i_to_f64 (pd_ExpiresAt p)
      in if ttl \<le> 0 then (Some PE_expired, r)
         else (case pipe_exec [rd_Set R (pendingKey (pd_ID p)) (marshal_pending p) ttl,
                               rd_ZAdd R idxKey score (JStr (pd_ID p)),
                               rd_Expire R idxKey pendingIndexTTL,
                               rd_ZAdd R expiryKey score (JStr (pd_ID p))] r of
                 (e, r1) \<Rightarrow> (map_option PE_redis e, r1)))"

definition pending_get :: "'r RedisClient \<Rightarrow> string \<Rightarrow> 'r \<Rightarrow> (pending_error + PendingPrediction) \<times> 'r" where
  "pending_get R pid r =
     (case rd_Get R (pendingKey pid) r of
        (Inl e, r1) \<Rightarrow> (Inl (PE_redis e), r1)
      | (Inr data, r1) \<Rightarrow>
          (case unmarshal_pending data of None \<Rightarrow> (Inl PE_json, r1) | Some p \<Rightarrow> (Inr p, r1)))"

definition member_id :: "json \<Rightarrow> string option" where
  "member_id m = (case m of JStr pid \<Rightarrow> Some pid | _ \<Rightarrow> None)"

fun get_all :: "'r RedisClient \<Rightarrow> string list \<Rightarrow> 'r \<Rightarrow> PendingPrediction list \<times> 'r" where
  "get_all R [] r = ([], r)"
| "get_all R (pid # ids) r =
     (case pending_get R pid r of
        (Inl e, r1) \<Rightarrow> get_all R ids r1
      | (Inr p, r1) \<Rightarrow> (case get_all R ids r1 of (out, r2) \<Rightarrow> (p # out, r2)))"

definition FindActive ::
  "'r RedisClient \<Rightarrow> string \<Rightarrow> string \<Rightarrow> string \<Rightarrow> int64 \<Rightarrow> 'r \<Rightarrow> (pending_error + PendingPrediction list) \<times> 'r" where
  "FindActive R agencyID routeID stationID now r =
     (case rd_ZRangeByScore R (indexKey agencyID routeID stationID) (Some (i_to_f64 now)) None None r of
        (Inl e, r1) \<Rightarrow> (Inl (PE_redis e), r1)
      | (Inr ids, r1) \<Rightarrow> (case get_all R (List.map_filter member_id ids) r1 of (out, r2) \<Rightarrow> (Inr out, r2)))"

definition Update :: "'r RedisClient \<Rightarrow> PendingPrediction \<Rightarrow> 'r \<Rightarrow> pending_error option \<times> 'r" where
  "Update R p r =
     (case rd_SetXX R (pendingKey (pd_ID p)) (marshal_pending p) r of
        (e, r1) \<Rightarrow> (if e = Some RedisNil then None else map_option PE_redis e, r1))"

definition pipe_ZRem :: "'r RedisClient \<Rightarrow> string \<Rightarrow> json \<Rightarrow> 'r \<Rightarrow> redis_error option \<times> 'r" where
  "pipe_ZRem R k m r = (case rd_ZRem R k m r of (Inl e, r1) \<Rightarrow> (Some e, r1) | (Inr n, r1) \<Rightarrow> (None, r1))"

text \<open>One round of \<open>PopExpired\<close>: claim the ID, read the document, drop it from the index.\<close>

definition claim :: "'r RedisClient \<Rightarrow> string \<Rightarrow> 'r \<Rightarrow> PendingPrediction option \<times> 'r" where
  "claim R pid r =
     (case rd_ZRem R expiryKey (JStr pid) r of
        (Inl e, r1) \<Rightarrow> (None, r1)
      | (Inr removed, r1) \<Rightarrow>
          if removed = 0 then (None, r1)
          else (case pending_get R pid r1 of
                  (Inl e, r2) \<Rightarrow> (None, r2)
                | (Inr p, r2) \<Rightarrow>
                    (case pipe_exec [pipe_ZRem R (indexKey (pd_AgencyID p) (pd_RouteID p) (pd_StationID p)) (JStr pid),
                                     rd_Del R [pendingKey pid]] r2 of
                       (e, r3) \<Rightarrow> (Some p, r3))))"

fun claim_all :: "'r RedisClient \<Rightarrow> string list \<Rightarrow> 'r \<Rightarrow> PendingPrediction list \<times> 'r" where
  "claim_all R [] r = ([], r)"
| "claim_all R (pid # ids) r =
     (case claim R pid r of
        (None, r1) \<Rightarrow> claim_all R ids r1
      | (Some p, r1) \<Rightarrow> (case claim_all R ids r1 of (out, r2) \<Rightarrow> (p # out, r2)))"

text \<open>\<open>Count\<close> is a limit when positive.\<close>

definition PopExpired ::
  "'r RedisClient \<Rightarrow> int64 \<Rightarrow> int \<Rightarrow> 'r \<Rightarrow> (pending_error + PendingPrediction list) \<times> 'r" where
  "PopExpired R now limit r =
     (case rd_ZRangeByScore R expiryKey None (Some (i_to_f64 now)) (if limit > 0 then Some (nat limit) else None) r of
        (Inl e, r1) \<Rightarrow> (Inl (PE_redis e), r1)
      | (Inr ids, r1) \<Rightarrow> (case claim_all R (List.map_filter member_id ids) r1 of (out, r2) \<Rightarrow> (Inr out, r2)))"

section \<open>Documents\<close>

definition pending_ok :: "PendingPrediction \<Rightarrow> bool" where
  "pending_ok p \<longleftrightarrow> in_i64 (pd_Direction p) \<and> in_i32 (pd_SourceDelaySecs p) \<and> in_i32 (pd_PredictedSecs p)
     \<and> in_i32 (pd_BaselineSecs p) \<and> in_i32 (pd_SchedConnDepSecs p) \<and> in_i32 (pd_EarliestCatchSecs p)
     \<and> f64 (pd_Confidence p) = pd_Confidence p \<and> in_i32 (pd_Hops p) \<and> in_i64 (pd_Hour p)
     \<and> in_i64 (pd_CreatedAt p) \<and> in_i64 (pd_ExpiresAt p) \<and> in_i32 (pd_ObservedMax p)"

lemma dec_absent [simp]: "dec_string None = Some []" "dec_int P None = Some 0"
  by (simp_all add: dec_string_def dec_int_def)

lemma unmarshal_marshal_pending: "pending_ok p \<Longrightarrow> unmarshal_pending (marshal_pending p) = Some p"
  by (cases p) (auto simp: unmarshal_pending_def marshal_pending_def pending_of_fields_def jfield_def pending_ok_def
      omit_empty_def)

lemma dec_float_f64: "dec_float j = Some x \<Longrightarrow> f64 x = x"
  by (auto simp: dec_float_def split: option.splits json.splits)

lemma dec_ranges: "dec_i32 j = Some i \<Longrightarrow> in_i32 i" "dec_i64 j = Some i \<Longrightarrow> in_i64 i"
  by (erule dec_int_range, simp add: in_i32_def in_i64_def)+

lemma bind_SomeE: "Option.bind x f = Some y \<Longrightarrow> (\<And>v. x = Some v \<Longrightarrow> f v = Some y \<Longrightarrow> Q) \<Longrightarrow> Q"
  by (cases x) auto

lemma pending_of_fields_ok: "pending_of_fields fs = Some p \<Longrightarrow> pending_ok p"
  unfolding pending_of_fields_def
  apply (erule bind_SomeE)+
  apply (simp only: option.inject, hypsubst)
  apply (simp only: pending_ok_def PendingPrediction.simps)
  apply (intro conjI; (erule dec_ranges | erule dec_float_f64))
  done

lemma unmarshal_pending_ok: "unmarshal_pending j = Some p \<Longrightarrow> pending_ok p"
  by (auto simp: unmarshal_pending_def pending_of_fields_ok split: json.splits)
    (simp add: zero_pending_def pending_ok_def in_i32_def in_i64_def)

section \<open>Abstract view\<close>

text \<open>The stored prediction of an ID, and whether the ID still waits for the sweeper.\<close>

definition pendings :: "keyspace \<Rightarrow> string \<Rightarrow> PendingPrediction option" where
  "pendings m pid = (case m (pendingKey pid) of Some (VStr v) \<Rightarrow> unmarshal_pending v | _ \<Rightarrow> None)"

definition waiting :: "keyspace \<Rightarrow> string \<Rightarrow> bool" where
  "waiting m pid \<longleftrightarrow> (case zset m expiryKey of None \<Rightarrow> False | Some z \<Rightarrow> mget z (JStr pid) \<noteq> None)"

definition expired_by :: "keyspace \<Rightarrow> rat \<Rightarrow> string \<Rightarrow> bool" where
  "expired_by m now pid \<longleftrightarrow> (\<exists>z s. zset m expiryKey = Some z \<and> (JStr pid, s) \<in> set z \<and> s \<le> now)"

lemma pending_keys [simp]:
  "pendingKey i = pendingKey j \<longleftrightarrow> i = j" "pendingKey i \<noteq> expiryKey" "expiryKey \<noteq> pendingKey i"
  "pendingKey i \<noteq> indexKey a b c" "indexKey a b c \<noteq> pendingKey i" "indexKey a b c \<noteq> expiryKey" "expiryKey \<noteq> indexKey a b c"
  by (simp_all add: pendingKey_def pendingKeyPrefix_def indexKey_def indexKeyPrefix_def expiryKey_def)

lemma pendings_frame: "m (pendingKey i) = m' (pendingKey i) \<Longrightarrow> pendings m i = pendings m' i"
  by (simp add: pendings_def)

lemma waiting_frame: "m expiryKey = m' expiryKey \<Longrightarrow> waiting m i = waiting m' i"
  by (simp add: waiting_def zset_def)

lemma put_zset_other: "k' \<noteq> k \<Longrightarrow> put_zset k z m k' = m k'"
  by (simp add: put_zset_def)

lemma waiting_removed: "zset m expiryKey = Some z \<Longrightarrow> waiting (put_zset expiryKey (mdel (JStr i) z) m) j = (waiting m j \<and> j \<noteq> i)"
  by (simp add: waiting_def)

context redis_client
begin

lemma pending_get_cases:
  "pending_get R i r = (res, r') \<Longrightarrow> ks r' = ks r \<and> (\<forall>p. res = Inr p \<longrightarrow> pendings (ks r) i = Some p)"
  by (auto simp: pending_get_def pendings_def split: prod.splits sum.splits option.splits dest!: Get_law)

lemma drop_frame:
  assumes "pipe_exec [pipe_ZRem R (indexKey a b c) m, rd_Del R [pendingKey i]] r = (e, r')"
  shows "ks r' expiryKey = ks r expiryKey \<and> (\<forall>j. j \<noteq> i \<longrightarrow> ks r' (pendingKey j) = ks r (pendingKey j))"
proof -
  obtain e1 r1 where 1: "rd_ZRem R (indexKey a b c) m r = (e1, r1)" by fastforce
  obtain e2 r2 where 2: "rd_Del R [pendingKey i] r1 = (e2, r2)" by fastforce
  have "r' = r2" using assms by (auto simp: 1 2 pipe_ZRem_def split: sum.splits option.splits)
  with ZRem_law [OF 1] Del_law [OF 2] show ?thesis by (auto simp: put_zset_other)
qed

lemma claim_cases:
  assumes "claim R i r = (po, r')"
  shows "(\<forall>j. j \<noteq> i \<longrightarrow> waiting (ks r') j = waiting (ks r) j \<and> pendings (ks r') j = pendings (ks r) j)
    \<and> (waiting (ks r') i \<longrightarrow> waiting (ks r) i)
    \<and> (po = None \<longrightarrow> pendings (ks r') i = pendings (ks r) i)
    \<and> (\<forall>p. po = Some p \<longrightarrow> waiting (ks r) i \<and> \<not> waiting (ks r') i \<and> pendings (ks r) i = Some p)"
proof -
  obtain res r1 where 1: "rd_ZRem R expiryKey (JStr i) r = (res, r1)" by fastforce
  note z = ZRem_law [OF 1]
  have p1: "pendings (ks r1) j = pendings (ks r) j" for j
    using z by (intro pendings_frame) (auto simp: put_zset_other)
  have w1: "waiting (ks r1) j \<longrightarrow> waiting (ks r) j" "j \<noteq> i \<longrightarrow> waiting (ks r1) j = waiting (ks r) j" for j
    using z by (auto simp: waiting_removed)
  show ?thesis
  proof (cases "\<exists>n. res = Inr n \<and> n \<noteq> 0")
    case False
    then have "po = None" "r' = r1" using assms by (auto simp: claim_def 1 split: sum.splits)
    then show ?thesis using p1 w1 by simp
  next
    case True
    then have c: "waiting (ks r) i" "\<not> waiting (ks r1) i"
      using z by (auto simp: waiting_removed) (auto simp: waiting_def split: if_splits)
    obtain g r2 where 2: "pending_get R i r1 = (g, r2)" by fastforce
    note pg = pending_get_cases [OF 2]
    show ?thesis
    proof (cases g)
      case (Inl e)
      then have "po = None" "r' = r2" using assms True by (auto simp: claim_def 1 2)
      then show ?thesis using p1 w1 pg by simp
    next
      case (Inr p)
      obtain e r3 where 3: "pipe_exec [pipe_ZRem R (indexKey (pd_AgencyID p) (pd_RouteID p) (pd_StationID p)) (JStr i),
          rd_Del R [pendingKey i]] r2 = (e, r3)" by fastforce
      have r: "po = Some p" "r' = r3" using assms True Inr 3 by (auto simp: claim_def 1 2 simp del: pipe_exec.simps)
      have "waiting (ks r3) j = waiting (ks r1) j" "j \<noteq> i \<Longrightarrow> pendings (ks r3) j = pendings (ks r1) j" for j
        using drop_frame [OF 3] pg waiting_frame [of "ks r3" "ks r1" j] pendings_frame [of "ks r3" j "ks r1"]
        by simp_all
      then show ?thesis using r p1 w1 pg c Inr by simp
    qed
  qed
qed

lemma claim_all_cases:
  "claim_all R ids r = (out, r') \<Longrightarrow>
   \<exists>cl. distinct cl \<and> set cl \<subseteq> set ids \<and> map (pendings (ks r)) cl = map Some out
     \<and> (\<forall>i\<in>set cl. waiting (ks r) i \<and> \<not> waiting (ks r') i)
     \<and> (\<forall>i. waiting (ks r') i \<longrightarrow> waiting (ks r) i)"
proof (induction ids arbitrary: r out)
  case (Cons i ids)
  obtain po r1 where c: "claim R i r = (po, r1)" by fastforce
  obtain out1 where a: "claim_all R ids r1 = (out1, r')"
    using Cons.prems by (auto simp: c split: option.splits prod.splits)
  note cc = claim_cases [OF c]
  obtain cl where cl: "distinct cl" "set cl \<subseteq> set ids" "map (pendings (ks r1)) cl = map Some out1"
    "\<forall>i\<in>set cl. waiting (ks r1) i \<and> \<not> waiting (ks r') i" "\<forall>i. waiting (ks r') i \<longrightarrow> waiting (ks r1) i"
    using Cons.IH [OF a] by blast
  have sub: "waiting (ks r1) j \<longrightarrow> waiting (ks r) j" for j using cc by (cases "j = i") auto
  show ?case
  proof (cases po)
    case None
    then have "pendings (ks r1) j = pendings (ks r) j" for j using cc by (cases "j = i") simp_all
    then have "pendings (ks r1) = pendings (ks r)" by (rule ext)
    moreover have "out = out1" using Cons.prems by (simp add: c a None)
    ultimately show ?thesis using cl sub by (intro exI [of _ cl]) auto
  next
    case (Some p)
    then have i: "waiting (ks r) i" "\<not> waiting (ks r1) i" "pendings (ks r) i = Some p" "i \<notin> set cl"
      using cc cl(4) by auto
    then have "map (pendings (ks r)) cl = map (pendings (ks r1)) cl" using cc by (intro map_cong) auto
    then show ?thesis
      using Cons.prems i cl sub by (intro exI [of _ "i # cl"]) (auto simp: c a Some)
  qed
qed auto

lemma PopExpired_cases:
  assumes "PopExpired R now limit r = (Inr out, r')"
  shows "\<exists>cl. distinct cl \<and> map (pendings (ks r)) cl = map Some out
     \<and> (\<forall>i\<in>set cl. waiting (ks r) i \<and> expired_by (ks r) (i_to_f64 now) i \<and> \<not> waiting (ks r') i)
     \<and> (0 < limit \<longrightarrow> int (length out) \<le> limit)"
proof -
  let ?cnt = "if limit > 0 then Some (nat limit) else None"
  obtain res r1 where 1: "rd_ZRangeByScore R expiryKey None (Some (i_to_f64 now)) ?cnt r = (res, r1)" by fastforce
  with assms obtain members where m: "res = Inr members" "claim_all R (List.map_filter member_id members) r1 = (out, r')"
    by (auto simp: PopExpired_def split: sum.splits prod.splits)
  from ZRangeByScore_law [OF 1] m(1) obtain z xs where z: "ks r1 = ks r" "zset (ks r) expiryKey = Some z"
      "mset xs = mset (filter (in_scores None (Some (i_to_f64 now))) z)"
      "members = map fst (case ?cnt of None \<Rightarrow> xs | Some n \<Rightarrow> take n xs)"
    by auto
  from claim_all_cases [OF m(2)] obtain cl where cl: "distinct cl" "set cl \<subseteq> set (List.map_filter member_id members)"
      "map (pendings (ks r)) cl = map Some out" "\<forall>i\<in>set cl. waiting (ks r) i \<and> \<not> waiting (ks r') i"
    by (auto simp: z(1))
  have "expired_by (ks r) (i_to_f64 now) i" if "i \<in> set cl" for i
  proof -
    have "JStr i \<in> set members"
      using that cl(2) by (auto simp: List.map_filter_def member_id_def split: json.splits if_splits)
    then have "\<exists>s. (JStr i, s) \<in> set xs" by (cases "0 < limit") (auto simp: z(4) dest!: in_set_takeD)
    then obtain s where "(JStr i, s) \<in> set z" "in_scores None (Some (i_to_f64 now)) (JStr i, s)"
      using mset_eq_setD [OF z(3)] by auto
    then show ?thesis using z(2) by (auto simp: expired_by_def in_scores_def)
  qed
  moreover have "int (length out) \<le> limit" if "0 < limit"
  proof -
    have "length out = length cl" using cl(3) by (metis length_map)
    also have "\<dots> = card (set cl)" using cl(1) by (simp add: distinct_card)
    also have "\<dots> \<le> length (List.map_filter member_id members)"
      using card_mono [OF _ cl(2)] card_length le_trans by blast
    also have "\<dots> \<le> length members" by (simp add: List.map_filter_def)
    also have "\<dots> \<le> nat limit" using that by (simp add: z(4))
    finally show ?thesis using that by linarith
  qed
  ultimately show ?thesis using cl by blast
qed

end

section \<open>An example\<close>

definition demo_pending :: PendingPrediction where
  "demo_pending =
     \<lparr>pd_ID = ''p1'', pd_AgencyID = ''MTA'', pd_FromRoute = ''B'', pd_RouteID = ''A'', pd_StationID = ''Q'',
      pd_SourceStation = ''P'', pd_Direction = 1, pd_SourceDelaySecs = 400, pd_PredictedSecs = 600, pd_BaselineSecs = 100,
      pd_SchedConnDepSecs = 36030, pd_EarliestCatchSecs = 36500, pd_Confidence = 1, pd_Hops = 1, pd_Hour = 10,
      pd_IsPrimary = True, pd_CreatedAt = 1000, pd_ExpiresAt = 2800, pd_ObservedMax = 0, pd_Matched = False\<rparr>"

definition demo_store :: mem_redis where
  "demo_store = snd (Add mem_client 1000000000000 demo_pending \<lparr>mr_data = [], mr_fail = []\<rparr>)"

lemma demo_store_eq: "Add mem_client 1000000000000 demo_pending \<lparr>mr_data = [], mr_fail = []\<rparr> = (None, demo_store)"
  by code_simp

lemma demo_pop: "PopExpired mem_client 2800 100 demo_store = (Inr [demo_pending], \<lparr>mr_data = [], mr_fail = []\<rparr>)"
  by code_simp

end
