(* ===== verification/Evaluator.thy ===== *)
theory Evaluator
  imports Pending Transfers Poller
begin

text \<open>
  \<open>internal/evaluation/evaluator.go\<close>: predictions are tracked, matched against observed delays and
  finalized. The two recorder interfaces are arguments over the Redis connection. The metrics a
  finalization feeds are its result; log lines are left out. \<open>seq\<close> is the process-wide counter
  \<open>pendingSeq\<close>, \<open>now\<close> and \<open>nano\<close> the clock readings of a call.
\<close>

section \<open>Definitions\<close>

definition predictionWindowSecs :: int where "predictionWindowSecs = 1800"
definition minTrackConfidence :: float64 where "minTrackConfidence = f64 (3 / 10)"
definition maxTracked :: nat where "maxTracked = 20"
definition maxBaselineRoutes :: nat where "maxBaselineRoutes = 3"
definition verifyMinSeconds :: int32 where "verifyMinSeconds = 15"
definition verifyRatio :: float64 where "verifyRatio = 1 / 2"
definition sweepBatchSize :: int where "sweepBatchSize = 100"

text \<open>The interfaces \<open>HistoryRecorder\<close> and \<open>StopOutcomeRecorder\<close>; the second may be nil.\<close>

record 'r recorders =
  rc_RecordObservation :: "string \<Rightarrow> string \<Rightarrow> string \<Rightarrow> int \<Rightarrow> int \<Rightarrow> int \<Rightarrow> 'r \<Rightarrow> redis_error option \<times> 'r"
  rc_RecordStopOutcome :: "(string \<Rightarrow> string \<Rightarrow> int \<Rightarrow> int \<Rightarrow> 'r \<Rightarrow> redis_error option \<times> 'r) option"

record Evaluator =
  el_graph :: TransitGraph
  el_agencyID :: string

text \<open>\<open>TrackPrediction\<close>: the primary is the smallest hop-1 prediction on the receiving route.\<close>

definition primary_step ::
  "string \<Rightarrow> nat option \<times> int32 \<Rightarrow> nat \<times> DownstreamImpact \<Rightarrow> nat option \<times> int32" where
  "primary_step toRoute best e =
     (case e of (i, imp) \<Rightarrow>
        if di_HopsFromSource imp \<noteq> 1 \<or> di_RouteId imp \<noteq> toRoute then best
        else (case best of (idx, d) \<Rightarrow>
                if idx = None \<or> di_PredictedAdditionalDelay imp < d
                then (Some i, di_PredictedAdditionalDelay imp) else best))"

definition primary_index :: "string \<Rightarrow> DownstreamImpact list \<Rightarrow> nat option" where
  "primary_index toRoute imps = fst (foldl (primary_step toRoute) (None, 0) (enumerate 0 imps))"

definition track_order :: "nat option \<Rightarrow> nat \<Rightarrow> nat list" where
  "track_order primary n =
     (case primary of None \<Rightarrow> [] | Some i \<Rightarrow> [i]) @ filter (\<lambda>i. Some i \<noteq> primary) [0..<n]"

definition put_max_delay ::
  "TransitGraph \<Rightarrow> string \<Rightarrow> (string, int32) gomap \<Rightarrow> DelayState \<Rightarrow> (string, int32) gomap" where
  "put_max_delay g route out ds =
     (let key = route @ '':'' @ ParentStationID g (sd_StopID ds)
      in if sd_DelaySeconds ds > mgetd 0 out key then mput key (sd_DelaySeconds ds) out else out)"

fun baseline_loop ::
  "'r RedisClient \<Rightarrow> Evaluator \<Rightarrow> DownstreamImpact list \<Rightarrow> (string, bool) gomap \<Rightarrow> (string, int32) gomap \<Rightarrow> 'r
   \<Rightarrow> (string, int32) gomap \<times> 'r" where
  "baseline_loop R e [] seen out r = (out, r)"
| "baseline_loop R e (imp # imps) seen out r =
     (let route = di_RouteId imp
      in if mgetd False seen route then baseline_loop R e imps seen out r
         else if length seen \<ge> maxBaselineRoutes then (out, r)
         else (case GetRouteDelays R (el_agencyID e) route r of
                 (Inl _, r1) \<Rightarrow> baseline_loop R e imps (mput route True seen) out r1
               | (Inr found, r1) \<Rightarrow>
                   baseline_loop R e imps (mput route True seen) (foldl (put_max_delay (el_graph e) route) out found) r1))"

definition baselineDelays ::
  "'r RedisClient \<Rightarrow> Evaluator \<Rightarrow> DownstreamImpact list \<Rightarrow> 'r \<Rightarrow> (string, int32) gomap \<times> 'r" where
  "baselineDelays R e imps r = baseline_loop R e imps [] [] r"

definition hour_of :: "location \<Rightarrow> Evaluator \<Rightarrow> int64 \<Rightarrow> int" where
  "hour_of local e t = (t + Location local (Some (el_graph e)) t) mod 86400 div 3600"

definition to_direction :: "Evaluator \<Rightarrow> TransferImpact \<Rightarrow> int" where
  "to_direction e src =
     (if ti_NextViableTripId src = [] then - 1
      else (case mget (TripDirection (el_graph e)) (ti_NextViableTripId src) of None \<Rightarrow> - 1 | Some d \<Rightarrow> d))"

definition pending_id :: "string \<Rightarrow> string \<Rightarrow> string \<Rightarrow> int \<Rightarrow> int \<Rightarrow> string" where
  "pending_id fromRoute routeID stopID nano seq =
     fromRoute @ '':'' @ routeID @ '':'' @ stopID @ '':'' @ itoa nano @ '':'' @ itoa seq"

definition new_pending ::
  "location \<Rightarrow> Evaluator \<Rightarrow> TransferImpact \<Rightarrow> DownstreamImpact \<Rightarrow> bool \<Rightarrow> (string, int32) gomap \<Rightarrow> int64 \<Rightarrow> int \<Rightarrow> int
   \<Rightarrow> PendingPrediction" where
  "new_pending local e src imp primary baselines created nano seq =
     \<lparr>pd_ID = pending_id (ti_FromRouteId src) (di_RouteId imp) (di_StopId imp) nano seq,
      pd_AgencyID = el_agencyID e, pd_FromRoute = ti_FromRouteId src, pd_RouteID = di_RouteId imp,
      pd_StationID = di_StopId imp, pd_SourceStation = ParentStationID (el_graph e) (ti_StationId src),
      pd_Direction = (if di_RouteId imp = ti_ToRouteId src then to_direction e src else - 1),
      pd_SourceDelaySecs = ti_SourceDelaySeconds src, pd_PredictedSecs = di_PredictedAdditionalDelay imp,
      pd_BaselineSecs = mgetd 0 baselines (di_RouteId imp @ '':'' @ di_StopId imp),
      pd_SchedConnDepSecs = ti_SchedConnectionDepartureSecs src, pd_EarliestCatchSecs = ti_EarliestCatchSecs src,
      pd_Confidence = di_Confidence imp, pd_Hops = di_HopsFromSource imp, pd_Hour = hour_of local e created,
      pd_IsPrimary = primary, pd_CreatedAt = created, pd_ExpiresAt = i64 (created + predictionWindowSecs),
      pd_ObservedMax = 0, pd_Matched = False\<rparr>"

text \<open>The tracking loop over the ordered indices; \<open>mk i seq\<close> builds the pending of impact \<open>i\<close>.\<close>

fun track_loop ::
  "'r RedisClient \<Rightarrow> int \<Rightarrow> (nat \<Rightarrow> int \<Rightarrow> PendingPrediction) \<Rightarrow> (nat \<Rightarrow> bool) \<Rightarrow> nat list \<Rightarrow> nat \<Rightarrow> pending_error option
   \<Rightarrow> int \<Rightarrow> 'r \<Rightarrow> pending_error option \<times> int \<times> 'r" where
  "track_loop R nano mk wanted [] tracked firstErr seq r = (firstErr, seq, r)"
| "track_loop R nano mk wanted (i # is) tracked firstErr seq r =
     (if tracked \<ge> maxTracked then (firstErr, seq, r)
      else if \<not> wanted i then track_loop R nano mk wanted is tracked firstErr seq r
      else let seq1 = (seq + 1) mod 18446744073709551616
           in (case Add R nano (mk i seq1) r of
                 (None, r1) \<Rightarrow> track_loop R nano mk wanted is (tracked + 1) firstErr seq1 r1
               | (Some err, r1) \<Rightarrow>
                   track_loop R nano mk wanted is tracked (if firstErr = None then Some err else firstErr) seq1 r1))"

definition TrackPrediction ::
  "'r RedisClient \<Rightarrow> location \<Rightarrow> Evaluator \<Rightarrow> TransferImpact \<Rightarrow> PropagationResult \<Rightarrow> int64 \<Rightarrow> int \<Rightarrow> int \<Rightarrow> 'r
   \<Rightarrow> pending_error option \<times> int \<times> 'r" where
  "TrackPrediction R local e src res now nano seq r =
     (let created = (if pr_ComputedAt res = 0 then now else pr_ComputedAt res);
          imps = pr_Impacts res;
          primary = primary_index (ti_ToRouteId src) imps
      in case baselineDelays R e imps r of
           (baselines, r1) \<Rightarrow>
             track_loop R nano (\<lambda>i. new_pending local e src (imps ! i) (Some i = primary) baselines created nano)
               (\<lambda>i. \<not> di_Confidence (imps ! i) < minTrackConfidence \<or> Some i = primary)
               (track_order primary (length imps)) 0 None seq r1)"

text \<open>\<open>OnDelayEvent\<close>: the match of one pending, \<open>None\<close> for a skipped or unchanged one.\<close>

definition match_pending :: "(int option) \<Rightarrow> DelayEvent \<Rightarrow> PendingPrediction \<Rightarrow> PendingPrediction option" where
  "match_pending evDir ev p =
     (if ev_ObservedAt ev < pd_CreatedAt p \<or> ev_ObservedAt ev > pd_ExpiresAt p then None
      else if pd_Direction p \<ge> 0 \<and> (case evDir of None \<Rightarrow> False | Some d \<Rightarrow> d \<noteq> pd_Direction p) then None
      else let diff = i32 (ev_DelaySeconds ev - pd_BaselineSecs p);
               additional = (if diff < 0 then 0 else diff)
           in if \<not> pd_Matched p \<or> additional > pd_ObservedMax p
              then Some (p\<lparr>pd_Matched := True, pd_ObservedMax := additional\<rparr>) else None)"

fun match_all ::
  "'r RedisClient \<Rightarrow> int option \<Rightarrow> DelayEvent \<Rightarrow> PendingPrediction list \<Rightarrow> pending_error option \<Rightarrow> 'r
   \<Rightarrow> pending_error option \<times> 'r" where
  "match_all R evDir ev [] firstErr r = (firstErr, r)"
| "match_all R evDir ev (p # ps) firstErr r =
     (case match_pending evDir ev p of
        None \<Rightarrow> match_all R evDir ev ps firstErr r
      | Some p' \<Rightarrow>
          (case Update R p' r of
             (err, r1) \<Rightarrow> match_all R evDir ev ps (if firstErr = None then err else firstErr) r1))"

definition event_route :: "Evaluator \<Rightarrow> DelayEvent \<Rightarrow> string" where
  "event_route e ev =
     (if ev_RouteId ev = [] then mgetd [] (TripRoute (el_graph e)) (ev_TripId ev) else ev_RouteId ev)"

definition OnDelayEvent ::
  "'r RedisClient \<Rightarrow> Evaluator \<Rightarrow> int64 \<Rightarrow> DelayEvent \<Rightarrow> 'r \<Rightarrow> pending_error option \<times> 'r" where
  "OnDelayEvent R e now ev r =
     (if ev_Type ev \<noteq> ARRIVAL_DELAY \<and> ev_Type ev \<noteq> DEPARTURE_DELAY then (None, r)
      else if event_route e ev = [] then (None, r)
      else (case FindActive R (el_agencyID e) (event_route e ev) (ParentStationID (el_graph e) (ev_StopId ev)) now r of
              (Inl err, r1) \<Rightarrow> (Some err, r1)
            | (Inr ps, r1) \<Rightarrow>
                (if ps = [] then (None, r1)
                 else match_all R (mget (TripDirection (el_graph e)) (ev_TripId ev)) ev ps None r1)))"

text \<open>\<open>realizedWait\<close>: the loop over the departures from the scheduled connection on.\<close>

fun realized_loop ::
  "'r RedisClient \<Rightarrow> TransitGraph \<Rightarrow> PendingPrediction \<Rightarrow> ScheduledStopTime list \<Rightarrow> 'r \<Rightarrow> int32 option \<times> 'r" where
  "realized_loop R g p [] r = (None, r)"
| "realized_loop R g p (st # sts) r =
     (if DepartureSecs st > pd_EarliestCatchSecs p + predictionWindowSecs then (None, r)
      else if pd_Direction p \<ge> 0
              \<and> (case mget (TripDirection g) (TripID st) of None \<Rightarrow> False | Some d \<Rightarrow> d \<noteq> pd_Direction p)
      then realized_loop R g p sts r
      else (case tripDelayAt R g (pd_AgencyID p) (TripID st) (pd_SourceStation p) r of
              (delay, r1) \<Rightarrow>
                let realized = i64 (DepartureSecs st + delay)
                in if realized \<ge> pd_EarliestCatchSecs p
                   then let wait = i32 (i32 realized - pd_SchedConnDepSecs p)
                        in (Some (if wait < 0 then 0 else wait), r1)
                   else realized_loop R g p sts r1))"

definition realizedWait :: "'r RedisClient \<Rightarrow> Evaluator \<Rightarrow> PendingPrediction \<Rightarrow> 'r \<Rightarrow> int32 option \<times> 'r" where
  "realizedWait R e p r =
     realized_loop R (el_graph e) p
       (GetNextDepartures (el_graph e) (pd_SourceStation p) (pd_RouteID p) (pd_SchedConnDepSecs p) 10) r"

text \<open>\<open>ConfidenceBucket\<close> and the outcome of a finalized prediction, which is what the metrics count.\<close>

definition ConfidenceBucket :: "float64 \<Rightarrow> string" where
  "ConfidenceBucket c =
     (if c < f64 (4 / 10) then ''0.2-0.4'' else if c < f64 (6 / 10) then ''0.4-0.6''
      else if c < f64 (8 / 10) then ''0.6-0.8'' else ''0.8-1.0'')"

record outcome =
  oc_Pending :: PendingPrediction \<comment> \<open>with the final \<open>ObservedMax\<close>\<close>
  oc_Verified :: bool
  oc_AbsErr :: float64
  oc_Bucket :: string

definition outcome_of :: "PendingPrediction \<Rightarrow> outcome" where
  "outcome_of p =
     \<lparr>oc_Pending = p,
      oc_Verified = (pd_ObservedMax p \<ge> verifyMinSeconds
        \<and> i_to_f64 (pd_ObservedMax p) \<ge> f64 (verifyRatio * i_to_f64 (pd_PredictedSecs p))),
      oc_AbsErr = \<bar>i_to_f64 (i32 (pd_PredictedSecs p - pd_ObservedMax p))\<bar>,
      oc_Bucket = ConfidenceBucket (pd_Confidence p)\<rparr>"

definition observe :: "'r RedisClient \<Rightarrow> Evaluator \<Rightarrow> PendingPrediction \<Rightarrow> 'r \<Rightarrow> PendingPrediction \<times> 'r" where
  "observe R e p r =
     (if pd_IsPrimary p \<and> pd_SchedConnDepSecs p > 0
      then (case realizedWait R e p r of
              (None, r1) \<Rightarrow> (p, r1)
            | (Some wait, r1) \<Rightarrow> (p\<lparr>pd_ObservedMax := wait, pd_Matched := True\<rparr>, r1))
      else (p, r))"

definition record_outcome :: "'r recorders \<Rightarrow> PendingPrediction \<Rightarrow> 'r \<Rightarrow> redis_error option \<times> 'r" where
  "record_outcome rec p r =
     (if pd_IsPrimary p
      then rc_RecordObservation rec (pd_FromRoute p) (pd_RouteID p)
             (if pd_SourceStation p = [] then pd_StationID p else pd_SourceStation p) (pd_Hour p)
             (pd_SourceDelaySecs p) (pd_ObservedMax p) r
      else (case rc_RecordStopOutcome rec of
              None \<Rightarrow> (None, r)
            | Some record \<Rightarrow> record (pd_RouteID p) (pd_StationID p) (pd_Hour p) (pd_ObservedMax p) r))"

fun finalize_all ::
  "'r RedisClient \<Rightarrow> 'r recorders \<Rightarrow> Evaluator \<Rightarrow> PendingPrediction list \<Rightarrow> 'r \<Rightarrow> outcome list \<times> 'r" where
  "finalize_all R rec e [] r = ([], r)"
| "finalize_all R rec e (p # ps) r =
     (case observe R e p r of
        (p1, r1) \<Rightarrow>
          (case record_outcome rec p1 r1 of
             (err, r2) \<Rightarrow> (case finalize_all R rec e ps r2 of (out, r3) \<Rightarrow> (outcome_of p1 # out, r3))))"

definition sweepOnce ::
  "'r RedisClient \<Rightarrow> 'r recorders \<Rightarrow> Evaluator \<Rightarrow> int64 \<Rightarrow> 'r \<Rightarrow> (pending_error + outcome list) \<times> 'r" where
  "sweepOnce R rec e now r =
     (case PopExpired R now sweepBatchSize r of
        (Inl err, r1) \<Rightarrow> (Inl err, r1)
      | (Inr expired, r1) \<Rightarrow> (case finalize_all R rec e expired r1 of (out, r2) \<Rightarrow> (Inr out, r2)))"

text \<open>The sweeper's loop over the cases its \<open>select\<close> takes; each tick carries the clock reading and the
  recorders at that time.\<close>

fun RunSweeper ::
  "'r RedisClient \<Rightarrow> (int64 \<Rightarrow> 'r recorders) \<Rightarrow> Evaluator \<Rightarrow> int64 option list \<Rightarrow> 'r \<Rightarrow> 'r" where
  "RunSweeper R rec e [] r = r"
| "RunSweeper R rec e (None # cs) r = r"
| "RunSweeper R rec e (Some now # cs) r = RunSweeper R rec e cs (snd (sweepOnce R (rec now) e now r))"

end
