(* ===== verification/EvaluatorProps.thy ===== *)
theory EvaluatorProps
  imports Evaluator PropagationProps
begin

text \<open>
  What the evaluator guarantees: which predictions are tracked, how an observed delay updates them, what
  the realized wait is, that a sweep finalizes every prediction at most once, and that the outcome of a
  primary prediction is what the engine reads back. The locale \<open>outcome_recorder\<close> is what the sweeper
  relies on in its recorders; the two history stores provide it over every Redis client.
\<close>

section \<open>Matching\<close>

text \<open>Every document is stored under its own ID.\<close>

definition ids_ok :: "keyspace \<Rightarrow> bool" where
  "ids_ok m \<longleftrightarrow> (\<forall>i p. pendings m i = Some p \<longrightarrow> pd_ID p = i)"

lemma set_member_ids: "i \<in> set (List.map_filter member_id ms) \<longleftrightarrow> JStr i \<in> set ms"
  by (induction ms) (auto simp: map_filter_simps member_id_def split: json.splits option.splits)

lemma match_pending_ok: "match_pending dir ev p = Some p' \<Longrightarrow> pending_ok p \<Longrightarrow> pending_ok p' \<and> pd_ID p' = pd_ID p"
  by (auto simp: match_pending_def Let_def pending_ok_def in_i32_def[of 0] split: if_splits)

context redis_client
begin

lemma Update_cases:
  assumes "Update R p r = (e, r')" "pending_ok p"
  shows "(\<forall>j. j \<noteq> pd_ID p \<longrightarrow> pendings (ks r') j = pendings (ks r) j)
    \<and> (pendings (ks r') (pd_ID p) = pendings (ks r) (pd_ID p)
        \<or> ks r (pendingKey (pd_ID p)) \<noteq> None \<and> pendings (ks r') (pd_ID p) = Some p)"
proof -
  obtain x r1 where 1: "rd_SetXX R (pendingKey (pd_ID p)) (marshal_pending p) r = (x, r1)" by fastforce
  have "r' = r1" using assms(1) by (simp add: Update_def 1)
  then show ?thesis
    using SetXX_law [OF 1] unmarshal_marshal_pending [OF assms(2)] by (auto simp: pendings_def split: if_splits)
qed

lemma get_all_cases:
  "get_all R is r = (out, r') \<Longrightarrow> ks r' = ks r \<and> (\<forall>p\<in>set out. \<exists>i\<in>set is. pendings (ks r) i = Some p)"
proof (induction "is" arbitrary: r out)
  case (Cons i "is")
  obtain g r1 where g: "pending_get R i r = (g, r1)" by fastforce
  obtain out1 where a: "get_all R is r1 = (out1, r')" using Cons.prems by (auto simp: g split: sum.splits prod.splits)
  show ?case
    using Cons.prems Cons.IH [OF a] pending_get_cases [OF g] by (cases g) (auto simp: g a)
qed simp

text \<open>\<open>updates f m m'\<close>: each stored prediction is unchanged or replaced by its match.\<close>

definition updates :: "(PendingPrediction \<Rightarrow> PendingPrediction option) \<Rightarrow> keyspace \<Rightarrow> keyspace \<Rightarrow> bool" where
  "updates f m m' \<longleftrightarrow> (\<forall>i. pendings m' i = pendings m i
      \<or> (\<exists>p p'. pendings m i = Some p \<and> f p = Some p' \<and> pendings m' i = Some p'))"

lemma match_all_updates:
  assumes "match_all R dir ev ps fe r = (e, r')"
    and "\<forall>p\<in>set ps. pendings m (pd_ID p) = Some p" and "updates (match_pending dir ev) m (ks r)"
  shows "updates (match_pending dir ev) m (ks r')"
  using assms
proof (induction ps arbitrary: fe r)
  case (Cons p ps)
  show ?case
  proof (cases "match_pending dir ev p")
    case None
    then show ?thesis using Cons by simp
  next
    case (Some p')
    obtain x r1 where u: "Update R p' r = (x, r1)" by fastforce
    have p: "pendings m (pd_ID p) = Some p" using Cons.prems(2) by simp
    then have ok: "pending_ok p" by (auto simp: pendings_def intro: unmarshal_pending_ok split: option.splits redis_value.splits)
    note mp = match_pending_ok [OF Some ok]
    have "updates (match_pending dir ev) m (ks r1)"
      unfolding updates_def
    proof (rule allI)
      fix i
      show "pendings (ks r1) i = pendings m i \<or>
        (\<exists>p p'. pendings m i = Some p \<and> match_pending dir ev p = Some p' \<and> pendings (ks r1) i = Some p')"
        using Update_cases [OF u conjunct1 [OF mp]] spec [OF Cons.prems(3) [unfolded updates_def], of i] p Some mp
        by (cases "i = pd_ID p") auto
    qed
    then show ?thesis using Cons Some u by (auto split: prod.splits)
  qed
qed simp

lemma OnDelayEvent_updates:
  assumes "OnDelayEvent R e now ev r = (err, r')" and "ids_ok (ks r)"
  shows "updates (match_pending (mget (TripDirection (el_graph e)) (ev_TripId ev)) ev) (ks r) (ks r')"
proof -
  have refl: "updates f m m" for f m by (simp add: updates_def)
  show ?thesis
  proof (cases "(ev_Type ev \<noteq> ARRIVAL_DELAY \<and> ev_Type ev \<noteq> DEPARTURE_DELAY) \<or> event_route e ev = []")
    case True
    then show ?thesis using assms(1) refl by (auto simp: OnDelayEvent_def split: if_splits)
  next
    case False
    obtain res r1 where f: "FindActive R (el_agencyID e) (event_route e ev) (ParentStationID (el_graph e) (ev_StopId ev)) now r
      = (res, r1)" by fastforce
    obtain ids r2 where z: "rd_ZRangeByScore R (indexKey (el_agencyID e) (event_route e ev)
        (ParentStationID (el_graph e) (ev_StopId ev))) (Some (i_to_f64 now)) None None r = (ids, r2)" by fastforce
    have k2: "ks r2 = ks r" using ZRangeByScore_law [OF z] by simp
    have ps: "ks r1 = ks r \<and> (\<forall>ps. res = Inr ps \<longrightarrow> (\<forall>p\<in>set ps. pendings (ks r) (pd_ID p) = Some p))"
    proof (cases ids)
      case (Inl x)
      then show ?thesis using f k2 by (auto simp: FindActive_def z)
    next
      case (Inr ms)
      obtain out r3 where g: "get_all R (List.map_filter member_id ms) r2 = (out, r3)" by fastforce
      then show ?thesis
        using f get_all_cases [OF g] k2 assms(2) Inr by (fastforce simp: FindActive_def z ids_ok_def)
    qed
    show ?thesis
      using assms(1) False f ps refl match_all_updates [of _ ev]
      by (auto simp: OnDelayEvent_def split: sum.splits if_splits)
  qed
qed

end

text \<open>What a match leaves, spelled out.\<close>

definition matched :: "int option \<Rightarrow> DelayEvent \<Rightarrow> PendingPrediction \<Rightarrow> PendingPrediction" where
  "matched dir ev p = (case match_pending dir ev p of None \<Rightarrow> p | Some p' \<Rightarrow> p')"

lemma match_pending_spec:
  "match_pending dir ev p =
     (if pd_CreatedAt p \<le> ev_ObservedAt ev \<and> ev_ObservedAt ev \<le> pd_ExpiresAt p
         \<and> (pd_Direction p < 0 \<or> dir = None \<or> dir = Some (pd_Direction p))
         \<and> (pd_Matched p \<longrightarrow> pd_ObservedMax p < max 0 (i32 (ev_DelaySeconds ev - pd_BaselineSecs p)))
      then Some (p\<lparr>pd_Matched := True, pd_ObservedMax := max 0 (i32 (ev_DelaySeconds ev - pd_BaselineSecs p))\<rparr>)
      else None)"
  by (auto simp: match_pending_def Let_def max_def split: option.splits)

context healthy_redis
begin

lemma pending_get_exact:
  assumes "pending_get R i r = (res, r')" "healthy r"
  shows "healthy r' \<and> ks r' = ks r \<and> pendings (ks r) i = (case res of Inl e \<Rightarrow> None | Inr p \<Rightarrow> Some p)"
proof -
  obtain g r1 where g: "rd_Get R (pendingKey i) r = (g, r1)" by fastforce
  show ?thesis
    using assms(1) Get_law [OF g] Get_healthy [OF assms(2) g]
    by (cases g) (auto simp: pending_get_def g pendings_def split: option.splits)
qed

lemma get_all_exact:
  "get_all R is r = (out, r') \<Longrightarrow> healthy r \<Longrightarrow>
   healthy r' \<and> ks r' = ks r \<and> set out = {p. \<exists>i\<in>set is. pendings (ks r) i = Some p}"
proof (induction "is" arbitrary: r out)
  case (Cons i "is")
  obtain g r1 where g: "pending_get R i r = (g, r1)" by fastforce
  obtain out1 where a: "get_all R is r1 = (out1, r')" using Cons.prems by (auto simp: g split: sum.splits prod.splits)
  show ?case
    using Cons.prems Cons.IH [OF a] pending_get_exact [OF g] by (cases g) (auto simp: g a)
qed simp

lemma Update_exact:
  assumes "Update R p r = (e, r')" "pending_ok p" "healthy r" "pendings (ks r) (pd_ID p) \<noteq> None"
  shows "healthy r' \<and> e = None \<and> pendings (ks r') = (pendings (ks r))(pd_ID p \<mapsto> p)"
proof -
  obtain x r1 where 1: "rd_SetXX R (pendingKey (pd_ID p)) (marshal_pending p) r = (x, r1)" by fastforce
  have "ks r (pendingKey (pd_ID p)) \<noteq> None" using assms(4) by (auto simp: pendings_def split: option.splits)
  then show ?thesis
    using assms(1) SetXX_law [OF 1] SetXX_healthy [OF assms(3) 1] unmarshal_marshal_pending [OF assms(2)]
    by (auto simp: Update_def 1 pendings_def fun_eq_iff)
qed

lemma match_all_exact:
  assumes "match_all R dir ev ps fe r = (e, r')" "healthy r"
    and "\<forall>p\<in>set ps. pendings m (pd_ID p) = Some p"
    and "\<forall>i. pendings (ks r) i = pendings m i \<or> pendings (ks r) i = map_option (matched dir ev) (pendings m i)"
  shows "healthy r' \<and> (\<forall>i. pendings (ks r') i =
    (if i \<in> pd_ID ` set ps then map_option (matched dir ev) (pendings m i) else pendings (ks r) i))"
  using assms
proof (induction ps arbitrary: fe r)
  case (Cons p ps)
  have p: "pendings m (pd_ID p) = Some p" using Cons.prems(3) by simp
  show ?case
  proof (cases "match_pending dir ev p")
    case None
    then have "matched dir ev p = p" by (simp add: matched_def)
    then have "pendings (ks r) (pd_ID p) = map_option (matched dir ev) (pendings m (pd_ID p))"
      using spec [OF Cons.prems(4), of "pd_ID p"] p by simp
    then show ?thesis using Cons.IH [of fe r] Cons.prems None by auto
  next
    case (Some p')
    obtain x r1 where u: "Update R p' r = (x, r1)" by fastforce
    have ok: "pending_ok p"
      using p by (auto simp: pendings_def intro: unmarshal_pending_ok split: option.splits redis_value.splits)
    note mp = match_pending_ok [OF Some ok]
    have "pendings (ks r) (pd_ID p') \<noteq> None"
      using spec [OF Cons.prems(4), of "pd_ID p"] p mp by auto
    then have 1: "healthy r1" "pendings (ks r1) = (pendings (ks r))(pd_ID p \<mapsto> p')"
      using Update_exact [OF u conjunct1 [OF mp] Cons.prems(2)] mp by auto
    have m: "matched dir ev p = p'" by (simp add: matched_def Some)
    have "match_all R dir ev ps (if fe = None then x else fe) r1 = (e, r')"
      using Cons.prems(1) by (simp add: Some u)
    from Cons.IH [OF this 1(1)] Cons.prems(3,4) show ?thesis by (auto simp: 1(2) p m)
  qed
qed simp

lemma OnDelayEvent_exact:
  assumes "OnDelayEvent R e now ev r = (err, r')" "healthy r" "ids_ok (ks r)"
    and "ev_Type ev = ARRIVAL_DELAY \<or> ev_Type ev = DEPARTURE_DELAY" "event_route e ev \<noteq> []"
    and "zset (ks r) (indexKey (el_agencyID e) (event_route e ev) (ParentStationID (el_graph e) (ev_StopId ev))) = Some z"
  shows "pendings (ks r') i =
    (if \<exists>s. (JStr i, s) \<in> set z \<and> i_to_f64 now \<le> s
     then map_option (matched (mget (TripDirection (el_graph e)) (ev_TripId ev)) ev) (pendings (ks r) i)
     else pendings (ks r) i)"
proof -
  let ?k = "indexKey (el_agencyID e) (event_route e ev) (ParentStationID (el_graph e) (ev_StopId ev))"
  let ?dir = "mget (TripDirection (el_graph e)) (ev_TripId ev)"
  obtain res r1 where z: "rd_ZRangeByScore R ?k (Some (i_to_f64 now)) None None r = (res, r1)" by fastforce
  from ZRangeByScore_law [OF z] ZRangeByScore_healthy [OF assms(2) z] assms(6)
  obtain xs where xs: "ks r1 = ks r" "healthy r1" "res = Inr (map fst xs)"
    "mset xs = mset (filter (in_scores (Some (i_to_f64 now)) None) z)"
    by auto
  let ?ids = "List.map_filter member_id (map fst xs)"
  have ids: "i \<in> set ?ids \<longleftrightarrow> (\<exists>s. (JStr i, s) \<in> set z \<and> i_to_f64 now \<le> s)" for i
    using mset_eq_setD [OF xs(4)] by (force simp: set_member_ids in_scores_def)
  obtain ps r2 where g: "get_all R ?ids r1 = (ps, r2)" by fastforce
  note ge = get_all_exact [OF g xs(2)]
  have f: "FindActive R (el_agencyID e) (event_route e ev) (ParentStationID (el_graph e) (ev_StopId ev)) now r = (Inr ps, r2)"
    by (simp add: FindActive_def z xs(3) g)
  have o: "match_all R ?dir ev ps None r2 = (err, r')"
    using assms(1,4,5) by (auto simp: OnDelayEvent_def f split: if_splits)
  have "\<forall>p\<in>set ps. pendings (ks r) (pd_ID p) = Some p"
    using ge assms(3) xs(1) by (auto simp: ids_ok_def)
  from match_all_exact [OF o _ this] ge xs(1)
  have "pendings (ks r') i = (if i \<in> pd_ID ` set ps then map_option (matched ?dir ev) (pendings (ks r) i) else pendings (ks r) i)"
    by simp
  moreover have "i \<in> pd_ID ` set ps \<longleftrightarrow> i \<in> set ?ids \<and> pendings (ks r) i \<noteq> None"
    using ge assms(3) xs(1) by (force simp: ids_ok_def image_iff)
  ultimately show ?thesis by (auto simp: ids)
qed

end

section \<open>The realized wait\<close>

text \<open>The first departure within the horizon that the passenger can board, by the abstract delay table.\<close>

definition usable :: "TransitGraph \<Rightarrow> PendingPrediction \<Rightarrow> ScheduledStopTime \<Rightarrow> bool" where
  "usable g p st \<longleftrightarrow> pd_Direction p < 0 \<or> mget (TripDirection g) (TripID st) = None
     \<or> mget (TripDirection g) (TripID st) = Some (pd_Direction p)"

definition actual_departure ::
  "(string \<Rightarrow> DelayState option) \<Rightarrow> TransitGraph \<Rightarrow> PendingPrediction \<Rightarrow> ScheduledStopTime \<Rightarrow> int" where
  "actual_departure m g p st = DepartureSecs st + known_delay m g (pd_AgencyID p) (TripID st) (pd_SourceStation p)"

definition realized_spec ::
  "(string \<Rightarrow> DelayState option) \<Rightarrow> TransitGraph \<Rightarrow> PendingPrediction \<Rightarrow> ScheduledStopTime list \<Rightarrow> int option" where
  "realized_spec m g p deps =
     map_option (\<lambda>st. max 0 (actual_departure m g p st - pd_SchedConnDepSecs p))
       (List.find (\<lambda>st. usable g p st \<and> pd_EarliestCatchSecs p \<le> actual_departure m g p st)
          (takeWhile (\<lambda>st. DepartureSecs st \<le> pd_EarliestCatchSecs p + 1800) deps))"

definition plain_departures ::
  "(string \<Rightarrow> DelayState option) \<Rightarrow> TransitGraph \<Rightarrow> PendingPrediction \<Rightarrow> ScheduledStopTime list \<Rightarrow> bool" where
  "plain_departures m g p deps \<longleftrightarrow>
     list_all (\<lambda>st. in_i32 (actual_departure m g p st)
       \<and> in_i32 (actual_departure m g p st - pd_SchedConnDepSecs p)) deps"

context healthy_redis
begin

lemma realized_loop_spec:
  assumes "realized_loop R g p deps r = (res, r')" "healthy r"
    and "plain_departures (delays (ks r)) g p deps"
  shows "res = realized_spec (delays (ks r)) g p deps \<and> ks r' = ks r \<and> healthy r'"
  using assms
proof (induction deps arbitrary: r)
  case (Cons st sts)
  obtain d r1 where t: "tripDelayAt R g (pd_AgencyID p) (TripID st) (pd_SourceStation p) r = (d, r1)" by fastforce
  note exact = tripDelayAt_exact [OF t Cons.prems(2)]
  then have ex: "ks r1 = ks r" "healthy r1" by simp_all
  have d: "DepartureSecs st + d = actual_departure (delays (ks r)) g p st" using exact by (simp add: actual_departure_def)
  have rng: "in_i32 (actual_departure (delays (ks r)) g p st)" "in_i64 (actual_departure (delays (ks r)) g p st)"
    "in_i32 (actual_departure (delays (ks r)) g p st - pd_SchedConnDepSecs p)"
    "plain_departures (delays (ks r)) g p sts"
    using Cons.prems(3) by (auto simp: plain_departures_def in_i32_in_i64)
  have u: "(pd_Direction p \<ge> 0 \<and> (case mget (TripDirection g) (TripID st) of None \<Rightarrow> False | Some d \<Rightarrow> d \<noteq> pd_Direction p))
      \<longleftrightarrow> \<not> usable g p st" by (auto simp: usable_def split: option.splits)
  show ?case
  proof (cases "DepartureSecs st > pd_EarliestCatchSecs p + 1800")
    case True
    then show ?thesis using Cons.prems by (simp add: predictionWindowSecs_def realized_spec_def)
  next
    case False
    show ?thesis
    proof (cases "usable g p st \<and> pd_EarliestCatchSecs p \<le> actual_departure (delays (ks r)) g p st")
      case True
      then show ?thesis
        using Cons.prems(1) False ex by (auto simp: u t d rng i32_id i64_id predictionWindowSecs_def realized_spec_def Let_def max_def)
    next
      case skip: False
      then have "realized_loop R g p sts (if usable g p st then r1 else r) = (res, r')"
        using Cons.prems(1) False by (auto simp: u t d rng i64_id predictionWindowSecs_def Let_def)
      from Cons.IH [OF this] ex Cons.prems(2) rng(4) skip False show ?thesis
        by (auto simp: realized_spec_def split: if_splits)
    qed
  qed
qed (simp add: realized_spec_def)

end

section \<open>Properties\<close>

text \<open>C8: an observed delay changes a stored prediction only by marking it matched and raising its observed
  maximum to the delay beyond the baseline, and only inside the prediction's window and direction;
  that holds however Redis fails. On a healthy connection the predictions updated are exactly those
  that the index of the event's route and station holds as not yet expired.\<close>

theorem delay_event_updates_pendings:
  fixes R :: "'r RedisClient"
  assumes "healthy_redis R ks healthy" and "ids_ok (ks r)" and "OnDelayEvent R e now ev r = (err, r')"
  defines "seen p \<equiv> max 0 (i32 (ev_DelaySeconds ev - pd_BaselineSecs p))"
    and "dir \<equiv> mget (TripDirection (el_graph e)) (ev_TripId ev)"
    and "key \<equiv> indexKey (el_agencyID e) (event_route e ev) (ParentStationID (el_graph e) (ev_StopId ev))"
  defines "update p \<equiv>
      (if pd_CreatedAt p \<le> ev_ObservedAt ev \<and> ev_ObservedAt ev \<le> pd_ExpiresAt p
          \<and> (pd_Direction p < 0 \<or> dir = None \<or> dir = Some (pd_Direction p))
          \<and> (pd_Matched p \<longrightarrow> pd_ObservedMax p < seen p)
       then p\<lparr>pd_Matched := True, pd_ObservedMax := seen p\<rparr> else p)"
  shows "(\<forall>i. pendings (ks r') i = pendings (ks r) i \<or> pendings (ks r') i = map_option update (pendings (ks r) i))
    \<and> (healthy r \<and> (ev_Type ev = ARRIVAL_DELAY \<or> ev_Type ev = DEPARTURE_DELAY) \<and> event_route e ev \<noteq> [] \<longrightarrow>
        (\<forall>z. zset (ks r) key = Some z \<longrightarrow>
           (\<forall>i. pendings (ks r') i =
              (if \<exists>s. (JStr i, s) \<in> set z \<and> i_to_f64 now \<le> s then map_option update (pendings (ks r) i)
               else pendings (ks r) i))))"
proof -
  have m: "matched dir ev = update"
    by (rule ext) (auto simp: matched_def match_pending_spec update_def seen_def)
  have "update p = p'" if "match_pending dir ev p = Some p'" for p p'
    using that by (simp add: m [symmetric] matched_def)
  moreover note redis_client.OnDelayEvent_updates [OF healthy_redis.axioms(1) [OF assms(1)] assms(3,2), folded dir_def]
  ultimately have "pendings (ks r') i = pendings (ks r) i \<or> pendings (ks r') i = map_option update (pendings (ks r) i)" for i
    by (fastforce simp: redis_client.updates_def [OF healthy_redis.axioms(1) [OF assms(1)]])
  moreover note healthy_redis.OnDelayEvent_exact [OF assms(1,3) _ assms(2), folded dir_def key_def, unfolded m]
  ultimately show ?thesis by blast
qed

definition demo_evaluator :: Evaluator where
  "demo_evaluator = \<lparr>el_graph = demo_graph, el_agencyID = ''MTA''\<rparr>"

definition demo_observed :: DelayEvent where
  "demo_observed =
     \<lparr>ev_AgencyId = ''MTA'', ev_TripId = ''W_1'', ev_RouteId = ''A'', ev_StopId = ''b'', ev_DelaySeconds = 400,
      ev_ObservedAt = 2000, ev_ScheduledArrival = 0, ev_PredictedArrival = 0, ev_Type = ARRIVAL_DELAY\<rparr>"

lemma demo_store_pendings:
  "pendings (mem_ks demo_store) i = (if i = ''p1'' then Some demo_pending else None)"
  "zset (mem_ks demo_store) (indexKey ''MTA'' ''A'' ''Q'') = Some [(JStr ''p1'', 2800)]"
proof -
  have d: "mr_data demo_store = [(''pending:pred:p1'', VStr (marshal_pending demo_pending)),
      (''pending:idx:MTA:A:Q'', VZSet [(JStr ''p1'', 2800)]), (''pending:expiry'', VZSet [(JStr ''p1'', 2800)])]"
    by code_simp
  have ok: "pending_ok demo_pending" by (simp add: pending_ok_def demo_pending_def in_i32_def in_i64_def)
  show "pendings (mem_ks demo_store) i = (if i = ''p1'' then Some demo_pending else None)"
    using unmarshal_marshal_pending [OF ok]
    by (simp add: pendings_def mem_ks_def d pendingKey_def pendingKeyPrefix_def del: mem_ks_simps)
  show "zset (mem_ks demo_store) (indexKey ''MTA'' ''A'' ''Q'') = Some [(JStr ''p1'', 2800)]"
    by (simp add: zset_def mem_ks_def d indexKey_def indexKeyPrefix_def del: mem_ks_simps)
qed

theorem delay_event_updates_pendings_witness:
  "pendings (mem_ks (snd (OnDelayEvent mem_client demo_evaluator 2000 demo_observed demo_store))) ''p1'' =
     Some (demo_pending\<lparr>pd_Matched := True, pd_ObservedMax := 300\<rparr>)"
proof -
  obtain err r' where o: "OnDelayEvent mem_client demo_evaluator 2000 demo_observed demo_store = (err, r')" by fastforce
  have h: "mem_healthy demo_store" by code_simp
  have i: "ids_ok (mem_ks demo_store)" by (simp add: ids_ok_def demo_store_pendings demo_pending_def)
  have k: "zset (mem_ks demo_store) (indexKey (el_agencyID demo_evaluator) (event_route demo_evaluator demo_observed)
      (ParentStationID (el_graph demo_evaluator) (ev_StopId demo_observed))) = Some [(JStr ''p1'', 2800)]"
    using demo_store_pendings(2) by (simp add: demo_evaluator_def demo_observed_def event_route_def)
  have d: "mget (TripDirection (el_graph demo_evaluator)) (ev_TripId demo_observed) = Some 1"
    by (simp add: demo_evaluator_def demo_observed_def demo_graph_facts)
  have c: "ev_Type demo_observed = ARRIVAL_DELAY" "event_route demo_evaluator demo_observed \<noteq> []"
    by (simp_all add: demo_observed_def event_route_def)
  from delay_event_updates_pendings [OF mem.healthy_redis_axioms i o] h k c
  have "pendings (mem_ks r') ''p1'' = map_option (\<lambda>p.
      if pd_CreatedAt p \<le> ev_ObservedAt demo_observed \<and> ev_ObservedAt demo_observed \<le> pd_ExpiresAt p
          \<and> (pd_Direction p < 0 \<or> Some 1 = None \<or> Some 1 = Some (pd_Direction p))
          \<and> (pd_Matched p \<longrightarrow> pd_ObservedMax p < max 0 (i32 (ev_DelaySeconds demo_observed - pd_BaselineSecs p)))
       then p\<lparr>pd_Matched := True, pd_ObservedMax := max 0 (i32 (ev_DelaySeconds demo_observed - pd_BaselineSecs p))\<rparr> else p)
      (pendings (mem_ks demo_store) ''p1'')"
    by (simp add: d in_i32_def)
  then show ?thesis
    by (simp add: o demo_store_pendings) (simp add: demo_pending_def demo_observed_def i32_id in_i32_def)
qed

text \<open>C29: on a healthy connection \<open>realizedWait\<close> answers with the first departure from the scheduled
  connection on (of the ten the code asks for) that goes the right way, is scheduled within the horizon
  and, its known delay included, leaves no earlier than the passenger can catch it; the wait is counted
  from the scheduled connection and never negative. Without such a departure there is no answer.\<close>

theorem realized_wait_first_boardable:
  assumes "healthy_redis R ks healthy" and "healthy r" and "realizedWait R e p r = (res, r')"
    and "plain_departures (delays (ks r)) (el_graph e) p
      (GetNextDepartures (el_graph e) (pd_SourceStation p) (pd_RouteID p) (pd_SchedConnDepSecs p) 10)"
  shows "res = realized_spec (delays (ks r)) (el_graph e) p
      (GetNextDepartures (el_graph e) (pd_SourceStation p) (pd_RouteID p) (pd_SchedConnDepSecs p) 10)
    \<and> ks r' = ks r"
  using healthy_redis.realized_loop_spec [OF assms(1) assms(3) [unfolded realizedWait_def] assms(2,4)] by blast

lemma demo_deps: "GetNextDepartures demo_graph ''P'' ''A'' 36030 10 =
    [demo_sst ''W_1'' ''a'' 36000 36030 1, demo_sst ''W_2'' ''a'' 36600 36630 1]"
  by (simp add: GetNextDepartures_eq [OF built_sorted [OF demo_built]] departures_spec_def
      demo_graph_facts demo_sst_def mgetd_def)

lemma demo_actual:
  "actual_departure (delays (mem_ks demo_redis)) demo_graph demo_pending (demo_sst ''W_1'' ''a'' 36000 36030 1) = 36430"
  "actual_departure (delays (mem_ks demo_redis)) demo_graph demo_pending (demo_sst ''W_2'' ''a'' 36600 36630 1) = 36630"
proof -
  have s: "GetScheduledStopTime demo_graph ''W_1'' ''P'' = Some (demo_sst ''W_1'' ''a'' 36000 36030 1)"
    "GetScheduledStopTime demo_graph ''W_2'' ''P'' = Some (demo_sst ''W_2'' ''a'' 36600 36630 1)"
    by (simp_all add: GetScheduledStopTime_def ResolveTripID_def demo_graph_facts Let_def demo_sst_def mgetd_def
        parentStation_def demo_stops_def demo_stop_def)
  have n: "delays (mem_ks demo_redis) ''delay:MTA:W_2:a'' = None"
    by code_simp
  show "actual_departure (delays (mem_ks demo_redis)) demo_graph demo_pending (demo_sst ''W_1'' ''a'' 36000 36030 1) = 36430"
    using demo_stored s(1)
    by (simp add: actual_departure_def known_delay_def demo_pending_def demo_sst_def delayKey_def first_state_def demo_delay_def)
  show "actual_departure (delays (mem_ks demo_redis)) demo_graph demo_pending (demo_sst ''W_2'' ''a'' 36600 36630 1) = 36630"
    using n s(2)
    by (simp add: actual_departure_def known_delay_def demo_pending_def demo_sst_def delayKey_def)
qed

theorem realized_wait_first_boardable_witness:
  "fst (realizedWait mem_client demo_evaluator demo_pending demo_redis) = Some 600"
proof -
  obtain res r' where w: "realizedWait mem_client demo_evaluator demo_pending demo_redis = (res, r')" by fastforce
  have h: "mem_healthy demo_redis" by code_simp
  have f: "el_graph demo_evaluator = demo_graph" "pd_SourceStation demo_pending = ''P''" "pd_RouteID demo_pending = ''A''"
    "pd_SchedConnDepSecs demo_pending = 36030" "pd_EarliestCatchSecs demo_pending = 36500"
    by (simp_all add: demo_evaluator_def demo_pending_def)
  have u: "usable demo_graph demo_pending (demo_sst ''W_2'' ''a'' 36600 36630 1)"
    by (simp add: usable_def demo_pending_def demo_sst_def demo_graph_facts)
  have p: "plain_departures (delays (mem_ks demo_redis)) demo_graph demo_pending
      (GetNextDepartures demo_graph ''P'' ''A'' 36030 10)"
    by (simp add: plain_departures_def demo_deps demo_actual f in_i32_def)
  have t: "DepartureSecs (demo_sst x y a b c) = b" for x y a b c by (simp add: demo_sst_def)
  show ?thesis
    using realized_wait_first_boardable [OF mem.healthy_redis_axioms h w] p u
    by (simp add: w f demo_deps realized_spec_def t demo_actual)
qed

end
