(* ===== verification/Tracking.thy ===== *)
theory Tracking
  imports EvaluatorProps
begin

text \<open>
  Which predictions \<open>TrackPrediction\<close> stores: the choice of the primary, the order and the cap, and the
  effect on the pending store on a healthy connection.
\<close>

section \<open>The primary prediction\<close>

definition first_hop :: "string \<Rightarrow> DownstreamImpact \<Rightarrow> bool" where
  "first_hop toRoute imp \<longleftrightarrow> di_HopsFromSource imp = 1 \<and> di_RouteId imp = toRoute"

definition is_primary :: "string \<Rightarrow> DownstreamImpact list \<Rightarrow> nat \<Rightarrow> bool" where
  "is_primary toRoute imps i \<longleftrightarrow>
     i < length imps \<and> first_hop toRoute (imps ! i)
     \<and> (\<forall>j<length imps. first_hop toRoute (imps ! j) \<longrightarrow>
          di_PredictedAdditionalDelay (imps ! i) \<le> di_PredictedAdditionalDelay (imps ! j)
          \<and> (j < i \<longrightarrow> di_PredictedAdditionalDelay (imps ! i) < di_PredictedAdditionalDelay (imps ! j)))"

lemma primary_fold:
  "case foldl (primary_step toRoute) (None, 0) (enumerate 0 imps) of
     (None, d) \<Rightarrow> list_all (\<lambda>imp. \<not> first_hop toRoute imp) imps
   | (Some i, d) \<Rightarrow> is_primary toRoute imps i \<and> d = di_PredictedAdditionalDelay (imps ! i)"
proof (induction imps rule: rev_induct)
  case (snoc x xs)
  obtain b d where bd: "foldl (primary_step toRoute) (None, 0) (enumerate 0 xs) = (b, d)" by fastforce
  have e: "foldl (primary_step toRoute) (None, 0) (enumerate 0 (xs @ [x])) = primary_step toRoute (b, d) (length xs, x)"
    by (simp add: enumerate_append_eq bd)
  show ?case
  proof (cases "first_hop toRoute x")
    case False
    then have "primary_step toRoute (b, d) (length xs, x) = (b, d)" by (auto simp: primary_step_def first_hop_def)
    with snoc False show ?thesis
      unfolding e by (cases b) (auto simp: bd is_primary_def nth_append less_Suc_eq)
  next
    case True
    then have "primary_step toRoute (b, d) (length xs, x) =
      (if b = None \<or> di_PredictedAdditionalDelay x < d then (Some (length xs), di_PredictedAdditionalDelay x) else (b, d))"
      by (auto simp: primary_step_def first_hop_def)
    with snoc True show ?thesis
      unfolding e
      by (cases b) (auto simp: bd is_primary_def nth_append less_Suc_eq list_all_length not_less intro: order_trans)
  qed
qed simp

lemma primary_index_spec:
  "case primary_index toRoute imps of
     None \<Rightarrow> list_all (\<lambda>imp. \<not> first_hop toRoute imp) imps | Some i \<Rightarrow> is_primary toRoute imps i"
  using primary_fold [of toRoute imps] by (auto simp: primary_index_def split: prod.splits option.splits)

section \<open>Adding\<close>

text \<open>The index keys hold sorted sets.\<close>

definition typed :: "keyspace \<Rightarrow> bool" where
  "typed m \<longleftrightarrow> (\<forall>a b c. zset m (indexKey a b c) \<noteq> None) \<and> zset m expiryKey \<noteq> None"

definition in_time :: "int \<Rightarrow> PendingPrediction \<Rightarrow> bool" where
  "in_time nano p \<longleftrightarrow> 0 < i64 (time_until nano (pd_ExpiresAt p) + 600000000000)"

lemma typed_put: "typed m \<Longrightarrow> typed (put_zset k z m)" and typed_set: "typed m \<Longrightarrow> typed (m(pendingKey i \<mapsto> v))"
  by (auto simp: typed_def) (auto simp: zset_def)

context healthy_redis
begin

lemma Add_exact:
  assumes "Add R nano p r = (e, r')" "healthy r" "typed (ks r)" "pending_ok p" "in_time nano p"
  shows "e = None \<and> healthy r' \<and> typed (ks r') \<and> pendings (ks r') = (pendings (ks r))(pd_ID p \<mapsto> p)
    \<and> (\<forall>i. waiting (ks r') i \<longleftrightarrow> waiting (ks r) i \<or> i = pd_ID p)"
proof -
  let ?idx = "indexKey (pd_AgencyID p) (pd_RouteID p) (pd_StationID p)"
  obtain e1 r1 where 1: "rd_Set R (pendingKey (pd_ID p)) (marshal_pending p)
      (i64 (time_until nano (pd_ExpiresAt p) + 600000000000)) r = (e1, r1)" by fastforce
  obtain e2 r2 where 2: "rd_ZAdd R ?idx (i_to_f64 (pd_ExpiresAt p)) (JStr (pd_ID p)) r1 = (e2, r2)" by fastforce
  obtain e3 r3 where 3: "rd_Expire R ?idx pendingIndexTTL r2 = (e3, r3)" by fastforce
  obtain e4 r4 where 4: "rd_ZAdd R expiryKey (i_to_f64 (pd_ExpiresAt p)) (JStr (pd_ID p)) r3 = (e4, r4)" by fastforce
  have a: "healthy r1" "e1 = None" "ks r1 = (ks r)(pendingKey (pd_ID p) \<mapsto> VStr (marshal_pending p))"
    using Set_healthy [OF assms(2) 1] Set_law [OF 1] by auto
  have t1: "typed (ks r1)" using assms(3) by (simp add: a typed_set)
  then obtain z1 where z1: "zset (ks r1) ?idx = Some z1" unfolding typed_def by blast
  have b: "healthy r2" "e2 = None" "ks r2 = put_zset ?idx (mput (JStr (pd_ID p)) (i_to_f64 (pd_ExpiresAt p)) z1) (ks r1)"
    using ZAdd_healthy [OF a(1) 2] ZAdd_law [OF 2] z1 by auto
  have c: "healthy r3" "e3 = None" "ks r3 = ks r2"
    using Expire_healthy [OF b(1) 3] Expire_law [OF 3] by auto
  have t3: "typed (ks r3)" using t1 by (simp add: b c typed_put)
  then obtain z3 where z3: "zset (ks r3) expiryKey = Some z3" unfolding typed_def by blast
  have d: "healthy r4" "e4 = None" "ks r4 = put_zset expiryKey (mput (JStr (pd_ID p)) (i_to_f64 (pd_ExpiresAt p)) z3) (ks r3)"
    using ZAdd_healthy [OF c(1) 4] ZAdd_law [OF 4] z3 by auto
  have "e = None" "r' = r4"
    using assms(1,5) 1 2 3 4 a b c d by (auto simp: Add_def in_time_def Let_def)
  moreover have "typed (ks r4)" using t3 by (simp add: d typed_put)
  moreover have "pendings (ks r4) i = ((pendings (ks r))(pd_ID p \<mapsto> p)) i" for i
    by (simp add: d(3) c(3) b(3) a(3) pendings_def put_zset_other unmarshal_marshal_pending [OF assms(4)])
  moreover have "zset (ks r) expiryKey = Some z3"
    using z3 by (simp add: c(3) b(3) a(3)) (simp add: zset_def)
  then have "waiting (ks r4) i \<longleftrightarrow> waiting (ks r) i \<or> i = pd_ID p" for i
    by (auto simp: waiting_def d)
  ultimately show ?thesis using d(1) by (simp add: fun_eq_iff)
qed

end

section \<open>The tracking loop\<close>

fun numbered :: "(nat \<Rightarrow> int \<Rightarrow> 'a) \<Rightarrow> nat list \<Rightarrow> int \<Rightarrow> 'a list" where
  "numbered mk [] s = []"
| "numbered mk (i # is) s = mk i (s + 1) # numbered mk is (s + 1)"

definition stored_as :: "(string \<Rightarrow> PendingPrediction option) \<Rightarrow> PendingPrediction list \<Rightarrow> string \<Rightarrow> PendingPrediction option" where
  "stored_as m ps = m ++ map_of (rev (map (\<lambda>p. (pd_ID p, p)) ps))"

lemma stored_as_Cons: "stored_as (m(pd_ID p \<mapsto> p)) ps = stored_as m (p # ps)"
  by (rule ext) (auto simp: stored_as_def map_add_def split: option.splits)

context healthy_redis
begin

lemma track_loop_exact:
  assumes "track_loop R nano mk wanted is tracked fe seq r = (e, seq', r')" "healthy r" "typed (ks r)"
    and "\<forall>i\<in>set is. \<forall>s. pending_ok (mk i s) \<and> in_time nano (mk i s)"
    and "0 \<le> seq" "seq + int (maxTracked - tracked) < 18446744073709551616"
  defines "ps \<equiv> numbered mk (take (maxTracked - tracked) (filter wanted is)) seq"
  shows "e = fe \<and> healthy r' \<and> typed (ks r') \<and> pendings (ks r') = stored_as (pendings (ks r)) ps
    \<and> (\<forall>i. waiting (ks r') i \<longleftrightarrow> waiting (ks r) i \<or> i \<in> pd_ID ` set ps)"
  unfolding ps_def using assms(1-6)
proof (induction "is" arbitrary: tracked fe seq r)
  case (Cons i "is")
  show ?case
  proof (cases "tracked \<ge> maxTracked \<or> \<not> wanted i")
    case True
    then show ?thesis using Cons by (cases "tracked \<ge> maxTracked") (auto simp: stored_as_def)
  next
    case False
    then have n: "maxTracked - tracked = Suc (maxTracked - Suc tracked)" by (simp add: Suc_diff_Suc not_le)
    then have s: "(seq + 1) mod 18446744073709551616 = seq + 1" using Cons.prems(5,6) by simp
    obtain x r1 where a: "Add R nano (mk i (seq + 1)) r = (x, r1)" by fastforce
    have ok: "pending_ok (mk i (seq + 1))" "in_time nano (mk i (seq + 1))" using Cons.prems(4) by auto
    note ad = Add_exact [OF a Cons.prems(2,3) ok]
    have "track_loop R nano mk wanted is (tracked + 1) fe (seq + 1) r1 = (e, seq', r')"
      using Cons.prems(1) False ad by (auto simp: s a Let_def)
    from Cons.IH [OF this] ad Cons.prems(4-6) False show ?thesis
      by (auto simp: n stored_as_Cons [symmetric] fun_upd_def)
  qed
qed (simp add: stored_as_def)

end

section \<open>Identifiers and baselines\<close>

lemma segment_after: "c \<notin> set a \<Longrightarrow> rev (takeWhile (\<lambda>x. x \<noteq> c) (rev (xs @ c # a))) = a"
  by (auto simp: takeWhile_append)

lemma last_segment: "xs @ c # a = ys @ c # b \<Longrightarrow> c \<notin> set a \<Longrightarrow> c \<notin> set b \<Longrightarrow> a = b"
  using segment_after [of c a xs] segment_after [of c b ys] by simp

lemma itoa_inj: "in_i64 a \<Longrightarrow> in_i64 b \<Longrightarrow> itoa a = itoa b \<Longrightarrow> a = b"
  by (metis atoi_itoa prod.inject)

lemma pending_id_inj:
  "pending_id f r s n a = pending_id f' r' s' n' b \<Longrightarrow> in_i64 a \<Longrightarrow> in_i64 b \<Longrightarrow> a = b"
  using last_segment [of "f @ '':'' @ r @ '':'' @ s @ '':'' @ itoa n" "CHR '':''" "itoa a"
      "f' @ '':'' @ r' @ '':'' @ s' @ '':'' @ itoa n'" "itoa b"] itoa_inj [of a b] itoa_colon_free
  by (simp add: pending_id_def)

lemma numbered_distinct:
  assumes "\<And>i j a b. pd_ID (mk i a) = pd_ID (mk j b) \<Longrightarrow> in_i64 a \<Longrightarrow> in_i64 b \<Longrightarrow> a = b"
  shows "0 \<le> s \<Longrightarrow> in_i64 (s + int (length is)) \<Longrightarrow>
    distinct (map pd_ID (numbered mk is s)) \<and>
    (\<forall>p\<in>set (numbered mk is s). \<exists>i a. p = mk i a \<and> s < a \<and> a \<le> s + int (length is))"
proof (induction "is" arbitrary: s)
  case (Cons i "is")
  then have "0 \<le> s + 1" "in_i64 (s + 1 + int (length is))" by (simp_all add: algebra_simps)
  from Cons.IH [OF this] have ih: "distinct (map pd_ID (numbered mk is (s + 1)))"
    "\<forall>p\<in>set (numbered mk is (s + 1)). \<exists>i a. p = mk i a \<and> s + 1 < a \<and> a \<le> s + 1 + int (length is)"
    by blast+
  have "pd_ID (mk i (s + 1)) \<noteq> pd_ID p" if "p \<in> set (numbered mk is (s + 1))" for p
  proof
    assume e: "pd_ID (mk i (s + 1)) = pd_ID p"
    from ih(2) that obtain j a where p: "p = mk j a" "s + 1 < a" "a \<le> s + 1 + int (length is)" by blast
    then have "in_i64 (s + 1)" "in_i64 a" using Cons.prems by (auto simp: in_i64_def)
    with assms [of i "s + 1" j a] e p show False by simp
  qed
  then have "distinct (map pd_ID (numbered mk (i # is) s))" using ih(1) by auto
  moreover have "\<exists>j a. p = mk j a \<and> s < a \<and> a \<le> s + int (length (i # is))"
    if p: "p \<in> set (numbered mk (i # is) s)" for p
  proof (cases "p = mk i (s + 1)")
    case True
    then show ?thesis by (intro exI [of _ i] exI [of _ "s + 1"]) simp
  next
    case False
    with p ih(2) obtain j a where "p = mk j a" "s + 1 < a" "a \<le> s + 1 + int (length is)" by auto
    then show ?thesis by (intro exI [of _ j] exI [of _ a]) simp
  qed
  ultimately show ?case by blast
qed simp

lemma put_max_delay_range:
  "in_i32 (sd_DelaySeconds ds) \<Longrightarrow> \<forall>k. in_i32 (mgetd 0 out k) \<Longrightarrow> in_i32 (mgetd 0 (put_max_delay g route out ds) k)"
  by (simp add: put_max_delay_def Let_def)

lemma scan_states_eq:
  assumes "rd_Scan R (''delay:'' @ a @ '':*'') r = ((keys, e), r1)" "read_states R keep keys r1 = (out, r2)"
  shows "scan_states R a keep r = (case e of None \<Rightarrow> (Inr out, r2) | Some x \<Rightarrow> (Inl (SE_scan x), r2))"
  by (simp only: scan_states_def assms prod.case)

context redis_client
begin

lemma scan_states_sound:
  assumes "scan_states R a keep r = (res, r')"
  shows "ks r' = ks r \<and> (\<forall>out. res = Inr out \<longrightarrow> (\<forall>ds\<in>set out. in_i32 (sd_DelaySeconds ds)))"
proof -
  obtain keys e r1 where s: "rd_Scan R (''delay:'' @ a @ '':*'') r = ((keys, e), r1)" by (metis prod.exhaust)
  obtain out r2 where o: "read_states R keep keys r1 = (out, r2)" by fastforce
  have rng: "in_i32 (sd_DelaySeconds ds)" if "ds \<in> set out" for ds
  proof -
    from that read_states_sound [OF o] obtain k where "delays (ks r1) k = Some ds" by blast
    then have "ds_ok ds" by (auto simp: delays_def intro: unmarshal_ok split: option.splits redis_value.splits)
    then show ?thesis by (simp add: ds_ok_def)
  qed
  then show ?thesis
    using assms conjunct1 [OF Scan_law [OF s]] conjunct1 [OF read_states_sound [OF o]]
    by (auto simp: scan_states_eq [OF s o] rng split: option.splits)
qed

lemma baseline_loop_sound:
  "baseline_loop R e imps seen out r = (out', r') \<Longrightarrow> \<forall>k. in_i32 (mgetd 0 out k) \<Longrightarrow>
   ks r' = ks r \<and> (\<forall>k. in_i32 (mgetd 0 out' k))"
proof (induction imps arbitrary: seen out r)
  case (Cons imp imps)
  obtain res r1 where g: "GetRouteDelays R (el_agencyID e) (di_RouteId imp) r = (res, r1)" by fastforce
  note sc = scan_states_sound [OF g [unfolded GetRouteDelays_def]]
  have "\<forall>k. in_i32 (mgetd 0 (foldl (put_max_delay (el_graph e) (di_RouteId imp)) out found) k)"
    if "res = Inr found" for found
    by (rule foldl_invariant [where P = "\<lambda>m. \<forall>k. in_i32 (mgetd 0 m k)"])
      (use Cons.prems(2) sc that put_max_delay_range in auto)
  then show ?case
    using Cons.prems sc by (auto simp: Let_def g split: if_splits sum.splits dest!: Cons.IH)
qed simp

end

context healthy_redis
begin

lemma read_states_healthy: "read_states R keep keys r = (out, r') \<Longrightarrow> healthy r \<Longrightarrow> healthy r'"
proof (induction keys arbitrary: r out)
  case (Cons k keys)
  obtain res r1 where g: "rd_Get R k r = (res, r1)" by fastforce
  show ?case
    using Cons.prems(1) Cons.IH [of r1] conjunct1 [OF Get_healthy [OF Cons.prems(2) g]]
    by (auto simp: g split: sum.splits option.splits prod.splits)
qed simp

lemma scan_states_healthy:
  assumes "scan_states R a keep r = (res, r')" "healthy r"
  shows "healthy r'"
proof -
  obtain keys e r1 where s: "rd_Scan R (''delay:'' @ a @ '':*'') r = ((keys, e), r1)" by (metis prod.exhaust)
  obtain out r2 where o: "read_states R keep keys r1 = (out, r2)" by fastforce
  show ?thesis
    using assms(1) Scan_healthy [OF assms(2) s] read_states_healthy [OF o]
    by (auto simp: scan_states_eq [OF s o] split: option.splits)
qed

lemma baseline_loop_healthy:
  "baseline_loop R e imps seen out r = (out', r') \<Longrightarrow> healthy r \<Longrightarrow> healthy r'"
proof (induction imps arbitrary: seen out r)
  case (Cons imp imps)
  obtain res r1 where g: "GetRouteDelays R (el_agencyID e) (di_RouteId imp) r = (res, r1)" by fastforce
  have "healthy r1" using scan_states_healthy [OF g [unfolded GetRouteDelays_def] Cons.prems(2)] .
  then show ?case
    using Cons.prems by (auto simp: Let_def g split: if_splits sum.splits dest!: Cons.IH)
qed simp

end

lemma stored_as_get:
  "distinct (map pd_ID ps) \<Longrightarrow> p \<in> set ps \<Longrightarrow> stored_as m ps (pd_ID p) = Some p"
  "i \<notin> pd_ID ` set ps \<Longrightarrow> stored_as m ps i = m i"
proof -
  assume d: "distinct (map pd_ID ps)" and p: "p \<in> set ps"
  have "distinct (map fst (rev (map (\<lambda>p. (pd_ID p, p)) ps)))" using d by (simp add: rev_map comp_def flip: rev_map)
  then have "map_of (rev (map (\<lambda>p. (pd_ID p, p)) ps)) (pd_ID p) = Some p" using p by (intro map_of_is_SomeI) auto
  then show "stored_as m ps (pd_ID p) = Some p" by (simp add: stored_as_def)
next
  assume "i \<notin> pd_ID ` set ps"
  then have "map_of (rev (map (\<lambda>p. (pd_ID p, p)) ps)) i = None" by (auto simp: map_of_eq_None_iff)
  then show "stored_as m ps i = m i" by (simp add: stored_as_def map_add_def)
qed

section \<open>The effect of tracking\<close>

definition prediction_time :: "int64 \<Rightarrow> PropagationResult \<Rightarrow> int64" where
  "prediction_time now res = (if pr_ComputedAt res = 0 then now else pr_ComputedAt res)"

text \<open>Messages in range, a time before the year 2255, and a clock that is not past the window.\<close>

definition trackable :: "Evaluator \<Rightarrow> TransferImpact \<Rightarrow> PropagationResult \<Rightarrow> int64 \<Rightarrow> int \<Rightarrow> bool" where
  "trackable e src res now nano \<longleftrightarrow>
     wf_impact src \<and> in_i64 (to_direction e src)
     \<and> list_all (\<lambda>imp. in_i32 (di_PredictedAdditionalDelay imp) \<and> in_i32 (di_HopsFromSource imp)
          \<and> f64 (di_Confidence imp) = di_Confidence imp) (pr_Impacts res)
     \<and> 0 \<le> prediction_time now res \<and> prediction_time now res \<le> 9000000000
     \<and> 0 \<le> nano \<and> nano < (prediction_time now res + 2400) * 1000000000"

definition worth_tracking :: "nat option \<Rightarrow> DownstreamImpact list \<Rightarrow> nat \<Rightarrow> bool" where
  "worth_tracking primary imps i \<longleftrightarrow> f64 (3 / 10) \<le> di_Confidence (imps ! i) \<or> Some i = primary"

definition chosen :: "nat option \<Rightarrow> DownstreamImpact list \<Rightarrow> nat list" where
  "chosen primary imps = take 20 (filter (worth_tracking primary imps) (track_order primary (length imps)))"

lemma chosen_primary: "i < length imps \<Longrightarrow> \<exists>rest. chosen (Some i) imps = i # rest"
  by (simp add: chosen_def track_order_def worth_tracking_def)

lemma track_order_bound: "\<forall>i. primary = Some i \<longrightarrow> i < n \<Longrightarrow> i \<in> set (track_order primary n) \<Longrightarrow> i < n"
  by (auto simp: track_order_def split: option.splits)

lemma new_pending_ok:
  assumes "trackable e src res now nano" "i < length (pr_Impacts res)" "\<forall>k. in_i32 (mgetd 0 baselines k)"
  shows "pending_ok (new_pending local e src (pr_Impacts res ! i) b baselines (prediction_time now res) nano s)"
    and "in_time nano (new_pending local e src (pr_Impacts res ! i) b baselines (prediction_time now res) nano s)"
proof -
  let ?t = "prediction_time now res" and ?imp = "pr_Impacts res ! i"
  have imp: "in_i32 (di_PredictedAdditionalDelay ?imp)" "in_i32 (di_HopsFromSource ?imp)"
    "f64 (di_Confidence ?imp) = di_Confidence ?imp"
    using assms(1,2) by (auto simp: trackable_def list_all_length)
  have h: "0 \<le> (?t + Location local (Some (el_graph e)) ?t) mod 86400"
    "(?t + Location local (Some (el_graph e)) ?t) mod 86400 < 86400" by simp_all
  have t: "0 \<le> ?t" "?t \<le> 9000000000" "0 \<le> nano" "nano < (?t + 2400) * 1000000000"
    using assms(1) by (auto simp: trackable_def)
  have "0 \<le> m div 3600 \<and> m div 3600 < 24" if "0 \<le> m" "m < 86400" for m :: int
    using that zdiv_mono1 [of m 86399 3600] pos_imp_zdiv_nonneg_iff [of 3600 m] by simp
  from this [OF h] have hour: "in_i64 (hour_of local e ?t)"
    unfolding hour_of_def in_i64_def by linarith
  have x: "i64 (?t + 1800) = ?t + 1800" using t by (intro i64_id) (simp add: in_i64_def)
  show "pending_ok (new_pending local e src ?imp b baselines ?t nano s)"
    using assms(1,3) imp hour t
    by (simp add: new_pending_def pending_ok_def trackable_def wf_impact_def predictionWindowSecs_def x)
      (simp add: in_i64_def in_i32_def)
  have "0 < time_until nano (?t + 1800) + 600000000000" "in_i64 (time_until nano (?t + 1800) + 600000000000)"
    using t by (auto simp: time_until_def in_i64_def)
  then show "in_time nano (new_pending local e src ?imp b baselines ?t nano s)"
    by (simp add: in_time_def new_pending_def predictionWindowSecs_def x i64_id)
qed

context healthy_redis
begin

lemma TrackPrediction_exact:
  assumes "healthy r" "typed (ks r)" and t: "trackable e src res now nano" and q: "0 \<le> seq" "seq \<le> 9000000000000000000"
    and "TrackPrediction R local e src res now nano seq r = (err, seq', r')"
  defines "primary \<equiv> primary_index (ti_ToRouteId src) (pr_Impacts res)"
  shows "err = None \<and>
    (\<exists>baselines. let ps = numbered (\<lambda>i. new_pending local e src (pr_Impacts res ! i) (Some i = primary) baselines
                            (prediction_time now res) nano) (chosen primary (pr_Impacts res)) seq
       in distinct (map pd_ID ps) \<and> (\<forall>p\<in>set ps. pendings (ks r') (pd_ID p) = Some p \<and> waiting (ks r') (pd_ID p))
          \<and> (\<forall>i. i \<notin> pd_ID ` set ps \<longrightarrow> pendings (ks r') i = pendings (ks r) i))"
proof -
  let ?imps = "pr_Impacts res"
  obtain bl r1 where bl: "baselineDelays R e ?imps r = (bl, r1)" by fastforce
  have b: "ks r1 = ks r" "\<forall>k. in_i32 (mgetd 0 bl k)" "healthy r1"
    using baseline_loop_sound [OF bl [unfolded baselineDelays_def]] baseline_loop_healthy [OF bl [unfolded baselineDelays_def] assms(1)]
    by (auto simp: in_i32_def)
  define mk where "mk = (\<lambda>i. new_pending local e src (?imps ! i) (Some i = primary) bl (prediction_time now res) nano)"
  have w: "(\<lambda>i. \<not> di_Confidence (?imps ! i) < minTrackConfidence \<or> Some i = primary) = worth_tracking primary ?imps"
    by (auto simp: worth_tracking_def minTrackConfidence_def fun_eq_iff)
  have tl: "track_loop R nano mk (worth_tracking primary ?imps) (track_order primary (length ?imps)) 0 None seq r1
      = (err, seq', r')"
    using assms(6) [unfolded TrackPrediction_def Let_def bl prod.case, folded primary_def prediction_time_def, unfolded w]
    by (simp only: mk_def)
  have pr: "primary = Some i \<Longrightarrow> i < length ?imps" for i
    using primary_index_spec [of "ti_ToRouteId src" ?imps] by (simp add: primary_def is_primary_def)
  have "i < length ?imps" if "i \<in> set (track_order primary (length ?imps))" for i
    by (rule track_order_bound [OF _ that]) (use pr in blast)
  then have "\<forall>i\<in>set (track_order primary (length ?imps)). \<forall>s. pending_ok (mk i s) \<and> in_time nano (mk i s)"
    using new_pending_ok [OF t _ b(2)] by (simp add: mk_def)
  from track_loop_exact [OF tl b(3) _ this q(1)] assms(2) q
  have ex: "err = None" "pendings (ks r') = stored_as (pendings (ks r)) (numbered mk (chosen primary ?imps) seq)"
    "\<forall>i. waiting (ks r') i \<longleftrightarrow> waiting (ks r) i \<or> i \<in> pd_ID ` set (numbered mk (chosen primary ?imps) seq)"
    by (auto simp: b maxTracked_def chosen_def)
  have "a = c" if "pd_ID (mk i a) = pd_ID (mk j c)" "in_i64 a" "in_i64 c" for i j a c
    using that pending_id_inj by (simp add: mk_def new_pending_def)
  moreover have "in_i64 (seq + int (length (chosen primary ?imps)))"
    using q by (simp add: chosen_def in_i64_def)
  ultimately have d: "distinct (map pd_ID (numbered mk (chosen primary ?imps) seq))"
    using numbered_distinct [of mk seq "chosen primary ?imps"] q(1) by blast
  show ?thesis
    using ex d stored_as_get by (auto simp: Let_def mk_def intro!: exI [of _ bl])
qed

end

text \<open>C30: on a healthy connection \<open>TrackPrediction\<close> stores exactly the chosen impacts, each under a fresh ID
  and registered with the sweeper, and touches no other prediction. Chosen are the primary, first and
  whatever its confidence, and then the impacts of confidence 0.3 and more in their order, at most 20
  together. The primary is the smallest first-hop prediction on the receiving route, if there is any.\<close>

theorem track_prediction_stores:
  assumes "healthy_redis R ks healthy" and "healthy r" and "typed (ks r)"
    and "trackable e src res now nano" and "0 \<le> seq" and "seq \<le> 9000000000000000000"
    and "TrackPrediction R local e src res now nano seq r = (err, seq', r')"
  defines "primary \<equiv> primary_index (ti_ToRouteId src) (pr_Impacts res)"
  shows "err = None \<and>
    (\<exists>baselines. let ps = numbered (\<lambda>i. new_pending local e src (pr_Impacts res ! i) (Some i = primary) baselines
                            (prediction_time now res) nano) (chosen primary (pr_Impacts res)) seq
       in distinct (map pd_ID ps) \<and> (\<forall>p\<in>set ps. pendings (ks r') (pd_ID p) = Some p \<and> waiting (ks r') (pd_ID p))
          \<and> (\<forall>i. i \<notin> pd_ID ` set ps \<longrightarrow> pendings (ks r') i = pendings (ks r) i))
    \<and> (case primary of
         None \<Rightarrow> list_all (\<lambda>imp. \<not> first_hop (ti_ToRouteId src) imp) (pr_Impacts res)
       | Some i \<Rightarrow> is_primary (ti_ToRouteId src) (pr_Impacts res) i \<and> hd (chosen primary (pr_Impacts res)) = i)"
proof -
  have "case primary of None \<Rightarrow> list_all (\<lambda>imp. \<not> first_hop (ti_ToRouteId src) imp) (pr_Impacts res)
     | Some i \<Rightarrow> is_primary (ti_ToRouteId src) (pr_Impacts res) i \<and> hd (chosen primary (pr_Impacts res)) = i"
    using primary_index_spec [of "ti_ToRouteId src" "pr_Impacts res"] chosen_primary
    by (fastforce simp: primary_def is_primary_def split: option.splits)
  with healthy_redis.TrackPrediction_exact [OF assms(1-7)] show ?thesis
    unfolding primary_def by blast
qed

definition demo_result :: PropagationResult where
  "demo_result =
     \<lparr>pr_SourceTripId = ''W_3'', pr_SourceStopId = ''P'', pr_SourceDelaySeconds = 400,
      pr_Impacts = [item_impact demo_engine demo_first, item_impact demo_engine demo_second],
      pr_ComputedAt = 1728036000\<rparr>"

lemma demo_impacts:
  "item_impact demo_engine demo_first = \<lparr>di_RouteId = ''A'', di_StopId = ''Q'', di_PredictedAdditionalDelay = 1000,
     di_Confidence = 1, di_HopsFromSource = 1, di_ImpactType = ''dwell_increase''\<rparr>"
  "item_impact demo_engine demo_second = \<lparr>di_RouteId = ''B'', di_StopId = ''Q'', di_PredictedAdditionalDelay = 300,
     di_Confidence = f32 (f64 (7 / 10)), di_HopsFromSource = 2, di_ImpactType = ''cascade_transfer''\<rparr>"
proof -
  have "f32 (1 :: rat) = 1" by code_simp
  then show "item_impact demo_engine demo_first = \<lparr>di_RouteId = ''A'', di_StopId = ''Q'', di_PredictedAdditionalDelay = 1000,
     di_Confidence = 1, di_HopsFromSource = 1, di_ImpactType = ''dwell_increase''\<rparr>"
    by (simp add: item_impact_def demo_first_def i32_id in_i32_def)
  show "item_impact demo_engine demo_second = \<lparr>di_RouteId = ''B'', di_StopId = ''Q'', di_PredictedAdditionalDelay = 300,
     di_Confidence = f32 (f64 (7 / 10)), di_HopsFromSource = 2, di_ImpactType = ''cascade_transfer''\<rparr>"
    by (simp add: item_impact_def demo_second_def i32_id in_i32_def)
qed

theorem track_prediction_stores_witness:
  "\<exists>p. pendings (mem_ks (snd (snd (TrackPrediction mem_client (\<lambda>_. 0) demo_evaluator demo_broken demo_result
        1728036001 1728036001000000000 7 empty_redis)))) (pd_ID p) = Some p
     \<and> pd_IsPrimary p \<and> pd_RouteID p = ''A'' \<and> pd_StationID p = ''Q'' \<and> pd_PredictedSecs p = 1000"
proof -
  obtain err seq' r' where tp: "TrackPrediction mem_client (\<lambda>_. 0) demo_evaluator demo_broken demo_result
        1728036001 1728036001000000000 7 empty_redis = (err, seq', r')" by (metis prod.exhaust)
  have h: "mem_healthy empty_redis" by code_simp
  have ty: "typed (mem_ks empty_redis)"
    by (simp add: typed_def zset_def empty_redis_def mem_ks_def del: mem_ks_simps)
  have "f64 (f32 (f64 (7 / 10))) = f32 (f64 (7 / 10))" by code_simp
  then have tr: "trackable demo_evaluator demo_broken demo_result 1728036001 1728036001000000000"
    by (simp add: trackable_def demo_result_def demo_impacts prediction_time_def wf_impact_def demo_broken_def
        to_direction_def demo_evaluator_def demo_graph_facts in_i32_def in_i64_def)
  let ?imps = "pr_Impacts demo_result" and ?pr = "primary_index (ti_ToRouteId demo_broken) (pr_Impacts demo_result)"
  note t = track_prediction_stores [OF mem.healthy_redis_axioms h ty tr _ _ tp]
  have i: "?imps = [item_impact demo_engine demo_first, item_impact demo_engine demo_second]" "ti_ToRouteId demo_broken = ''A''"
    by (simp_all add: demo_result_def demo_broken_def)
  have "\<not> list_all (\<lambda>imp. \<not> first_hop ''A'' imp) ?imps" by (simp add: i first_hop_def demo_impacts)
  then obtain k where k: "?pr = Some k" "is_primary ''A'' ?imps k" using t by (auto simp: i(2) split: option.splits)
  then have "k = 0" by (cases k) (auto simp: is_primary_def first_hop_def i(1) demo_impacts less_Suc_eq)
  with k have pr: "?pr = Some 0" by simp
  obtain rest where c: "chosen (Some 0) ?imps = 0 # rest" using chosen_primary [of 0 ?imps] by (auto simp: i(1))
  from t [unfolded pr c] obtain bl where
    "\<forall>p\<in>set (numbered (\<lambda>i. new_pending (\<lambda>_. 0) demo_evaluator demo_broken (?imps ! i) (Some i = Some 0) bl
        (prediction_time 1728036001 demo_result) 1728036001000000000) (0 # rest) 7).
       pendings (mem_ks r') (pd_ID p) = Some p"
    by (auto simp: Let_def)
  then have "pendings (mem_ks r') (pd_ID p) = Some p"
    if "p = new_pending (\<lambda>_. 0) demo_evaluator demo_broken (?imps ! 0) True bl
        (prediction_time 1728036001 demo_result) 1728036001000000000 8" for p
    using that by simp
  then show ?thesis
    by (intro exI, intro conjI, simp only: tp snd_conv, fast) (simp_all add: new_pending_def i(1) demo_impacts)
qed

end
