(* ===== verification/Feedback.thy ===== *)
theory Feedback
  imports Tracking
begin

text \<open>
  The end of the loop: a sweep finalizes expired predictions and hands their outcomes to the recorders.
  (Theory \<open>Sweep\<close> says which, once the frames are known.)
  The locale \<open>outcome_recorder\<close> is all the sweeper needs of a recorder: it leaves the pending store alone.
  The two history stores, which the processor passes in, provide it over every Redis client, and the
  engine reads back what they record.
\<close>

section \<open>The recorders of the processor\<close>

definition store_recorders :: "'r RedisClient \<Rightarrow> int64 \<Rightarrow> int64 \<Rightarrow> 'r recorders" where
  "store_recorders R now nano =
     \<lparr>rc_RecordObservation = (\<lambda>fromRoute toRoute station hour delay impact.
        RecordObservation R fromRoute toRoute station hour delay impact now nano),
      rc_RecordStopOutcome = Some (\<lambda>route station hour observed. RecordStopOutcome R route station hour observed now nano)\<rparr>"

section \<open>Final outcomes\<close>

text \<open>\<open>finalized p o\<close>: the outcome is that of the stored prediction, but for a primary with a connection
  frame, whose observation may be the realized wait.\<close>

definition finalized :: "PendingPrediction \<Rightarrow> outcome \<Rightarrow> bool" where
  "finalized p oc \<longleftrightarrow>
     (oc_Pending oc = p
        \<or> pd_IsPrimary p \<and> 0 < pd_SchedConnDepSecs p
          \<and> (\<exists>wait. 0 \<le> wait \<and> in_i32 wait \<and> oc_Pending oc = p\<lparr>pd_ObservedMax := wait, pd_Matched := True\<rparr>))
     \<and> (oc_Verified oc \<longleftrightarrow> 15 \<le> pd_ObservedMax (oc_Pending oc) \<and> pd_PredictedSecs p \<le> 2 * pd_ObservedMax (oc_Pending oc))"

lemma finalized_verified:
  "finalized p oc \<Longrightarrow>
     oc_Verified oc \<longleftrightarrow> 15 \<le> pd_ObservedMax (oc_Pending oc) \<and> pd_PredictedSecs (oc_Pending oc) \<le> 2 * pd_ObservedMax (oc_Pending oc)"
  unfolding finalized_def by (elim conjE disjE exE) simp_all

lemma outcome_pending [simp]: "oc_Pending (outcome_of p) = p"
  by (simp add: outcome_of_def)

lemma half_compare:
  assumes "in_i32 a" "in_i32 b"
  shows "f64 (1 / 2 * i_to_f64 b) \<le> i_to_f64 a \<longleftrightarrow> b \<le> 2 * a"
proof -
  have "1 / 2 * i_to_f64 b = of_int b / 2" using assms(2) by simp
  moreover have "f64 (of_int b / 2) = of_int b / 2" using assms(2) by (intro f64_half_int) (auto simp: in_i32_def)
  ultimately have e: "f64 (1 / 2 * i_to_f64 b) = of_int b / 2" by (simp only:)
  have "(of_int b / 2 :: rat) \<le> of_int a \<longleftrightarrow> (of_int b :: rat) \<le> of_int (2 * a)" by (simp add: field_simps)
  then show ?thesis unfolding e using assms(1) by (simp only: i_to_f64_i32 of_int_le_iff)
qed

lemma outcome_verified:
  assumes "in_i32 (pd_ObservedMax p)" "in_i32 (pd_PredictedSecs p)"
  shows "oc_Verified (outcome_of p) \<longleftrightarrow> 15 \<le> pd_ObservedMax p \<and> pd_PredictedSecs p \<le> 2 * pd_ObservedMax p"
  using half_compare [OF assms] by (simp add: outcome_of_def verifyMinSeconds_def verifyRatio_def)

lemma realized_loop_range: "realized_loop R g p deps r = (Some w, r') \<Longrightarrow> 0 \<le> w \<and> in_i32 w"
proof (induction deps arbitrary: r)
  case (Cons st sts)
  have z: "in_i32 0" by (simp add: in_i32_def)
  show ?case
    using Cons.prems z by (auto simp: Let_def split: if_splits prod.splits dest!: Cons.IH)
qed simp

lemma observe_finalized:
  assumes "observe R e p r = (p1, r1)" "pending_ok p"
  shows "finalized p (outcome_of p1)"
proof -
  have ok: "in_i32 (pd_ObservedMax p)" "in_i32 (pd_PredictedSecs p)" using assms(2) by (simp_all add: pending_ok_def)
  show ?thesis
  proof (cases "p1 = p")
    case True
    then show ?thesis using outcome_verified [OF ok] by (simp add: finalized_def)
  next
    case False
    then obtain w where w: "pd_IsPrimary p" "0 < pd_SchedConnDepSecs p" "realizedWait R e p r = (Some w, r1)"
      "p1 = p\<lparr>pd_ObservedMax := w, pd_Matched := True\<rparr>"
      using assms(1) by (auto simp: observe_def split: if_splits prod.splits option.splits)
    from realized_loop_range [OF w(3) [unfolded realizedWait_def]] show ?thesis
      using w(1,2) outcome_verified [of p1] ok(2) by (auto simp: finalized_def w(4))
  qed
qed

section \<open>The contract of a recorder\<close>

locale outcome_recorder = redis_client R ks
  for R :: "'r RedisClient" and ks :: "'r \<Rightarrow> keyspace" +
  fixes rec :: "'r recorders"
  assumes observation_frame: "rc_RecordObservation rec f t s h d x r = (e, r') \<Longrightarrow>
      ks r' (pendingKey i) = ks r (pendingKey i) \<and> ks r' expiryKey = ks r expiryKey"
    and stop_frame: "rc_RecordStopOutcome rec = Some record \<Longrightarrow> record t s h x r = (e, r') \<Longrightarrow>
      ks r' (pendingKey i) = ks r (pendingKey i) \<and> ks r' expiryKey = ks r expiryKey"
begin

lemma realized_loop_frame: "realized_loop R g p deps r = (w, r') \<Longrightarrow> ks r' = ks r"
proof (induction deps arbitrary: r)
  case (Cons st sts)
  obtain d r1 where t: "tripDelayAt R g (pd_AgencyID p) (TripID st) (pd_SourceStation p) r = (d, r1)" by fastforce
  have "ks r1 = ks r" using tripDelayAt_cases [OF t] by simp
  then show ?case
    using Cons.prems by (auto simp: Let_def t split: if_splits dest!: Cons.IH)
qed simp

lemma observe_frame: "observe R e p r = (p1, r1) \<Longrightarrow> ks r1 = ks r"
  by (auto simp: observe_def realizedWait_def split: if_splits prod.splits option.splits dest!: realized_loop_frame)

lemma record_frame:
  assumes "record_outcome rec p r = (e, r')"
  shows "waiting (ks r') i = waiting (ks r) i \<and> pendings (ks r') i = pendings (ks r) i"
proof -
  have "ks r' (pendingKey i) = ks r (pendingKey i) \<and> ks r' expiryKey = ks r expiryKey"
    using assms by (auto simp: record_outcome_def split: if_splits option.splits
        dest: observation_frame [where i = i] stop_frame [where i = i])
  then show ?thesis using waiting_frame pendings_frame by blast
qed

lemma finalize_all_spec:
  "finalize_all R rec e ps r = (out, r') \<Longrightarrow> \<forall>p\<in>set ps. pending_ok p \<Longrightarrow>
   list_all2 finalized ps out \<and> (\<forall>i. waiting (ks r') i = waiting (ks r) i)"
proof (induction ps arbitrary: r out)
  case (Cons p ps)
  obtain p1 r1 where o: "observe R e p r = (p1, r1)" by fastforce
  obtain x r2 where rec: "record_outcome rec p1 r1 = (x, r2)" by fastforce
  obtain out1 where f: "finalize_all R rec e ps r2 = (out1, r')"
    using Cons.prems(1) by (auto simp: o rec split: prod.splits)
  have "finalized p (outcome_of p1)" using observe_finalized [OF o] Cons.prems(2) by simp
  then show ?case
    using Cons.prems Cons.IH [OF f] observe_frame [OF o] record_frame [OF rec] by (auto simp: o rec f)
qed simp

lemma claimed_finalized:
  assumes "PopExpired R now sweepBatchSize r = (Inr ps, r1)" "finalize_all R rec e ps r1 = (out, r')"
  shows "\<exists>cl. distinct cl \<and> map (pendings (ks r)) cl = map Some ps \<and> length out \<le> 100 \<and> list_all2 finalized ps out
     \<and> (\<forall>i\<in>set cl. waiting (ks r) i \<and> expired_by (ks r) (i_to_f64 now) i \<and> \<not> waiting (ks r') i)"
proof -
  from PopExpired_cases [OF assms(1)] obtain cl where cl: "distinct cl"
    "map (pendings (ks r)) cl = map Some ps" "int (length ps) \<le> 100"
    "\<forall>i\<in>set cl. waiting (ks r) i \<and> expired_by (ks r) (i_to_f64 now) i \<and> \<not> waiting (ks r1) i"
    by (auto simp: sweepBatchSize_def)
  have "pending_ok p" if "p \<in> set ps" for p
  proof -
    have "Some p \<in> set (map (pendings (ks r)) cl)" using that cl(2) by simp
    then obtain i where "pendings (ks r) i = Some p" by auto
    then show ?thesis by (auto simp: pendings_def intro: unmarshal_pending_ok split: option.splits redis_value.splits)
  qed
  with finalize_all_spec [OF assms(2)] have "list_all2 finalized ps out" "\<forall>i. waiting (ks r') i = waiting (ks r1) i"
    by blast+
  moreover from this(1) have "length ps = length out" by (rule list_all2_lengthD)
  ultimately show ?thesis using cl by (intro exI [of _ cl]) auto
qed

end

section \<open>The history stores are recorders\<close>

context redis_client
begin

lemma record_member_frame:
  assumes "record_member R key now m r = (e, r')" "k \<noteq> key"
  shows "ks r' k = ks r k"
proof -
  obtain e1 r1 where 1: "rd_ZAdd R key (i_to_f64 now) m r = (e1, r1)" by fastforce
  obtain e2 r2 where 2: "rd_ZRemRangeByScore R key (i_to_f64 (i64 (now - historyRetentionSecs))) r1 = (e2, r2)" by fastforce
  have "r' = r2" using assms(1) by (simp add: record_member_def Let_def 1 2)
  then show ?thesis using ZAdd_law [OF 1] ZRemRangeByScore_law [OF 2] assms(2) by (auto simp: put_zset_other)
qed

end

lemma history_keys [simp]:
  "pendingKey i \<noteq> historyKey f t s h" "expiryKey \<noteq> historyKey f t s h"
  "pendingKey i \<noteq> stopImpactKey t s h" "expiryKey \<noteq> stopImpactKey t s h"
  by (simp_all add: pendingKey_def pendingKeyPrefix_def expiryKey_def historyKey_def stopImpactKey_def)

sublocale redis_client \<subseteq> store: outcome_recorder R ks "store_recorders R now nano" for now nano
  by unfold_locales
    (auto simp: store_recorders_def RecordObservation_def RecordStopOutcome_def intro: record_member_frame)

interpretation mem_store: outcome_recorder mem_client mem_ks "store_recorders mem_client now nano" for now nano
  by (rule mem.store.outcome_recorder_axioms)

lemma hour_of_walk: "0 < ti_DetectedAt src \<Longrightarrow> el_graph e = pe_graph eng \<Longrightarrow>
    walk_hour local eng now src = hour_of local e (ti_DetectedAt src)"
proof -
  assume a: "0 < ti_DetectedAt src" "el_graph e = pe_graph eng"
  let ?m = "(ti_DetectedAt src + Location local (Some (pe_graph eng)) (ti_DetectedAt src)) mod 86400"
  have m: "0 \<le> ?m" "?m < 86400" by simp_all
  then have d: "0 \<le> ?m div 3600" "?m div 3600 < 24"
    using zdiv_mono1 [of ?m 86399 3600] pos_imp_zdiv_nonneg_iff [of 3600 ?m] by simp_all
  have "walk_hour local eng now src = tmod (tdiv ?m 3600) 24"
    using a by (simp add: walk_hour_def SecsSinceMidnight_def clock_secs_eq)
  also have "\<dots> = ?m div 3600" using m d by (simp add: tdiv_nonneg tmod_nonneg)
  finally show "walk_hour local eng now src = hour_of local e (ti_DetectedAt src)" by (simp add: hour_of_def a(2))
qed

section \<open>Properties\<close>

text \<open>C15: the outcome of a primary prediction is what the engine reads for that transfer. On a healthy
  connection, once the evaluator records the finalized observation of the prediction tracked for \<open>src\<close>,
  the historical impact the engine looks up for any later impact of the same two routes at the same
  station, detected in the same hour of the agency's day, is the mean over the earlier observations of the
  last 30 days and this one.\<close>

theorem outcome_feeds_engine:
  assumes "healthy_redis R ks healthy" and "healthy r"
    and "di_RouteId imp = ti_ToRouteId src" and "ParentStationID (pe_graph eng) (ti_StationId src) \<noteq> []"
    and "el_graph e = pe_graph eng"
    and "p = (new_pending local e src imp True baselines created nanoP seq)\<lparr>pd_ObservedMax := seenDelay, pd_Matched := m\<rparr>"
    and "record_outcome (store_recorders R now nano) p r = (err, r1)"
    and "ti_FromRouteId src2 = ti_FromRouteId src" and "ti_ToRouteId src2 = ti_ToRouteId src"
    and "ParentStationID (pe_graph eng) (ti_StationId src2) = ParentStationID (pe_graph eng) (ti_StationId src)"
    and "0 < ti_DetectedAt src2" and "hour_of local e (ti_DetectedAt src2) = hour_of local e created"
    and "historical_impact R local eng later src2 r1 = (res, r2)"
    and "zset (ks r) (historyKey (pd_FromRoute p) (pd_RouteID p) (pd_SourceStation p) (pd_Hour p)) = Some z"
    and "marshal_observation \<lparr>ob_SourceDelay = pd_SourceDelaySecs p, ob_DownstreamImpact = seenDelay, ob_At = nano\<rparr> \<notin> fst ` set z"
    and "in_i64 (pd_SourceDelaySecs p)" and "in_i64 seenDelay" and "in_i64 nano"
    and "plain_time now" and "plain_time later" and "later \<le> now + historyRetentionSecs"
  shows "err = None \<and>
    res = Inr (mean_spec (add_mset seenDelay (mset (values_in (map_option ob_DownstreamImpact \<circ> unmarshal_observation)
      (filter (in_window now later) z)))))"
proof -
  let ?from = "ti_FromRouteId src" and ?to = "ti_ToRouteId src"
    and ?st = "ParentStationID (pe_graph eng) (ti_StationId src)" and ?h = "hour_of local e created"
  have p: "pd_IsPrimary p" "pd_FromRoute p = ?from" "pd_RouteID p = ?to" "pd_SourceStation p = ?st" "pd_Hour p = ?h"
    "pd_ObservedMax p = seenDelay"
    using assms(3,5) by (simp_all add: assms(6) new_pending_def)
  have 1: "RecordObservation R ?from ?to ?st ?h (pd_SourceDelaySecs p) seenDelay now nano r = (err, r1)"
    using assms(4,7) by (simp add: record_outcome_def store_recorders_def p)
  have 2: "GetAverageImpact R ?from ?to ?st ?h later r1 = (res, r2)"
    using assms(13) hour_of_walk [OF assms(11,5)] assms(12) by (simp add: historical_impact_def assms(8-10))
  show ?thesis
    by (rule recorded_observation_is_averaged [OF assms(1,2) 1 2 assms(14) [unfolded p(2-5)] assms(15-21)])
qed

theorem outcome_feeds_engine_witness:
  "\<exists>r1. record_outcome (store_recorders mem_client 1728038000 5)
       ((new_pending (\<lambda>_. 0) demo_evaluator demo_broken (item_impact demo_engine demo_first) True [] 1728036000 0 1)
          \<lparr>pd_ObservedMax := 540, pd_Matched := True\<rparr>) empty_redis = (None, r1)
     \<and> fst (historical_impact mem_client (\<lambda>_. 0) demo_engine 1728038100 demo_broken r1) = Inr (540, 1)"
proof -
  define p where "p = (new_pending (\<lambda>_. 0) demo_evaluator demo_broken (item_impact demo_engine demo_first) True []
    1728036000 0 1)\<lparr>pd_ObservedMax := 540, pd_Matched := True\<rparr>"
  obtain err r1 where 1: "record_outcome (store_recorders mem_client 1728038000 5) p empty_redis = (err, r1)" by fastforce
  obtain res r2 where 2: "historical_impact mem_client (\<lambda>_. 0) demo_engine 1728038100 demo_broken r1 = (res, r2)" by fastforce
  have h: "mem_healthy empty_redis" by code_simp
  have z: "zset (mem_ks empty_redis) k = Some []" for k
    by (simp add: zset_def empty_redis_def mem_ks_def del: mem_ks_simps)
  have a: "di_RouteId (item_impact demo_engine demo_first) = ti_ToRouteId demo_broken"
    "ParentStationID (pe_graph demo_engine) (ti_StationId demo_broken) \<noteq> []" "el_graph demo_evaluator = pe_graph demo_engine"
    "0 < ti_DetectedAt demo_broken" "ti_DetectedAt demo_broken = 1728036000" "pd_SourceDelaySecs p = 400"
    by (simp_all add: demo_impacts demo_broken_def demo_evaluator_def p_def new_pending_def)
  have "err = None \<and> res = Inr (mean_spec {#540#})"
    using outcome_feeds_engine [OF mem.healthy_redis_axioms h a(1-3) p_def 1 refl refl refl a(4) _ 2 z]
    by (simp add: a(5,6) in_i64_def plain_time_def historyRetentionSecs_def historyRetentionDays_def)
  moreover have "mean_spec {#540#} = (540, 1)"
    by (simp add: mean_spec_def i64_id in_i64_def in_i32_def)
  ultimately show ?thesis using 1 2 by (simp add: p_def)
qed

end
