(* ===== verification/Processor.thy ===== *)
theory Processor
  imports Enrich Feedback
begin

text \<open>
  \<open>cmd/processor/main.go\<close>: the consumer that ties the components together. One message handled, one
  propagation finished, one monitor tick, one sweep and one expired key are each one transition of the
  processor's state; the goroutines interleave as these transitions do. The tokens in \<open>propSem\<close> are the
  impacts being propagated. The Kafka library delivers the messages (their order, the high-water mark
  and whether the session is done are its inputs); the protobuf codec and the producers are fields of the
  handler.
\<close>

section \<open>Definitions\<close>

definition catchUpEnterLag :: int64 where "catchUpEnterLag = 1000"
definition catchUpExitLag :: int64 where "catchUpExitLag = 100"
definition maxConcurrentPropagations :: nat where "maxConcurrentPropagations = 32"

record ('r, 'p, 'b) consumerHandler =
  ch_rdb :: "'r RedisClient"
  ch_publish :: "TransferImpact \<Rightarrow> 'p \<Rightarrow> bool \<times> 'p"
  ch_engine :: PropagationEngine
  ch_predPub :: "PropagationResult \<Rightarrow> 'p \<Rightarrow> bool \<times> 'p"
  ch_eval :: Evaluator
  ch_graph :: TransitGraph
  ch_unmarshal :: "'b \<Rightarrow> DelayEvent option"

record ('r, 'p) processor =
  pc_redis :: 'r
  pc_broker :: 'p
  pc_catchUp :: bool
  pc_lags :: "(string, int64) gomap"
  pc_propSem :: "TransferImpact list"
  pc_shed :: nat \<comment> \<open>\<open>ProcessorPropagationsShed\<close>\<close>
  pc_seq :: int \<comment> \<open>\<open>pendingSeq\<close>\<close>

record 'b ConsumerMessage =
  cm_Offset :: int64
  cm_Value :: 'b

text \<open>A delivery: the message, the claim's high-water mark, the clock, and whether the session is found
  done at the \<open>i\<close>-th wait of the retries.\<close>

record 'b delivery =
  dl_Message :: "'b ConsumerMessage"
  dl_HighWaterMark :: int64
  dl_now :: int64
  dl_cancelled :: "nat \<Rightarrow> bool"

text \<open>\<open>withRetry\<close>: the error of the last attempt, the waits, and the state. The second argument is the
  number of attempts left, the third the loop variable.\<close>

fun retry_loop ::
  "(nat \<Rightarrow> bool) \<Rightarrow> nat \<Rightarrow> nat \<Rightarrow> int64 \<Rightarrow> ('s \<Rightarrow> 'e option \<times> 's) \<Rightarrow> 'e option \<Rightarrow> 's
   \<Rightarrow> 'e option \<times> int64 list \<times> 's" where
  "retry_loop cancelled 0 i delay fn err s = (err, [], s)"
| "retry_loop cancelled (Suc n) i delay fn err s =
     (case fn s of
        (None, s1) \<Rightarrow> (None, [], s1)
      | (Some e, s1) \<Rightarrow>
          if n = 0 then (Some e, [], s1)
          else if cancelled i then (Some e, [], s1)
          else (case retry_loop cancelled n (i + 1) (i64 (delay * 2)) fn (Some e) s1 of
                  (e', waits, s2) \<Rightarrow> (e', delay # waits, s2)))"

definition withRetry ::
  "(nat \<Rightarrow> bool) \<Rightarrow> int \<Rightarrow> int64 \<Rightarrow> ('s \<Rightarrow> 'e option \<times> 's) \<Rightarrow> 's \<Rightarrow> 'e option \<times> int64 list \<times> 's" where
  "withRetry cancelled attempts base fn s = retry_loop cancelled (nat attempts) 0 base fn None s"

definition partition_lag :: "int64 \<Rightarrow> int64 \<Rightarrow> int64" where
  "partition_lag highWaterMark offset =
     (let lag = i64 (i64 (highWaterMark - offset) - 1) in if lag < 0 then 0 else lag)"

definition lag_key :: "string \<Rightarrow> int \<Rightarrow> string" where
  "lag_key topic part = topic @ ''/'' @ itoa part"

text \<open>Acquire a token or shed the impact.\<close>

definition spawn :: "('r, 'p) processor \<Rightarrow> TransferImpact \<Rightarrow> ('r, 'p) processor" where
  "spawn st impact =
     (if ti_Level impact = BROKEN
      then if length (pc_propSem st) < maxConcurrentPropagations
           then st\<lparr>pc_propSem := pc_propSem st @ [impact]\<rparr>
           else st\<lparr>pc_shed := pc_shed st + 1\<rparr>
      else st)"

text \<open>One message of a claim: \<open>None\<close> marks it, an error ends the claim with the message unmarked.\<close>

definition consume_message ::
  "('r, 'p, 'b) consumerHandler \<Rightarrow> location \<Rightarrow> string \<Rightarrow> 'b delivery \<Rightarrow> ('r, 'p) processor
   \<Rightarrow> state_error option \<times> ('r, 'p) processor" where
  "consume_message h local lagKey d st0 =
     (let R = ch_rdb h; now = dl_now d; msg = dl_Message d;
          st = st0\<lparr>pc_lags := mput lagKey (partition_lag (dl_HighWaterMark d) (cm_Offset msg)) (pc_lags st0)\<rparr>
      in case ch_unmarshal h (cm_Value msg) of
           None \<Rightarrow> (None, st)
         | Some ev0 \<Rightarrow>
             let ev = fst (enrichEvent local now (ch_graph h) ev0)
             in (case withRetry (dl_cancelled d) 3 200000000 (ProcessEvent R (Some (ch_graph h)) ev) (pc_redis st) of
                   (Some err, waits, r1) \<Rightarrow> (Some err, st\<lparr>pc_redis := r1\<rparr>)
                 | (None, waits, r1) \<Rightarrow>
                     (case OnDelayEvent R (ch_eval h) now ev r1 of
                        (err, r2) \<Rightarrow>
                          if pc_catchUp st then (None, st\<lparr>pc_redis := r2\<rparr>)
                          else (case EvaluateDelay R local now (ch_graph h) (Some (ch_publish h)) ev (r2, pc_broker st) of
                                  (impacts, r3, p3) \<Rightarrow>
                                    (None, foldl spawn (st\<lparr>pc_redis := r3, pc_broker := p3\<rparr>) impacts)))))"

text \<open>The loop over \<open>claim.Messages()\<close>; \<open>others\<close> is what the other goroutines do before the next message.
  The result is the error that ended the claim, the marked messages and the state.\<close>

fun claim_loop ::
  "('r, 'p, 'b) consumerHandler \<Rightarrow> location \<Rightarrow> string
   \<Rightarrow> ((('r, 'p) processor \<Rightarrow> ('r, 'p) processor) \<times> 'b delivery) list \<Rightarrow> ('r, 'p) processor
   \<Rightarrow> state_error option \<times> 'b ConsumerMessage list \<times> ('r, 'p) processor" where
  "claim_loop h local lagKey [] st = (None, [], st)"
| "claim_loop h local lagKey ((others, d) # ds) st =
     (case consume_message h local lagKey d (others st) of
        (Some err, st1) \<Rightarrow> (Some err, [], st1)
      | (None, st1) \<Rightarrow>
          (case claim_loop h local lagKey ds st1 of (err, marked, st2) \<Rightarrow> (err, dl_Message d # marked, st2)))"

definition ConsumeClaim ::
  "('r, 'p, 'b) consumerHandler \<Rightarrow> location \<Rightarrow> string \<Rightarrow> int
   \<Rightarrow> ((('r, 'p) processor \<Rightarrow> ('r, 'p) processor) \<times> 'b delivery) list \<Rightarrow> ('r, 'p) processor
   \<Rightarrow> state_error option \<times> 'b ConsumerMessage list \<times> ('r, 'p) processor" where
  "ConsumeClaim h local topic part ds st =
     (case claim_loop h local (lag_key topic part) ds st of
        (err, marked, st1) \<Rightarrow> (err, marked, st1\<lparr>pc_lags := mdel (lag_key topic part) (pc_lags st1)\<rparr>))"

definition runPropagation ::
  "('r, 'p, 'b) consumerHandler \<Rightarrow> location \<Rightarrow> int64 \<Rightarrow> int \<Rightarrow> TransferImpact \<Rightarrow> ('r, 'p) processor
   \<Rightarrow> ('r, 'p) processor option" where
  "runPropagation h local now nano impact st =
     (case Propagate (ch_rdb h) local (ch_engine h) now impact (pc_redis st) of
        None \<Rightarrow> None
      | Some (result, r1) \<Rightarrow>
          if pr_Impacts result = [] then Some (st\<lparr>pc_redis := r1\<rparr>)
          else (case TrackPrediction (ch_rdb h) local (ch_eval h) impact result now nano (pc_seq st) r1 of
                  (err, seq', r2) \<Rightarrow>
                    Some (st\<lparr>pc_redis := r2, pc_seq := seq', pc_broker := snd (ch_predPub h result (pc_broker st))\<rparr>)))"

text \<open>\<open>sync.Map.Range\<close> visits the entries in any order.\<close>

definition sumLags :: "(string, int64) gomap \<Rightarrow> int64" where
  "sumLags m = foldl (\<lambda>total (k, v). i64 (total + v)) 0 m"

definition monitor_tick :: "('r, 'p) processor \<Rightarrow> ('r, 'p) processor" where
  "monitor_tick st =
     (let lag = sumLags (pc_lags st); wasCatchUp = pc_catchUp st
      in if lag > catchUpEnterLag \<and> \<not> wasCatchUp then st\<lparr>pc_catchUp := True\<rparr>
         else if lag < catchUpExitLag \<and> wasCatchUp then st\<lparr>pc_catchUp := False\<rparr>
         else st)"

text \<open>\<open>monitorLag\<close> over the cases its \<open>select\<close> takes: done, or a tick after the others' transitions.\<close>

fun monitorLag :: "(('r, 'p) processor \<Rightarrow> ('r, 'p) processor) option list \<Rightarrow> ('r, 'p) processor \<Rightarrow> ('r, 'p) processor" where
  "monitorLag [] st = st"
| "monitorLag (None # cs) st = st"
| "monitorLag (Some others # cs) st = monitorLag cs (monitor_tick (others st))"

text \<open>\<open>reportStats\<close>: what one tick logs.\<close>

definition stats_step :: "int32 \<times> int32 \<Rightarrow> DelayState \<Rightarrow> int32 \<times> int32" where
  "stats_step sm d =
     (case sm of (acc, mx) \<Rightarrow>
        let s = (if sd_DelaySeconds d < 0 then i32 (- sd_DelaySeconds d) else sd_DelaySeconds d)
        in (i32 (acc + s), if s > mx then s else mx))"

definition stats_of :: "DelayState list \<Rightarrow> (float64 \<times> int32) option" where
  "stats_of found =
     (if found = [] then None
      else case foldl stats_step (0, 0) found of
             (acc, mx) \<Rightarrow> Some (f64 (i_to_f64 acc / i_to_f64 (int (length found))), mx))"

definition reportStats_tick ::
  "'r RedisClient \<Rightarrow> string \<Rightarrow> 'r \<Rightarrow> (int \<times> (float64 \<times> int32) option) option \<times> 'r" where
  "reportStats_tick R agencyID r =
     (case GetAllActiveDelays R agencyID r of
        (Inl e, r1) \<Rightarrow> (None, r1)
      | (Inr found, r1) \<Rightarrow> (Some (int (length found), stats_of found), r1))"

section \<open>The transitions of the process\<close>

inductive processor_step ::
  "('r \<Rightarrow> keyspace) \<Rightarrow> ('r, 'p, 'b) consumerHandler \<Rightarrow> location \<Rightarrow> ('r, 'p) processor \<Rightarrow> ('r, 'p) processor \<Rightarrow> bool"
  for ks h local where
  message: "consume_message h local lagKey d st = (err, st') \<Longrightarrow> processor_step ks h local st st'"
| claim_end: "processor_step ks h local st (st\<lparr>pc_lags := mdel lagKey (pc_lags st)\<rparr>)"
| propagation: "pc_propSem st = xs @ impact # ys \<Longrightarrow> runPropagation h local now nano impact st = Some st' \<Longrightarrow>
    processor_step ks h local st (st'\<lparr>pc_propSem := xs @ ys\<rparr>)"
| monitor: "processor_step ks h local st (monitor_tick st)"
| sweep: "sweepOnce (ch_rdb h) (store_recorders (ch_rdb h) now nano) (ch_eval h) now (pc_redis st) = (res, r') \<Longrightarrow>
    processor_step ks h local st (st\<lparr>pc_redis := r'\<rparr>)"
| stats: "reportStats_tick (ch_rdb h) agencyID (pc_redis st) = (res, r') \<Longrightarrow>
    processor_step ks h local st (st\<lparr>pc_redis := r'\<rparr>)"
| expiry: "ks r' = (ks (pc_redis st))(k := None) \<Longrightarrow> processor_step ks h local st (st\<lparr>pc_redis := r'\<rparr>)"

end
