(* ===== verification/Frames.thy ===== *)
theory Frames
  imports Processor
begin

text \<open>
  What each component of the processor leaves alone. Only \<open>ProcessEvent\<close> writes delay documents: the
  detector, the engine, the evaluator and the sweeper read them at most, whatever Redis answers. On a
  healthy connection they also leave it healthy.
\<close>

section \<open>Delay documents\<close>

definition delay_key :: "string \<Rightarrow> bool" where
  "delay_key k \<longleftrightarrow> take 6 k = ''delay:''"

definition same_delays :: "keyspace \<Rightarrow> keyspace \<Rightarrow> bool" where
  "same_delays m m' \<longleftrightarrow> (\<forall>k. delay_key k \<longrightarrow> m' k = m k)"

named_theorems frames

lemma same_delays_refl [simp]: "same_delays m m"
  by (simp add: same_delays_def)

lemma same_delays_trans: "same_delays m m' \<Longrightarrow> same_delays m' m'' \<Longrightarrow> same_delays m m''"
  by (simp add: same_delays_def)

lemma delay_key_delayKey [simp]: "delay_key (delayKey a t s)"
  by (simp add: delay_key_def delayKey_def)

lemma other_keys [simp]:
  "\<not> delay_key (pendingKey i)" "\<not> delay_key (indexKey a b c)" "\<not> delay_key expiryKey"
  "\<not> delay_key (historyKey f t s h)" "\<not> delay_key (stopImpactKey t s h)"
  by (simp_all add: delay_key_def pendingKey_def pendingKeyPrefix_def indexKey_def indexKeyPrefix_def expiryKey_def
      historyKey_def stopImpactKey_def)

lemma same_put_zset: "\<not> delay_key k \<Longrightarrow> same_delays m (put_zset k z m)"
  by (auto simp: same_delays_def put_zset_def)

section \<open>Writes elsewhere\<close>

context redis_client
begin

abbreviation keeps :: "'r \<Rightarrow> 'r \<Rightarrow> bool" where
  "keeps r r' \<equiv> same_delays (ks r) (ks r')"

lemma write_frames [frames]:
  "rd_Set R k v ttl r = (e, r') \<Longrightarrow> \<not> delay_key k \<Longrightarrow> keeps r r'"
  "rd_SetXX R k v r = (e, r') \<Longrightarrow> \<not> delay_key k \<Longrightarrow> keeps r r'"
  "rd_Del R [k] r = (e, r') \<Longrightarrow> \<not> delay_key k \<Longrightarrow> keeps r r'"
  "rd_ZAdd R k s m r = (e, r') \<Longrightarrow> \<not> delay_key k \<Longrightarrow> keeps r r'"
  "rd_ZRem R k m r = (res, r') \<Longrightarrow> \<not> delay_key k \<Longrightarrow> keeps r r'"
  "rd_ZRemRangeByScore R k mx r = (e, r') \<Longrightarrow> \<not> delay_key k \<Longrightarrow> keeps r r'"
  "rd_Expire R k ttl r = (e, r') \<Longrightarrow> keeps r r'"
  by (auto simp: same_put_zset simp flip: fun_upd_def dest!: Set_law SetXX_law Del_law ZAdd_law ZRem_law ZRemRangeByScore_law Expire_law
      split: if_splits) (auto simp: same_delays_def)

lemma pipe_frame:
  "pipe_exec cs r = (e, r') \<Longrightarrow> (\<And>c s x s'. c \<in> set cs \<Longrightarrow> c s = (x, s') \<Longrightarrow> keeps s s') \<Longrightarrow> keeps r r'"
proof (induction cs arbitrary: r e)
  case (Cons c cs)
  obtain x s where c: "c r = (x, s)" by fastforce
  obtain y where p: "pipe_exec cs s = (y, r')"
    using Cons.prems(1) by (auto simp: c split: prod.splits option.splits)
  have "keeps r s" using Cons.prems(2) [of c r x s] c by simp
  moreover have "keeps s r'"
  proof (rule Cons.IH [OF p])
    show "keeps s1 s2" if "d \<in> set cs" "d s1 = (x, s2)" for d s1 x s2
      using Cons.prems(2) [of d s1 x s2] that by simp
  qed
  ultimately show ?case by (rule same_delays_trans)
qed simp

lemma Update_frame: "Update R p r = (e, r') \<Longrightarrow> keeps r r'"
  by (auto simp: Update_def split: prod.splits dest: frames)

lemma match_all_frame: "match_all R dir ev ps fe r = (e, r') \<Longrightarrow> keeps r r'"
  by (induction ps arbitrary: fe r)
    (auto split: option.splits prod.splits intro: same_delays_trans dest!: Update_frame)

lemma FindActive_frame: "FindActive R a t s now r = (res, r') \<Longrightarrow> ks r' = ks r"
  by (auto simp: FindActive_def split: prod.splits sum.splits dest!: ZRangeByScore_law get_all_cases)

lemma OnDelayEvent_frame: "OnDelayEvent R e now ev r = (err, r') \<Longrightarrow> keeps r r'"
  by (auto simp: OnDelayEvent_def split: if_splits prod.splits sum.splits dest!: FindActive_frame match_all_frame)

lemma EvaluateDelay_reads: "EvaluateDelay R local now g pub ev (r, p) = (out, r', p') \<Longrightarrow> ks r' = ks r"
  by (auto simp: EvaluateDelay_def evaluate_transfers_pairs Let_def split: if_splits prod.splits dest!: evaluate_pairs_sound)

lemma Add_frame: "Add R nano p r = (e, r') \<Longrightarrow> keeps r r'"
  by (auto simp: Add_def Let_def simp del: pipe_exec.simps split: if_splits prod.splits elim!: pipe_frame)
    (drule frames; simp)+

lemma track_loop_frame: "track_loop R nano mk wanted is n fe seq r = (e, seq', r') \<Longrightarrow> keeps r r'"
  by (induction "is" arbitrary: n fe seq r)
    (auto simp: Let_def split: if_splits option.splits prod.splits intro: same_delays_trans dest!: Add_frame)

lemma TrackPrediction_frame: "TrackPrediction R local e src res now nano seq r = (err, seq', r') \<Longrightarrow> keeps r r'"
  by (auto simp: TrackPrediction_def baselineDelays_def Let_def in_i32_def split: prod.splits
      dest!: baseline_loop_sound track_loop_frame)

lemma average_members_reads: "average_members R val key now r = (res, r') \<Longrightarrow> ks r' = ks r"
  by (auto simp: average_members_def Let_def split: prod.splits sum.splits dest!: ZRangeByScore_law)

lemma blendPerStop_reads: "blendPerStop R e now hour route stop d r = (res, r') \<Longrightarrow> ks r' = ks r"
  by (auto simp: blendPerStop_def GetAverageStopImpact_def split: if_splits prod.splits sum.splits
      dest!: average_members_reads)

lemma seed_stops_reads:
  "seed_stops R e now route dir conf hops ty acc i stops (w, r) = (w', r') \<Longrightarrow> ks r' = ks r"
  by (induction stops arbitrary: acc i w r)
    (auto simp: Let_def split: if_splits prod.splits dest: blendPerStop_reads)

lemma seedDownstream_reads:
  "seedDownstream R e now route station dir d conf hops ty (w, r) = (w', r') \<Longrightarrow> ks r' = ks r"
  by (auto simp: seedDownstream_def split: list.splits dest: seed_stops_reads)

lemma expand_reads: "expand R e now item (w, r) = (w', r') \<Longrightarrow> ks r' = ks r"
  by (auto simp: expand_def Let_def split: if_splits prod.splits dest: seedDownstream_reads)

lemma walk_step_reads: "ks (snd (snd (walk_step R e now s))) = ks (snd (snd s))"
  by (cases s) (auto simp: walk_step_def Let_def split: if_splits prod.splits dest: expand_reads)

lemma walk_start_reads: "walk_start R local e now src r = (w, r') \<Longrightarrow> ks r' = ks r"
  by (auto simp: walk_start_def snapshotLiveDelays_def historical_impact_def GetAverageImpact_def GetAllActiveDelays_def
      Let_def split: if_splits prod.splits sum.splits
      dest!: seedDownstream_reads average_members_reads scan_states_sound)

lemma Propagate_reads:
  assumes "Propagate R local e now src r = Some (res, r')"
  shows "ks r' = ks r"
proof -
  obtain w r1 where 1: "walk_start R local e now src r = (w, r1)" by fastforce
  obtain w' imps where 2: "while_option (walk_more e) (walk_step R e now) (w, [], r1) = Some (w', imps, r')"
    using assms by (auto simp: Propagate_def 1 split: option.splits)
  have "ks (snd (snd (w', imps, r'))) = ks r1"
    using while_option_rule [where P = "\<lambda>s. ks (snd (snd s)) = ks r1", OF _ 2] by (simp add: walk_step_reads)
  then show ?thesis using walk_start_reads [OF 1] by simp
qed

lemma runPropagation_frame:
  assumes "runPropagation h local now nano src st = Some st'" and R: "ch_rdb h = R"
  shows "keeps (pc_redis st) (pc_redis st') \<and> pc_catchUp st' = pc_catchUp st \<and> pc_lags st' = pc_lags st
   \<and> pc_propSem st' = pc_propSem st \<and> pc_shed st' = pc_shed st"
  using assms(1)
  by (auto simp: runPropagation_def R split: option.splits prod.splits if_splits dest!: Propagate_reads TrackPrediction_frame)

lemma claim_frame: "claim R i r = (res, r') \<Longrightarrow> keeps r r'"
proof -
  assume c: "claim R i r = (res, r')"
  obtain x r1 where 1: "rd_ZRem R expiryKey (JStr i) r = (x, r1)" by fastforce
  obtain g r2 where 2: "pending_get R i r1 = (g, r2)" by fastforce
  have k1: "keeps r r1" using frames(5) [OF 1] by simp
  have k2: "ks r2 = ks r1" using pending_get_cases [OF 2] by simp
  show ?thesis
  proof (cases "\<exists>n p. x = Inr n \<and> n \<noteq> 0 \<and> g = Inr p")
    case True
    then obtain p e where p: "g = Inr p" "pipe_exec [pipe_ZRem R (indexKey (pd_AgencyID p) (pd_RouteID p) (pd_StationID p)) (JStr i),
        rd_Del R [pendingKey i]] r2 = (e, r')"
      using c by (auto simp: claim_def 1 2 simp del: pipe_exec.simps split: prod.splits)
    have "keeps r2 r'"
      by (rule pipe_frame [OF p(2)])
        (auto simp: pipe_ZRem_def split: prod.splits sum.splits dest!: frames)
    then show ?thesis using k1 k2 by (simp add: same_delays_trans)
  next
    case False
    then show ?thesis using c k1 k2 by (auto simp: claim_def 1 2 split: sum.splits if_splits)
  qed
qed

lemma claim_all_frame: "claim_all R is r = (out, r') \<Longrightarrow> keeps r r'"
  by (induction "is" arbitrary: r out)
    (auto split: option.splits prod.splits intro: same_delays_trans dest!: claim_frame)

lemma record_member_keeps: "record_member R key now m r = (e, r') \<Longrightarrow> \<not> delay_key key \<Longrightarrow> keeps r r'"
  by (auto simp: same_delays_def dest!: record_member_frame)

lemma finalize_all_frame: "finalize_all R (store_recorders R now nano) e ps r = (out, r') \<Longrightarrow> keeps r r'"
proof (induction ps arbitrary: r out)
  case (Cons p ps)
  obtain p1 r1 where o: "observe R e p r = (p1, r1)" by fastforce
  obtain x r2 where rec: "record_outcome (store_recorders R now nano) p1 r1 = (x, r2)" by fastforce
  have "keeps r1 r2"
    using rec by (auto simp: record_outcome_def store_recorders_def RecordObservation_def RecordStopOutcome_def
        split: if_splits dest!: record_member_keeps)
  moreover obtain out1 where "finalize_all R (store_recorders R now nano) e ps r2 = (out1, r')"
    using Cons.prems by (auto simp: o rec split: prod.splits)
  ultimately show ?case using store.observe_frame [OF o] Cons.IH same_delays_trans by fastforce
qed simp

lemma sweepOnce_frame: "sweepOnce R (store_recorders R now nano) e now r = (res, r') \<Longrightarrow> keeps r r'"
  by (auto simp: sweepOnce_def PopExpired_def split: prod.splits sum.splits
      intro: same_delays_trans dest!: ZRangeByScore_law claim_all_frame finalize_all_frame)

lemma reportStats_reads: "reportStats_tick R a r = (res, r') \<Longrightarrow> ks r' = ks r"
  by (auto simp: reportStats_tick_def GetAllActiveDelays_def split: prod.splits sum.splits dest!: scan_states_sound)

end

section \<open>A healthy connection stays healthy\<close>

context healthy_redis
begin

lemma match_all_healthy: "match_all R dir ev ps fe r = (e, r') \<Longrightarrow> healthy r \<Longrightarrow> healthy r'"
  by (induction ps arbitrary: fe r)
    (auto simp: Update_def split: option.splits prod.splits dest: SetXX_healthy)

lemma OnDelayEvent_healthy: "OnDelayEvent R e now ev r = (err, r') \<Longrightarrow> healthy r \<Longrightarrow> healthy r'"
  by (auto simp: OnDelayEvent_def FindActive_def split: if_splits prod.splits sum.splits
      dest: ZRangeByScore_healthy get_all_exact match_all_healthy)

lemma EvaluateDelay_healthy: "EvaluateDelay R local now g pub ev (r, p) = (out, r', p') \<Longrightarrow> healthy r \<Longrightarrow> healthy r'"
  by (auto simp: EvaluateDelay_def evaluate_transfers_pairs Let_def split: if_splits prod.splits dest: evaluate_pairs_exact)

lemma ProcessEvent_healthy:
  "ProcessEvent R g ev r = (e, r') \<Longrightarrow> healthy r \<Longrightarrow> healthy r'"
  by (auto simp: ProcessEvent_def clearTripDelays_def getState_def setState_def Let_def
      split: DelayEvent_EventType.splits prod.splits option.splits sum.splits if_splits
      dest: Scan_healthy Del_healthy Get_healthy Set_healthy)

end

end
