(* ===== verification/ProcessorProps.thy ===== *)
theory ProcessorProps
  imports Frames
begin

text \<open>
  What the processor guarantees: retries stop at the first success, every marked message was applied to
  the delay table at least once and in order, a claim completes on a healthy connection, the state
  invariant holds in every interleaving, and catch-up mode follows the last decisive lag reading.
\<close>

section \<open>Retries\<close>

definition after :: "('s \<Rightarrow> 'e option \<times> 's) \<Rightarrow> nat \<Rightarrow> 's \<Rightarrow> 's" where
  "after fn k = (\<lambda>s. snd (fn s)) ^^ k"

lemma after_simps [simp]: "after fn 0 s = s" "after fn (Suc k) s = after fn k (snd (fn s))"
  by (simp_all add: after_def funpow_Suc_right del: funpow.simps(2))

lemma after_last: "after fn (Suc k) s = snd (fn (after fn k s))"
  by (simp add: after_def del: after_simps)

lemma i64_mod: "i64 (x mod 18446744073709551616) = i64 x"
  by (simp add: i64_def mod_simps)

lemma i64_mult_left: "i64 (i64 a * b) = i64 (a * b)"
proof -
  have "i64 a mod 18446744073709551616 = a mod 18446744073709551616" by (simp add: i64_def mod_diff_left_eq)
  then have "(i64 a * b) mod 18446744073709551616 = (a * b) mod 18446744073709551616" by (rule mod_mult_cong) simp
  then show ?thesis by (metis i64_mod)
qed

lemma retry_loop_spec:
  assumes "retry_loop cancelled (Suc n) i delay fn err0 s = (err, waits, s')" "in_i64 delay"
  shows "\<exists>k\<le>n. s' = after fn (Suc k) s \<and> err = fst (fn (after fn k s))
    \<and> (\<forall>j<k. fst (fn (after fn j s)) \<noteq> None \<and> \<not> cancelled (i + j)) \<and> (err \<noteq> None \<longrightarrow> k = n \<or> cancelled (i + k))
    \<and> waits = map (\<lambda>j. i64 (delay * 2 ^ j)) [0..<k]"
  using assms
proof (induction n arbitrary: i delay err0 s waits)
  case 0
  then show ?case by (cases "fn s") (auto split: option.splits)
next
  case (Suc n)
  obtain e s1 where f: "fn s = (e, s1)" by fastforce
  show ?case
  proof (cases "e = None \<or> cancelled i")
    case True
    then show ?thesis using Suc.prems(1) f by (intro exI [of _ 0]) (auto split: option.splits)
  next
    case False
    then obtain x where e: "e = Some x" by auto
    obtain y ws s2 where r: "retry_loop cancelled (Suc n) (Suc i) (i64 (delay * 2)) fn (Some x) s1 = (y, ws, s2)"
      by (cases "retry_loop cancelled (Suc n) (Suc i) (i64 (delay * 2)) fn (Some x) s1") auto
    have "(err, waits, s') = (y, delay # ws, s2)"
      using Suc.prems(1) False r by (subst (asm) retry_loop.simps(2)) (simp add: f e del: retry_loop.simps)
    then have r': "retry_loop cancelled (Suc n) (Suc i) (i64 (delay * 2)) fn (Some x) s1 = (err, ws, s')"
      and w: "waits = delay # ws" using r by simp_all
    from Suc.IH [OF r'] obtain k where k: "k \<le> n" "s' = after fn (Suc k) s1" "err = fst (fn (after fn k s1))"
      "\<forall>j<k. fst (fn (after fn j s1)) \<noteq> None \<and> \<not> cancelled (Suc i + j)"
      "err \<noteq> None \<longrightarrow> k = n \<or> cancelled (Suc i + k)"
      "ws = map (\<lambda>j. i64 (i64 (delay * 2) * 2 ^ j)) [0..<k]"
      by auto
    have "waits = map (\<lambda>j. i64 (delay * 2 ^ j)) [0..<Suc k]"
      unfolding upt_conv_Cons [OF zero_less_Suc] map_Suc_upt [symmetric]
      using Suc.prems(2) by (simp add: w k(6) i64_mult_left i64_id mult.assoc)
    then show ?thesis
      using k(1-5) False f e
      by (intro exI [of _ "Suc k"]) (auto simp: less_Suc_eq_0_disj simp del: upt_Suc)
  qed
qed

section \<open>The delay table\<close>

text \<open>The delay documents by key, and the effect of one message handled with \<open>n\<close> writes.\<close>

definition delay_table :: "keyspace \<Rightarrow> string \<Rightarrow> DelayState option" where
  "delay_table m k = (if delay_key k then delays m k else None)"

definition delay_route :: "TransitGraph \<Rightarrow> DelayEvent \<Rightarrow> string" where
  "delay_route g ev = (if ev_RouteId ev = [] then mgetd [] (TripRoute g) (ev_TripId ev) else ev_RouteId ev)"

definition effect ::
  "('r, 'p, 'b) consumerHandler \<Rightarrow> location \<Rightarrow> 'b delivery \<Rightarrow> nat
   \<Rightarrow> (string \<Rightarrow> DelayState option) \<Rightarrow> string \<Rightarrow> DelayState option" where
  "effect h local d n m =
     (case ch_unmarshal h (cm_Value (dl_Message d)) of
        None \<Rightarrow> m
      | Some ev0 \<Rightarrow> let ev = fst (enrichEvent local (dl_now d) (ch_graph h) ev0)
                    in (apply_event (delay_route (ch_graph h) ev) ev ^^ n) m)"

fun effects ::
  "('r, 'p, 'b) consumerHandler \<Rightarrow> location \<Rightarrow> 'b delivery list \<Rightarrow> nat list
   \<Rightarrow> (string \<Rightarrow> DelayState option) \<Rightarrow> string \<Rightarrow> DelayState option" where
  "effects h local (d # ds) (n # ns) m = effects h local ds ns (effect h local d n m)"
| "effects h local ds ns m = m"

text \<open>Every event the codec yields has numbers in range and plain agency and trip IDs.\<close>

definition plain_events :: "('b \<Rightarrow> DelayEvent option) \<Rightarrow> bool" where
  "plain_events unmarshal \<longleftrightarrow>
     (\<forall>v ev. unmarshal v = Some ev \<longrightarrow> wf_event ev \<and> glob_free (ev_AgencyId ev) \<and> glob_free (ev_TripId ev))"

lemma enrich_plain:
  "wf_event ev \<Longrightarrow> wf_event (fst (enrichEvent local now g ev))"
  "ev_AgencyId (fst (enrichEvent local now g ev)) = ev_AgencyId ev"
  "ev_TripId (fst (enrichEvent local now g ev)) = ev_TripId ev"
  by (auto simp: enrichEvent_def Let_def wf_event_def split: option.splits)

lemma same_delays_table: "same_delays m m' \<Longrightarrow> delay_table m' = delay_table m"
  by (auto simp: same_delays_def delay_table_def delays_def fun_eq_iff)

lemma apply_event_table:
  "(\<lambda>k. if delay_key k then apply_event route ev m k else None)
     = apply_event route ev (\<lambda>k. if delay_key k then m k else None)"
  by (auto simp: apply_event_def event_key_def fun_eq_iff split: DelayEvent_EventType.splits option.splits)

lemma apply_event_delay_table:
  "delays m' = apply_event route ev (delays m) \<Longrightarrow> delay_table m' = apply_event route ev (delay_table m)"
  by (simp add: delay_table_def [abs_def] flip: apply_event_table cong: if_cong)

text \<open>What happens to one key depends on what stood at that key alone.\<close>

lemma apply_event_local: "m k = m' k \<Longrightarrow> apply_event route ev m k = apply_event route ev m' k"
  by (cases "k = event_key ev"; cases "ev_Type ev") (simp_all add: apply_event_def split: option.split)

lemma effect_local:
  assumes "m k = m' k"
  shows "effect h local d n m k = effect h local d n m' k"
proof -
  have "(apply_event route ev ^^ n) m k = (apply_event route ev ^^ n) m' k" for route ev
  proof (induction n)
    case (Suc n)
    show ?case unfolding funpow.simps(2) comp_def by (rule apply_event_local) (rule Suc.IH)
  qed (simp add: assms)
  then show ?thesis using assms unfolding effect_def Let_def by (simp split: option.split)
qed

lemma effects_local: "m k = m' k \<Longrightarrow> effects h local ds ns m k = effects h local ds ns m' k"
proof (induction h local ds ns m arbitrary: m' rule: effects.induct)
  case (1 h local d ds n ns m)
  have "effect h local d n m k = effect h local d n m' k" by (rule effect_local) (rule 1(2))
  then show ?case unfolding effects.simps by (rule 1(1))
qed simp_all

lemma apply_event_route:
  "ev_Type ev \<in> {TRIP_CANCELLED, SKIP_STOP} \<Longrightarrow> apply_event route ev = apply_event route' ev"
  by (auto simp: apply_event_def)

context redis_client
begin

abbreviation table :: "('r, 'p) processor \<Rightarrow> string \<Rightarrow> DelayState option" where
  "table st \<equiv> delay_table (ks (pc_redis st))"

lemma ProcessEvent_table:
  assumes "ProcessEvent R (Some g) ev r = (e, r')" "wf_event ev" "glob_free (ev_AgencyId ev)" "glob_free (ev_TripId ev)"
  shows "delay_table (ks r') = apply_event (delay_route g ev) ev (delay_table (ks r))
    \<or> e \<noteq> None \<and> delay_table (ks r') = delay_table (ks r)"
  using ProcessEvent_cases [OF assms]
proof (elim disjE exE conjE)
  fix route
  assume r: "delays (ks r') = apply_event route ev (delays (ks r))"
    and "ev_Type ev \<in> {TRIP_CANCELLED, SKIP_STOP}"
  then have "delays (ks r') = apply_event (delay_route g ev) ev (delays (ks r))"
    using apply_event_route by metis
  then show ?thesis by (simp add: apply_event_delay_table)
next
  fix route
  assume "delays (ks r') = apply_event route ev (delays (ks r))" "route_of_event (Some g) ev = Inr route"
  moreover from this(2) have "route = delay_route g ev" by (simp add: route_of_event_def delay_route_def split: if_splits)
  ultimately show ?thesis by (simp add: apply_event_delay_table)
qed (simp add: delay_table_def fun_eq_iff)

lemma ProcessEvent_after:
  assumes "wf_event ev" "glob_free (ev_AgencyId ev)" "glob_free (ev_TripId ev)"
  shows "\<exists>n\<le>k. delay_table (ks (after (ProcessEvent R (Some g) ev) k r))
      = (apply_event (delay_route g ev) ev ^^ n) (delay_table (ks r))"
proof (induction k)
  case (Suc k)
  then obtain n where n: "n \<le> k" "delay_table (ks (after (ProcessEvent R (Some g) ev) k r))
      = (apply_event (delay_route g ev) ev ^^ n) (delay_table (ks r))" by blast
  obtain e r' where p: "ProcessEvent R (Some g) ev (after (ProcessEvent R (Some g) ev) k r) = (e, r')" by fastforce
  from ProcessEvent_table [OF p assms] show ?case
    using n unfolding after_last p snd_conv by (metis Suc_le_mono funpow.simps(2) le_SucI o_apply)
qed (simp add: exI [of _ 0])

lemma consume_message_table:
  assumes "consume_message h local key d st = (err, st')" "ch_rdb h = R" "plain_events (ch_unmarshal h)"
  shows "\<exists>n\<le>3. table st' = effect h local d n (table st) \<and> (err = None \<longrightarrow> 1 \<le> n)"
proof (cases "ch_unmarshal h (cm_Value (dl_Message d))")
  case None
  then show ?thesis using assms(1) by (intro exI [of _ 1]) (auto simp: consume_message_def Let_def effect_def)
next
  case (Some ev0)
  define ev where "ev = fst (enrichEvent local (dl_now d) (ch_graph h) ev0)"
  let ?fn = "ProcessEvent R (Some (ch_graph h)) ev"
  have ok: "wf_event ev" "glob_free (ev_AgencyId ev)" "glob_free (ev_TripId ev)"
    using assms(3) Some by (auto simp: plain_events_def ev_def enrich_plain)
  obtain e ws r1 where w: "withRetry (dl_cancelled d) 3 200000000 ?fn (pc_redis st) = (e, ws, r1)"
    by (metis prod.exhaust)
  then have "retry_loop (dl_cancelled d) (Suc 2) 0 200000000 ?fn None (pc_redis st) = (e, ws, r1)"
    by (simp add: withRetry_def eval_nat_numeral)
  from retry_loop_spec [OF this] obtain k where k: "k \<le> 2" "r1 = after ?fn (Suc k) (pc_redis st)"
    "e = fst (?fn (after ?fn k (pc_redis st)))"
    by (auto simp: in_i64_def)
  obtain n where n: "n \<le> k" "delay_table (ks (after ?fn k (pc_redis st)))
      = (apply_event (delay_route (ch_graph h) ev) ev ^^ n) (table st)"
    using ProcessEvent_after [OF ok] by blast
  have "?fn (after ?fn k (pc_redis st)) = (e, r1)" by (simp add: k after_last del: after_simps(2))
  from ProcessEvent_table [OF this ok] n obtain n' where n': "n' \<le> 3" "e = None \<longrightarrow> 1 \<le> n'"
    "delay_table (ks r1) = (apply_event (delay_route (ch_graph h) ev) ev ^^ n') (table st)"
    using k(1) by (metis (no_types, lifting) One_nat_def Suc_le_mono funpow.simps(2) le_SucI le_trans numeral_2_eq_2
        numeral_3_eq_3 o_apply zero_le)
  have spawn_redis: "pc_redis (foldl spawn s imps) = pc_redis s" for s and imps
    by (induction imps arbitrary: s) (simp_all add: spawn_def)
  have "table st' = delay_table (ks r1) \<and> (err = None \<longleftrightarrow> e = None)"
    using assms(1) Some w
    by (auto simp: consume_message_def Let_def assms(2) spawn_redis simp flip: ev_def split: option.splits prod.splits if_splits
        dest!: OnDelayEvent_frame EvaluateDelay_reads same_delays_table)
  then show ?thesis using n' Some by (intro exI [of _ n']) (auto simp: effect_def ev_def Let_def)
qed

lemma claim_loop_table:
  assumes "claim_loop h local key ds st = (err, marked, st')" "ch_rdb h = R" "plain_events (ch_unmarshal h)"
  shows "\<exists>ns ss. marked = map (dl_Message \<circ> snd) (take (length marked) ds)
    \<and> (if err = None then length marked = length ds \<and> length ns = length ds
       else length marked < length ds \<and> length ns = Suc (length marked))
    \<and> (\<forall>n\<in>set ns. n \<le> 3) \<and> (\<forall>n\<in>set (take (length marked) ns). 1 \<le> n)
    \<and> length ss = Suc (length ns) \<and> hd ss = st \<and> table st' = table (last ss)
    \<and> (\<forall>i<length ns. table (ss ! Suc i) = effect h local (snd (ds ! i)) (ns ! i) (table (fst (ds ! i) (ss ! i))))"
  using assms(1)
proof (induction ds arbitrary: st marked)
  case Nil
  then show ?case by (intro exI [of _ "[]"] exI [of _ "[st]"]) auto
next
  case (Cons x ds)
  obtain others d where x: "x = (others, d)" by fastforce
  obtain e st1 where c: "consume_message h local key d (others st) = (e, st1)" by fastforce
  from consume_message_table [OF c assms(2,3)] obtain n where n: "n \<le> 3" "e = None \<longrightarrow> 1 \<le> n"
    "table st1 = effect h local d n (table (others st))" by blast
  show ?case
  proof (cases e)
    case (Some y)
    then show ?thesis using Cons.prems n by (intro exI [of _ "[n]"] exI [of _ "[st, st1]"]) (auto simp: x c)
  next
    case None
    then obtain marked1 where l: "claim_loop h local key ds st1 = (err, marked1, st')"
      "marked = dl_Message d # marked1"
      using Cons.prems by (auto simp: x c split: prod.splits)
    from Cons.IH [OF l(1)] obtain ns ss where
      m: "marked1 = map (dl_Message \<circ> snd) (take (length marked1) ds)" and
      len: "if err = None then length marked1 = length ds \<and> length ns = length ds
       else length marked1 < length ds \<and> length ns = Suc (length marked1)" and
      ns: "\<forall>n\<in>set ns. n \<le> 3" "\<forall>n\<in>set (take (length marked1) ns). 1 \<le> n" and
      ss: "length ss = Suc (length ns)" "hd ss = st1" "table st' = table (last ss)" and
      eff: "\<forall>i<length ns. table (ss ! Suc i) = effect h local (snd (ds ! i)) (ns ! i) (table (fst (ds ! i) (ss ! i)))"
      by (elim exE conjE) (rule that)
    from ss(1) have "ss \<noteq> []" by auto
    with ss(2) have "ss ! 0 = st1" by (simp flip: hd_conv_nth)
    then have "\<forall>i<length (n # ns). table ((st # ss) ! Suc i)
        = effect h local (snd ((x # ds) ! i)) ((n # ns) ! i) (table (fst ((x # ds) ! i) ((st # ss) ! i)))"
      using eff n(3) by (auto simp: x nth_Cons split: nat.split)
    with m len ns ss n(1,2) None \<open>ss \<noteq> []\<close> show ?thesis
      by (intro exI [of _ "n # ns"] exI [of _ "st # ss"]) (auto simp: x l(2) comp_def split: if_splits)
  qed
qed

end

section \<open>A healthy connection\<close>

text \<open>Every delay document can be read.\<close>

definition decodable :: "keyspace \<Rightarrow> bool" where
  "decodable m \<longleftrightarrow> (\<forall>k. delay_key k \<longrightarrow> m k = None \<or> delays m k \<noteq> None)"

lemma same_delays_decodable: "same_delays m m' \<Longrightarrow> decodable m \<Longrightarrow> decodable m'"
  by (auto simp: same_delays_def decodable_def delays_def)

lemma decodable_set: "decodable m \<Longrightarrow> ds_ok ds \<Longrightarrow> decodable (m(k \<mapsto> VStr (marshal_DelayState ds)))"
  by (auto simp: decodable_def delays_def unmarshal_marshal)

lemma decodable_del: "decodable m \<Longrightarrow> decodable (\<lambda>k. if k \<in> K then None else m k)"
  by (auto simp: decodable_def delays_def)

context redis_client
begin

lemma ProcessEvent_decodable:
  assumes "ProcessEvent R g ev r = (e, r')" "wf_event ev" "decodable (ks r)"
  shows "decodable (ks r')"
proof (cases "ev_Type ev \<in> {TRIP_CANCELLED, SKIP_STOP}")
  case True
  have del: "decodable (ks s')" if "rd_Del R keys s = (x, s')" "ks s = ks r" for keys s x s'
    using Del_law [OF that(1), unfolded that(2)] decodable_del [OF assms(3), of "set keys"] assms(3) by auto
  show ?thesis
    using True assms(1,3) del
    by (auto simp: ProcessEvent_def clearTripDelays_def Let_def split: prod.splits option.splits if_splits dest!: Scan_law)
next
  case False
  obtain res r1 where s: "getState R (event_key ev) r = (res, r1)" by fastforce
  have set: "(x, s) = setState R (event_key ev) ds r1 \<Longrightarrow> ds_ok ds \<Longrightarrow> decodable (ks s)" for ds x s
    using getState_cases(1) [OF s] decodable_set [OF assms(3)] assms(3)
    by (auto simp: setState_def split: prod.splits dest!: Set_law)
  show ?thesis
    using ProcessEvent_delay [OF False s, of g, unfolded assms(1)] getState_cases(1) [OF s] assms(3) set
      first_state_ok [OF assms(2)] next_state_ok [OF assms(2)]
    by (auto simp: store_next_def split: if_splits sum.splits)
qed

end

context healthy_redis
begin

definition ready :: "('r, 'p) processor \<Rightarrow> bool" where
  "ready st \<longleftrightarrow> healthy (pc_redis st) \<and> decodable (ks (pc_redis st))"

lemma OnDelayEvent_ok: "OnDelayEvent R e now ev r = (err, r') \<Longrightarrow> healthy r \<Longrightarrow> keeps r r' \<and> healthy r'"
  by (blast intro: OnDelayEvent_frame OnDelayEvent_healthy)

lemma EvaluateDelay_ok:
  "EvaluateDelay R local now g pub ev (r, p) = (out, r', p') \<Longrightarrow> healthy r \<Longrightarrow> ks r' = ks r \<and> healthy r'"
  by (blast intro: EvaluateDelay_reads EvaluateDelay_healthy)

lemma consume_message_ready:
  assumes "consume_message h local key d st = (err, st')" "ch_rdb h = R" "plain_events (ch_unmarshal h)" "ready st"
  shows "err = None \<and> ready st' \<and> table st' = effect h local d 1 (table st)"
proof (cases "ch_unmarshal h (cm_Value (dl_Message d))")
  case None
  then show ?thesis using assms(1,4) by (auto simp: consume_message_def Let_def effect_def ready_def)
next
  case (Some ev0)
  define ev where "ev = fst (enrichEvent local (dl_now d) (ch_graph h) ev0)"
  let ?fn = "ProcessEvent R (Some (ch_graph h)) ev"
  have ok: "wf_event ev" "glob_free (ev_AgencyId ev)" "glob_free (ev_TripId ev)"
    using assms(3) Some by (auto simp: plain_events_def ev_def enrich_plain)
  have h: "healthy (pc_redis st)" and dec: "decodable (ks (pc_redis st))" using assms(4) by (simp_all add: ready_def)
  obtain e r1 where p: "?fn (pc_redis st) = (e, r1)" by fastforce
  have "ks (pc_redis st) (event_key ev) = None \<or> delays (ks (pc_redis st)) (event_key ev) \<noteq> None"
    using dec by (simp add: decodable_def event_key_def)
  then have e: "e = None" using ProcessEvent_succeeds [OF p h] by simp
  have r1: "healthy r1" "decodable (ks r1)"
    using ProcessEvent_healthy [OF p h] ProcessEvent_decodable [OF p ok(1) dec] by simp_all
  have t: "delay_table (ks r1) = apply_event (delay_route (ch_graph h) ev) ev (table st)"
    using ProcessEvent_table [OF p ok] e by simp
  have w: "withRetry (dl_cancelled d) 3 200000000 ?fn (pc_redis st) = (None, [], r1)"
    by (simp add: withRetry_def eval_nat_numeral p e)
  have spawn_redis: "pc_redis (foldl spawn s imps) = pc_redis s" for s and imps
    by (induction imps arbitrary: s) (simp_all add: spawn_def)
  have "err = None \<and> healthy (pc_redis st') \<and> same_delays (ks r1) (ks (pc_redis st'))"
    using assms(1) Some w r1(1)
    by (auto simp: consume_message_def Let_def assms(2) spawn_redis simp flip: ev_def split: prod.splits if_splits
        dest!: OnDelayEvent_ok EvaluateDelay_ok)
  then show ?thesis
    using r1(2) t Some by (auto simp: ready_def effect_def ev_def Let_def same_delays_table intro: same_delays_decodable)
qed

lemma claim_loop_ready_at:
  assumes "claim_loop h local key ds st = (err, marked, st')" "ch_rdb h = R" "plain_events (ch_unmarshal h)" "ready st"
    and "\<forall>(others, d)\<in>set ds. \<forall>s. ready s \<longrightarrow> ready (others s)"
  shows "err = None \<and> marked = map (dl_Message \<circ> snd) ds \<and> ready st'
    \<and> (\<forall>k. (\<forall>(others, d)\<in>set ds. \<forall>s. ready s \<longrightarrow> table (others s) k = table s k)
         \<longrightarrow> table st' k = effects h local (map snd ds) (replicate (length ds) 1) (table st) k)"
  using assms(1,4,5)
proof (induction ds arbitrary: st marked)
  case (Cons x ds)
  obtain others d where x: "x = (others, d)" by fastforce
  have o: "ready (others st)" using Cons.prems(2,3) by (auto simp: x)
  obtain e st1 where c: "consume_message h local key d (others st) = (e, st1)" by fastforce
  note m = consume_message_ready [OF c assms(2,3) o]
  obtain marked1 where l: "claim_loop h local key ds st1 = (err, marked1, st')" "marked = dl_Message d # marked1"
    using Cons.prems(1) m by (auto simp: x c split: prod.splits)
  have "\<forall>(others, d)\<in>set ds. \<forall>s. ready s \<longrightarrow> ready (others s)" using Cons.prems(3) by simp
  note ih = Cons.IH [OF l(1) _ this]
  have "table st' k = effects h local (map snd (x # ds)) (replicate (length (x # ds)) 1) (table st) k"
    if k: "\<forall>(others, d)\<in>set (x # ds). \<forall>s. ready s \<longrightarrow> table (others s) k = table s k" for k
  proof -
    have "table (others st) k = table st k" using k Cons.prems(2) by (simp add: x)
    then have "table st1 k = effect h local d 1 (table st) k" using m effect_local [of "table (others st)" k "table st"] by simp
    then have "effects h local (map snd ds) (replicate (length ds) 1) (table st1) k
        = effects h local (map snd ds) (replicate (length ds) 1) (effect h local d 1 (table st)) k"
      by (rule effects_local)
    then show ?thesis using ih k m by (simp add: x)
  qed
  with ih m show ?case by (simp add: x l(2))
qed simp

lemma claim_loop_ready:
  assumes "claim_loop h local key ds st = (err, marked, st')" "ch_rdb h = R" "plain_events (ch_unmarshal h)" "ready st"
    and "\<forall>(others, d)\<in>set ds. \<forall>s. ready s \<longrightarrow> ready (others s) \<and> table (others s) = table s"
  shows "err = None \<and> marked = map (dl_Message \<circ> snd) ds \<and> ready st'
    \<and> table st' = effects h local (map snd ds) (replicate (length ds) 1) (table st)"
  using claim_loop_ready_at [OF assms(1-4)] assms(5) by (fastforce simp: fun_eq_iff)

end

section \<open>The invariant of the process\<close>

definition processor_ok :: "('r \<Rightarrow> keyspace) \<Rightarrow> ('r, 'p) processor \<Rightarrow> bool" where
  "processor_ok ks st \<longleftrightarrow> length (pc_propSem st) \<le> maxConcurrentPropagations
     \<and> (\<forall>k v. mget (pc_lags st) k = Some v \<longrightarrow> 0 \<le> v) \<and> all_stored_ok (delay_table (ks (pc_redis st)))"

lemma spawn_all:
  "length (pc_propSem st) \<le> maxConcurrentPropagations \<Longrightarrow> st' = foldl spawn st imps \<Longrightarrow>
   pc_redis st' = pc_redis st \<and> pc_lags st' = pc_lags st \<and> pc_catchUp st' = pc_catchUp st
   \<and> length (pc_propSem st') \<le> maxConcurrentPropagations \<and> length (pc_propSem st) \<le> length (pc_propSem st')
   \<and> (pc_shed st' = pc_shed st \<or> length (pc_propSem st') = maxConcurrentPropagations)"
proof (induction imps arbitrary: st)
  case (Cons imp imps)
  have 1: "length (pc_propSem (spawn st imp)) \<le> maxConcurrentPropagations" using Cons.prems(1) by (simp add: spawn_def)
  have 2: "st' = foldl spawn (spawn st imp) imps" using Cons.prems(2) by simp
  from Cons.IH [OF 1 2] Cons.prems(1) show ?case by (auto simp: spawn_def split: if_splits)
qed simp

lemma partition_lag_nonneg: "0 \<le> partition_lag hwm off"
  by (simp add: partition_lag_def Let_def)

lemma consumed_state:
  "\<exists>r p imps. st\<lparr>pc_lags := L\<rparr> = foldl spawn (st\<lparr>pc_lags := L, pc_redis := r, pc_broker := p\<rparr>) imps
     \<and> (c \<longrightarrow> imps = [] \<and> p = pc_broker st)"
  "\<exists>r' p imps. st\<lparr>pc_lags := L, pc_redis := r\<rparr> = foldl spawn (st\<lparr>pc_lags := L, pc_redis := r', pc_broker := p\<rparr>) imps
     \<and> (c \<longrightarrow> imps = [] \<and> p = pc_broker st)"
  "\<not> c \<Longrightarrow> \<exists>r' p' imps'. foldl spawn (st\<lparr>pc_lags := L, pc_redis := r, pc_broker := p\<rparr>) imps
       = foldl spawn (st\<lparr>pc_lags := L, pc_redis := r', pc_broker := p'\<rparr>) imps' \<and> (c \<longrightarrow> imps' = [] \<and> p' = pc_broker st)"
  by (rule exI [of _ "pc_redis st"], rule exI [of _ "pc_broker st"], rule exI [of _ "[]"], simp)
    (rule exI [of _ r], rule exI [of _ "pc_broker st"], rule exI [of _ "[]"], simp, blast)

lemma consume_message_frame:
  assumes "consume_message h local key d st = (err, st')" "length (pc_propSem st) \<le> maxConcurrentPropagations"
  shows "length (pc_propSem st') \<le> maxConcurrentPropagations \<and> pc_catchUp st' = pc_catchUp st
    \<and> pc_lags st' = mput key (partition_lag (dl_HighWaterMark d) (cm_Offset (dl_Message d))) (pc_lags st)
    \<and> (pc_shed st' = pc_shed st \<or> length (pc_propSem st') = maxConcurrentPropagations)
    \<and> (pc_catchUp st \<longrightarrow> pc_propSem st' = pc_propSem st \<and> pc_broker st' = pc_broker st)"
proof -
  let ?L = "mput key (partition_lag (dl_HighWaterMark d) (cm_Offset (dl_Message d))) (pc_lags st)"
  have "\<exists>r p imps. st' = foldl spawn (st\<lparr>pc_lags := ?L, pc_redis := r, pc_broker := p\<rparr>) imps
      \<and> (pc_catchUp st \<longrightarrow> imps = [] \<and> p = pc_broker st)"
    using assms(1)
    by (auto simp: consume_message_def Let_def split: option.splits prod.splits if_splits intro: consumed_state)
  then obtain r p imps where st': "st' = foldl spawn (st\<lparr>pc_lags := ?L, pc_redis := r, pc_broker := p\<rparr>) imps"
    "pc_catchUp st \<Longrightarrow> imps = [] \<and> p = pc_broker st" by blast
  from spawn_all [OF _ st'(1)] show ?thesis using assms(2) st'(2) st'(1) by (cases "pc_catchUp st") auto
qed

lemma effect_stored_ok: "all_stored_ok m \<Longrightarrow> all_stored_ok (effect h local d n m)"
proof -
  assume m: "all_stored_ok m"
  have "all_stored_ok ((apply_event route ev ^^ n) m)" for route ev
    by (induction n) (simp_all add: m apply_event_stored_ok)
  then show ?thesis by (simp add: effect_def m Let_def split: option.split)
qed

context redis_client
begin

lemma processor_step_ok:
  assumes "processor_step ks h local st st'" "ch_rdb h = R" "plain_events (ch_unmarshal h)" "processor_ok ks st"
  shows "processor_ok ks st'"
  using assms(1)
proof cases
  case (message key d err)
  from consume_message_table [OF message assms(2,3)] obtain n where "table st' = effect h local d n (table st)" by blast
  then show ?thesis
    using consume_message_frame [OF message] assms(4) by (auto simp: processor_ok_def effect_stored_ok partition_lag_nonneg)
next
  case (claim_end key)
  then show ?thesis using assms(4) by (auto simp: processor_ok_def mget_mdel split: if_splits)
next
  case (propagation xs imp ys now nano st1)
  note runPropagation_frame [OF propagation(3) assms(2)]
  then show ?thesis using assms(4) propagation(1,2) by (auto simp: processor_ok_def same_delays_table)
next
  case monitor
  then show ?thesis using assms(4) by (auto simp: processor_ok_def monitor_tick_def Let_def)
next
  case (sweep now nano res r')
  then show ?thesis
    using assms(4) sweepOnce_frame [OF sweep(2) [unfolded assms(2)]] by (auto simp: processor_ok_def same_delays_table)
next
  case (stats a res r')
  then show ?thesis using assms(4) by (auto simp: processor_ok_def assms(2) dest!: reportStats_reads)
next
  case (expiry r' k)
  have "delay_table (ks r') = (table st)(k := None)"
    by (auto simp: expiry(2) delay_table_def delays_def fun_eq_iff)
  then show ?thesis using assms(4) expiry(1) by (auto simp: processor_ok_def all_stored_ok_def)
qed

lemma processor_run_ok:
  assumes "(processor_step ks h local)\<^sup>*\<^sup>* st st'" "ch_rdb h = R" "plain_events (ch_unmarshal h)" "processor_ok ks st"
  shows "processor_ok ks st'"
  using assms(1,4) by (induction rule: rtranclp_induct) (auto intro: processor_step_ok assms(2,3))

end

lemma shed_means_full:
  assumes "processor_step ks h local st st'" "length (pc_propSem st) \<le> maxConcurrentPropagations" "pc_shed st < pc_shed st'"
  shows "length (pc_propSem st') = maxConcurrentPropagations"
  using assms(1)
proof cases
  case (message key d err)
  then show ?thesis using consume_message_frame [OF message assms(2)] assms(3) by auto
next
  case (propagation xs imp ys now nano st1)
  then show ?thesis
    using assms(3) by (auto simp: runPropagation_def split: option.splits prod.splits if_splits)
qed (use assms(3) in \<open>simp_all add: monitor_tick_def Let_def split: if_splits\<close>)

section \<open>Catch-up mode\<close>

text \<open>The lags the monitor sees, and the last decisive one.\<close>

fun tick_lags :: "(('r, 'p) processor \<Rightarrow> ('r, 'p) processor) list \<Rightarrow> ('r, 'p) processor \<Rightarrow> int list" where
  "tick_lags [] st = []"
| "tick_lags (others # fs) st = i64 (sum_list (map snd (pc_lags (others st)))) # tick_lags fs (monitor_tick (others st))"

definition follows_lag :: "bool \<Rightarrow> int list \<Rightarrow> bool" where
  "follows_lag c ls = (let ds = filter (\<lambda>l. 1000 < l \<or> l < 100) ls in if ds = [] then c else 1000 < last ds)"

lemma sumLags_eq: "sumLags m = i64 (sum_list (map snd m))"
proof -
  have "foldl (\<lambda>acc (k, v). i64 (acc + v)) (i64 s) m = i64 (s + sum_list (map snd m))" for s
    by (induction m arbitrary: s) (auto simp: i64_add_left add.assoc)
  from this [of 0] show ?thesis by (simp add: sumLags_def)
qed

lemma monitor_tick_catchUp:
  "pc_catchUp (monitor_tick st) = follows_lag (pc_catchUp st) [i64 (sum_list (map snd (pc_lags st)))]"
  by (simp add: monitor_tick_def follows_lag_def sumLags_eq catchUpEnterLag_def catchUpExitLag_def Let_def)

lemma follows_lag_Cons: "follows_lag c (l # ls) = follows_lag (follows_lag c [l]) ls"
  by (simp add: follows_lag_def Let_def)

section \<open>Properties\<close>

text \<open>C2: however Redis behaves and whatever the other goroutines and the expiry of keys do before each message, a
  claim marks an initial segment of its messages in order and ends without an error exactly when it marked
  them all. Each message it handled changed the delay table it found (what the others left, \<open>fst (ds ! i)\<close>,
  of the table after the message before) by its own effect alone: one to three times if it was marked (a
  retried write may already have been applied), at most three times if it ended the claim.\<close>

theorem claim_applies_at_least_once:
  assumes "redis_client (ch_rdb h) ks" and "plain_events (ch_unmarshal h)"
    and "ConsumeClaim h local topic part ds st = (err, marked, st')"
  shows "\<exists>ns ss. marked = map (dl_Message \<circ> snd) (take (length marked) ds)
    \<and> (if err = None then length marked = length ds \<and> length ns = length ds
       else length marked < length ds \<and> length ns = Suc (length marked))
    \<and> (\<forall>n\<in>set ns. n \<le> 3) \<and> (\<forall>n\<in>set (take (length marked) ns). 1 \<le> n)
    \<and> length ss = Suc (length ns) \<and> hd ss = st
    \<and> delay_table (ks (pc_redis st')) = delay_table (ks (pc_redis (last ss)))
    \<and> (\<forall>i<length ns. delay_table (ks (pc_redis (ss ! Suc i)))
         = effect h local (snd (ds ! i)) (ns ! i) (delay_table (ks (pc_redis (fst (ds ! i) (ss ! i))))))"
proof -
  obtain st1 where c: "claim_loop h local (lag_key topic part) ds st = (err, marked, st1)"
    "st' = st1\<lparr>pc_lags := mdel (lag_key topic part) (pc_lags st1)\<rparr>"
    using assms(3) by (auto simp: ConsumeClaim_def split: prod.splits)
  from redis_client.claim_loop_table [OF assms(1) c(1) refl assms(2)] show ?thesis by (simp add: c(2))
qed

definition demo_handler :: "(mem_redis, TransferImpact list, bool) consumerHandler" where
  "demo_handler =
     \<lparr>ch_rdb = mem_client, ch_publish = (\<lambda>imp p. (True, p @ [imp])), ch_engine = demo_engine,
      ch_predPub = (\<lambda>res p. (True, p)), ch_eval = demo_evaluator, ch_graph = demo_graph,
      ch_unmarshal = (\<lambda>b. if b then Some (demo_delay ARRIVAL_DELAY ''a'' 400 100) else None)\<rparr>"

definition demo_delivery :: "int \<Rightarrow> bool \<Rightarrow> bool delivery" where
  "demo_delivery off b =
     \<lparr>dl_Message = \<lparr>cm_Offset = off, cm_Value = b\<rparr>, dl_HighWaterMark = 10, dl_now = 200, dl_cancelled = (\<lambda>_. False)\<rparr>"

definition demo_processor :: "mem_redis \<Rightarrow> (mem_redis, TransferImpact list) processor" where
  "demo_processor r =
     \<lparr>pc_redis = r, pc_broker = [], pc_catchUp = True, pc_lags = [], pc_propSem = [], pc_shed = 0, pc_seq = 0\<rparr>"

lemma demo_handler_fields [simp]:
  "ch_rdb demo_handler = mem_client" "ch_graph demo_handler = demo_graph"
  "plain_events (ch_unmarshal demo_handler)"
  using demo_delay_ok by (auto simp: demo_handler_def plain_events_def in_i32_def in_i64_def)

lemma demo_effect:
  "effect demo_handler local (demo_delivery off True) (Suc 0) m
     = apply_event ''A'' (demo_delay ARRIVAL_DELAY ''a'' 400 100) m"
  by (simp add: effect_def demo_handler_def demo_delivery_def enrichEvent_def enrichable_def demo_delay_def delay_route_def)

lemma empty_table: "delay_table (mem_ks empty_redis) = (\<lambda>_. None)"
  by (simp add: delay_table_def fun_eq_iff)

lemma demo_effects:
  "effect demo_handler local (demo_delivery off True) n m
     = (apply_event ''A'' (demo_delay ARRIVAL_DELAY ''a'' 400 100) ^^ n) m"
  by (simp add: effect_def demo_handler_def demo_delivery_def enrichEvent_def enrichable_def demo_delay_def delay_route_def)

text \<open>Before the second message the delay of the first has expired, and its first attempt fails.\<close>

definition demo_others :: "(mem_redis, TransferImpact list) processor \<Rightarrow> (mem_redis, TransferImpact list) processor" where
  "demo_others s = s\<lparr>pc_redis := \<lparr>mr_data = [], mr_fail = [True]\<rparr>\<rparr>"

lemma demo_retry:
  "\<exists>st'. ConsumeClaim demo_handler (\<lambda>_. 0) ''delay-events'' 0
       [(id, demo_delivery 8 True), (demo_others, demo_delivery 9 True)] (demo_processor empty_redis)
     = (None, [\<lparr>cm_Offset = 8, cm_Value = True\<rparr>, \<lparr>cm_Offset = 9, cm_Value = True\<rparr>], st')"
proof -
  let ?c = "ConsumeClaim demo_handler (\<lambda>_. 0) ''delay-events'' 0
       [(id, demo_delivery 8 True), (demo_others, demo_delivery 9 True)] (demo_processor empty_redis)"
  have "fst ?c = None" "fst (snd ?c) = [\<lparr>cm_Offset = 8, cm_Value = True\<rparr>, \<lparr>cm_Offset = 9, cm_Value = True\<rparr>]" by code_simp+
  then show ?thesis by (metis prod.collapse)
qed

theorem claim_applies_at_least_once_witness:
  "\<exists>st' n. ConsumeClaim demo_handler (\<lambda>_. 0) ''delay-events'' 0
       [(id, demo_delivery 8 True), (demo_others, demo_delivery 9 True)] (demo_processor empty_redis)
       = (None, [\<lparr>cm_Offset = 8, cm_Value = True\<rparr>, \<lparr>cm_Offset = 9, cm_Value = True\<rparr>], st')
     \<and> fst (ProcessEvent mem_client (Some demo_graph) (demo_delay ARRIVAL_DELAY ''a'' 400 100)
             (pc_redis (demo_others (demo_processor empty_redis)))) \<noteq> None
     \<and> n \<in> {1, 2, 3}
     \<and> delay_table (mem_ks (pc_redis st')) = (apply_event ''A'' (demo_delay ARRIVAL_DELAY ''a'' 400 100) ^^ n) (\<lambda>_. None)"
proof -
  let ?ds = "[(id, demo_delivery 8 True), (demo_others, demo_delivery 9 True)]"
  let ?ms = "[\<lparr>cm_Offset = 8, cm_Value = True\<rparr>, \<lparr>cm_Offset = 9, cm_Value = True\<rparr>]"
  from demo_retry obtain st' where c: "ConsumeClaim demo_handler (\<lambda>_. 0) ''delay-events'' 0 ?ds
      (demo_processor empty_redis) = (None, ?ms, st')" by blast
  have R: "redis_client (ch_rdb demo_handler) mem_ks" by (simp add: mem.redis_client_axioms)
  from claim_applies_at_least_once [OF R demo_handler_fields(3) c, simplified if_P [OF refl]] obtain ns ss where
    l: "length ns = length ?ds" "length ss = Suc (length ns)" and
    n: "\<forall>n\<in>set ns. n \<le> 3" "\<forall>n\<in>set (take (length ?ms) ns). 1 \<le> n" and
    t: "delay_table (mem_ks (pc_redis st')) = delay_table (mem_ks (pc_redis (last ss)))"
      "\<forall>i<length ns. delay_table (mem_ks (pc_redis (ss ! Suc i)))
         = effect demo_handler (\<lambda>_. 0) (snd (?ds ! i)) (ns ! i) (delay_table (mem_ks (pc_redis (fst (?ds ! i) (ss ! i)))))"
    by (elim exE conjE) (rule that)
  have "last ss = ss ! Suc 1" using l by (subst last_conv_nth) auto
  then have "delay_table (mem_ks (pc_redis st'))
      = effect demo_handler (\<lambda>_. 0) (demo_delivery 9 True) (ns ! 1) (delay_table (mem_ks (pc_redis (demo_others (ss ! 1)))))"
    using t l by simp
  moreover have "delay_table (mem_ks (pc_redis (demo_others s))) = (\<lambda>_. None)" for s
    by (simp add: demo_others_def mem_ks_def delay_table_def delays_def fun_eq_iff)
  moreover have "1 \<le> ns ! 1" "ns ! 1 \<le> 3" using n l by auto
  moreover have "fst (ProcessEvent mem_client (Some demo_graph) (demo_delay ARRIVAL_DELAY ''a'' 400 100)
      (pc_redis (demo_others (demo_processor empty_redis)))) \<noteq> None" by code_simp
  ultimately show ?thesis using c by (intro exI [of _ st'] exI [of _ "ns ! 1"]) (auto simp: demo_effects)
qed

text \<open>C9: on a healthy connection whose delay documents can be read, and while the other goroutines keep
  it so, a claim handles every message: none is left unmarked, each takes effect on the delay table exactly
  once, and the claim ends when its channel closes, not with an error.\<close>

theorem healthy_claim_completes:
  assumes "healthy_redis (ch_rdb h) ks healthy" and "plain_events (ch_unmarshal h)"
    and "healthy (pc_redis st)" and "decodable (ks (pc_redis st))"
    and "\<forall>(others, d)\<in>set ds. \<forall>s. healthy (pc_redis s) \<longrightarrow>
      healthy (pc_redis (others s)) \<and> same_delays (ks (pc_redis s)) (ks (pc_redis (others s)))"
    and "ConsumeClaim h local topic part ds st = (err, marked, st')"
  shows "err = None \<and> marked = map (dl_Message \<circ> snd) ds \<and> mget (pc_lags st') (lag_key topic part) = None
    \<and> delay_table (ks (pc_redis st'))
        = effects h local (map snd ds) (replicate (length ds) 1) (delay_table (ks (pc_redis st)))"
proof -
  obtain st1 where c: "claim_loop h local (lag_key topic part) ds st = (err, marked, st1)"
    "st' = st1\<lparr>pc_lags := mdel (lag_key topic part) (pc_lags st1)\<rparr>"
    using assms(6) by (auto simp: ConsumeClaim_def split: prod.splits)
  note ready = healthy_redis.ready_def [OF assms(1)]
  have "healthy_redis.ready ks healthy st" using assms(3,4) by (simp add: ready)
  moreover have "\<forall>(others, d)\<in>set ds. \<forall>s. healthy_redis.ready ks healthy s \<longrightarrow>
      healthy_redis.ready ks healthy (others s)
      \<and> delay_table (ks (pc_redis (others s))) = delay_table (ks (pc_redis s))"
    using assms(5) by (auto simp: ready same_delays_table intro: same_delays_decodable dest!: bspec)
  ultimately show ?thesis
    using healthy_redis.claim_loop_ready [OF assms(1) c(1) refl assms(2)] by (simp add: c(2))
qed

theorem healthy_claim_completes_witness:
  "\<exists>st'. ConsumeClaim demo_handler (\<lambda>_. 0) ''delay-events'' 0
       [(id, demo_delivery 8 False), (id, demo_delivery 9 True)] (demo_processor empty_redis)
     = (None, [\<lparr>cm_Offset = 8, cm_Value = False\<rparr>, \<lparr>cm_Offset = 9, cm_Value = True\<rparr>], st')
     \<and> delay_table (mem_ks (pc_redis st')) ''delay:MTA:W_1:a''
         = Some (first_state ''A'' (demo_delay ARRIVAL_DELAY ''a'' 400 100))"
proof -
  let ?ds = "[(id, demo_delivery 8 False), (id, demo_delivery 9 True)]"
  obtain err marked st' where c: "ConsumeClaim demo_handler (\<lambda>_. 0) ''delay-events'' 0 ?ds
       (demo_processor empty_redis) = (err, marked, st')" by (metis prod.exhaust)
  have "mem_healthy (pc_redis (demo_processor empty_redis))"
    by (simp add: demo_processor_def mem_healthy_def empty_redis_def)
  moreover have "decodable (mem_ks (pc_redis (demo_processor empty_redis)))"
    by (simp add: demo_processor_def decodable_def empty_redis_def mem_ks_def)
  ultimately have r: "err = None \<and> marked = map (dl_Message \<circ> snd) ?ds
    \<and> delay_table (mem_ks (pc_redis st')) = effects demo_handler (\<lambda>_. 0) (map snd ?ds) [1, 1]
        (delay_table (mem_ks (pc_redis (demo_processor empty_redis))))"
    using healthy_claim_completes [OF _ _ _ _ _ c, of mem_ks mem_healthy] mem.healthy_redis_axioms by auto
  have "effect demo_handler (\<lambda>_. 0) (demo_delivery 8 False) (Suc 0) m = m" for m
    by (simp add: effect_def demo_handler_def demo_delivery_def)
  with r have "delay_table (mem_ks (pc_redis st')) = apply_event ''A'' (demo_delay ARRIVAL_DELAY ''a'' 400 100) (\<lambda>_. None)"
    by (simp add: demo_effect demo_processor_def empty_table)
  then have "delay_table (mem_ks (pc_redis st')) ''delay:MTA:W_1:a''
      = Some (first_state ''A'' (demo_delay ARRIVAL_DELAY ''a'' 400 100))"
    by (simp add: apply_event_def demo_delay_def event_key_def delayKey_def)
  moreover have "err = None" "marked = [\<lparr>cm_Offset = 8, cm_Value = False\<rparr>, \<lparr>cm_Offset = 9, cm_Value = True\<rparr>]"
    using conjunct1 [OF r] conjunct1 [OF conjunct2 [OF r]] by (simp_all add: demo_delivery_def)
  ultimately show ?thesis using c by blast
qed

text \<open>C10: in every interleaving of claims, finished propagations, monitor ticks, sweeps, statistics and
  expiring keys, from a process that just started, at most 32 propagations are in flight, no lag is
  negative, every stored delay has a confidence in [0.5, 1] and sits under its own key; and an impact is
  only shed when 32 propagations are running.\<close>

theorem processor_invariant:
  assumes "redis_client (ch_rdb h) ks" and "plain_events (ch_unmarshal h)"
    and "pc_propSem st0 = []" and "pc_lags st0 = []" and "delay_table (ks (pc_redis st0)) = (\<lambda>_. None)"
    and "(processor_step ks h local)\<^sup>*\<^sup>* st0 st"
  shows "length (pc_propSem st) \<le> 32 \<and> (\<forall>k v. mget (pc_lags st) k = Some v \<longrightarrow> 0 \<le> v)
    \<and> (\<forall>k ds. delay_table (ks (pc_redis st)) k = Some ds \<longrightarrow> stored_ok k ds)
    \<and> (\<forall>st'. processor_step ks h local st st' \<longrightarrow> pc_shed st < pc_shed st' \<longrightarrow> length (pc_propSem st') = 32)"
proof -
  have "processor_ok ks st0" by (simp add: processor_ok_def assms(3-5) all_stored_ok_def)
  from redis_client.processor_run_ok [OF assms(1,6) refl assms(2) this] have ok: "processor_ok ks st" .
  then show ?thesis
    using shed_means_full [of ks h local st] by (auto simp: processor_ok_def all_stored_ok_def maxConcurrentPropagations_def)
qed

theorem processor_invariant_witness:
  "\<exists>st. (processor_step mem_ks demo_handler (\<lambda>_. 0))\<^sup>*\<^sup>* (demo_processor empty_redis) st
     \<and> delay_table (mem_ks (pc_redis st)) ''delay:MTA:W_1:a'' \<noteq> None \<and> length (pc_propSem st) \<le> 32"
proof -
  let ?st0 = "demo_processor empty_redis"
  obtain err st where c: "consume_message demo_handler (\<lambda>_. 0) ''t/0'' (demo_delivery 9 True) ?st0 = (err, st)" by fastforce
  have run: "(processor_step mem_ks demo_handler (\<lambda>_. 0))\<^sup>*\<^sup>* ?st0 st"
    using processor_step.message [OF c] by blast
  have "healthy_redis.ready mem_ks mem_healthy ?st0"
    by (simp add: mem.ready_def demo_processor_def mem_healthy_def decodable_def empty_redis_def mem_ks_def)
  from mem.consume_message_ready [OF c _ _ this]
  have "delay_table (mem_ks (pc_redis st)) = apply_event ''A'' (demo_delay ARRIVAL_DELAY ''a'' 400 100) (\<lambda>_. None)"
    by (simp add: demo_effect demo_processor_def empty_table)
  moreover have "length (pc_propSem st) \<le> 32"
    using processor_invariant [OF _ _ _ _ _ run] mem.redis_client_axioms by (simp add: demo_processor_def empty_table)
  ultimately show ?thesis
    using run by (intro exI [of _ st]) (simp add: apply_event_def demo_delay_def event_key_def delayKey_def)
qed

text \<open>Catch-up mode has hysteresis. After any number of monitor ticks it is on exactly when the last
  tick that saw a total lag above 1000 or below 100 saw one above 1000 (with no such tick it is as it was);
  the total is the sum over the partitions, as an \<open>int64\<close>, in whatever order the map is visited.\<close>

theorem catch_up_hysteresis:
  assumes "\<forall>others\<in>set fs. \<forall>s. pc_catchUp (others s) = pc_catchUp s"
  shows "pc_catchUp (monitorLag (map Some fs) st) = follows_lag (pc_catchUp st) (tick_lags fs st)"
  using assms
proof (induction fs arbitrary: st)
  case Nil
  then show ?case by (simp add: follows_lag_def)
next
  case (Cons others fs)
  then show ?case by (simp add: follows_lag_Cons [of _ _ "tick_lags _ _"] monitor_tick_catchUp)
qed

theorem catch_up_hysteresis_witness:
  "pc_catchUp (monitorLag (map Some [\<lambda>s. s\<lparr>pc_lags := [(''t/0'', 50)]\<rparr>,
       \<lambda>s. s\<lparr>pc_lags := [(''t/0'', 600), (''t/1'', 500)]\<rparr>, \<lambda>s. s\<lparr>pc_lags := [(''t/0'', 100)]\<rparr>])
     (demo_processor empty_redis))"
  by (subst catch_up_hysteresis) (simp_all add: follows_lag_def monitor_tick_def i64_def)

text \<open>C40: \<open>withRetry\<close> calls the function until its first success, at most \<open>attempts\<close> times, and returns the
  outcome of the last call; it gives up early only when the session is done, and it waits between calls for
  the base delay, doubled each time.\<close>

theorem retry_until_success:
  assumes "0 < attempts" and "in_i64 base" and "withRetry cancelled attempts base fn s = (err, waits, s')"
  shows "\<exists>k<nat attempts. s' = after fn (Suc k) s \<and> err = fst (fn (after fn k s))
    \<and> (\<forall>j<k. fst (fn (after fn j s)) \<noteq> None \<and> \<not> cancelled j)
    \<and> (err \<noteq> None \<longrightarrow> Suc k = nat attempts \<or> cancelled k)
    \<and> waits = map (\<lambda>j. i64 (base * 2 ^ j)) [0..<k]"
proof -
  obtain n where n: "nat attempts = Suc n" using assms(1) by (cases "nat attempts") auto
  from retry_loop_spec [OF assms(3) [unfolded withRetry_def n] assms(2)] show ?thesis
    by (auto simp: n less_Suc_eq_le)
qed

theorem retry_until_success_witness:
  "withRetry (\<lambda>_. False) 3 200000000 (\<lambda>n. (if n < (1 :: nat) then Some RedisErr else None, Suc n)) 0
     = (None, [200000000], 2)
   \<and> (\<exists>k<3. (2 :: nat) = after (\<lambda>n. (if n < 1 then Some RedisErr else None, Suc n)) (Suc k) 0)"
proof -
  have w: "withRetry (\<lambda>_. False) 3 200000000 (\<lambda>n. (if n < (1 :: nat) then Some RedisErr else None, Suc n)) 0
     = (None, [200000000], 2)"
    by (simp add: withRetry_def eval_nat_numeral)
  from retry_until_success [OF _ _ w] show ?thesis unfolding w by (auto simp: in_i64_def)
qed

end
