(* ===== verification/Server.thy ===== *)
theory Server
  imports PropagationProps "HOL-Library.Sublist"
begin

text \<open>
  \<open>internal/server/handlers.go\<close> and \<open>internal/server/alerts.go\<close>: the gRPC handlers and the fan-out of
  alerts. A request is its fields; a handler's result is an error or the response. A subscriber's channel is
  its buffer in the broker's map: the handler that reads it drops it as it returns. The Kafka client,
  \<open>stream.Send\<close> and the choices of \<open>select\<close> are arguments; metrics and log lines are left out.
\<close>

section \<open>Messages of the service\<close>

record StopDelay =
  sp_StopId :: string
  sp_StopName :: string
  sp_DelaySeconds :: int32
  sp_Confidence :: float32

record RouteState =
  rs_RouteId :: string
  rs_Delays :: "StopDelay list"

record NetworkStateResponse =
  nr_Routes :: "(string, RouteState) gomap"
  nr_AsOf :: int64

record TransferStats =
  tr_FromRouteId :: string
  tr_ToRouteId :: string
  tr_StationId :: string
  tr_ReliabilityPct :: float32
  tr_AvgDelayWhenBroken :: float32
  tr_SampleCount :: int32

section \<open>Handlers\<close>

record TransitService =
  sv_graph :: TransitGraph
  sv_engine :: PropagationEngine
  sv_agencyID :: string

definition stop_delay :: "string \<Rightarrow> DelayState \<Rightarrow> StopDelay" where
  "stop_delay stopName d =
     \<lparr>sp_StopId = sd_StopID d, sp_StopName = stopName, sp_DelaySeconds = sd_DelaySeconds d,
      sp_Confidence = f32 (sd_Confidence d)\<rparr>"

definition network_stop_name :: "TransitGraph \<Rightarrow> string \<Rightarrow> string" where
  "network_stop_name g stopID =
     (case mget (Stops g) stopID of
        Some stop \<Rightarrow> st_Name stop
      | None \<Rightarrow>
          (case mget (Stops g) (ParentStationID g stopID) of Some stop \<Rightarrow> st_Name stop | None \<Rightarrow> stopID))"

definition add_route_delay :: "TransitGraph \<Rightarrow> (string, RouteState) gomap \<Rightarrow> DelayState \<Rightarrow> (string, RouteState) gomap" where
  "add_route_delay g byRoute d =
     (let rs = (case mget byRoute (sd_RouteID d) of None \<Rightarrow> \<lparr>rs_RouteId = sd_RouteID d, rs_Delays = []\<rparr> | Some rs \<Rightarrow> rs)
      in mput (sd_RouteID d)
           (rs\<lparr>rs_Delays := rs_Delays rs @ [stop_delay (network_stop_name g (sd_StopID d)) d]\<rparr>) byRoute)"

definition GetNetworkState ::
  "'r RedisClient \<Rightarrow> TransitService \<Rightarrow> int64 \<Rightarrow> 'r \<Rightarrow> (state_error + NetworkStateResponse) \<times> 'r" where
  "GetNetworkState R s now r =
     (case GetAllActiveDelays R (sv_agencyID s) r of
        (Inl e, r1) \<Rightarrow> (Inl e, r1)
      | (Inr found, r1) \<Rightarrow>
          (Inr \<lparr>nr_Routes = foldl (add_route_delay (sv_graph s)) [] found, nr_AsOf = now\<rparr>, r1))"

definition route_stop_name :: "TransitGraph \<Rightarrow> string \<Rightarrow> string" where
  "route_stop_name g stopID = (case mget (Stops g) stopID of Some stop \<Rightarrow> st_Name stop | None \<Rightarrow> stopID)"

definition GetRouteDelays_rpc ::
  "'r RedisClient \<Rightarrow> TransitService \<Rightarrow> string \<Rightarrow> 'r \<Rightarrow> (state_error + StopDelay list) \<times> 'r" where
  "GetRouteDelays_rpc R s routeID r =
     (case GetRouteDelays R (sv_agencyID s) routeID r of
        (Inl e, r1) \<Rightarrow> (Inl e, r1)
      | (Inr found, r1) \<Rightarrow> (Inr (map (\<lambda>d. stop_delay (route_stop_name (sv_graph s) (sd_StopID d)) d) found), r1))"

definition syntheticDetectedAt :: "int64 \<Rightarrow> int64 \<Rightarrow> int64" where
  "syntheticDetectedAt now observedAt = (if observedAt > 0 then observedAt else now)"

text \<open>The impact of a delayed train on its own line; every other field has its zero value.\<close>

definition self_impact :: "int64 \<Rightarrow> string \<Rightarrow> string \<Rightarrow> string \<Rightarrow> DelayState \<Rightarrow> TransferImpact" where
  "self_impact now tripID routeID stationID d =
     \<lparr>ti_FromTripId = tripID, ti_FromRouteId = routeID, ti_ToRouteId = routeID, ti_StationId = stationID,
      ti_SourceDelaySeconds = sd_DelaySeconds d, ti_OriginalTransferMarginSeconds = 0,
      ti_RemainingMarginSeconds = 0, ti_Level = AT_RISK, ti_DetectedAt = syntheticDetectedAt now (sd_ObservedAt d),
      ti_NextViableTripId = tripID, ti_AdditionalWaitSeconds = 0, ti_SchedConnectionDepartureSecs = 0,
      ti_EarliestCatchSecs = 0\<rparr>"

text \<open>\<open>None\<close> would be a propagation that never ends.\<close>

definition PredictImpact ::
  "'r RedisClient \<Rightarrow> location \<Rightarrow> TransitService \<Rightarrow> int64 \<Rightarrow> string \<Rightarrow> string \<Rightarrow> 'r
   \<Rightarrow> ((state_error + PropagationResult) \<times> 'r) option" where
  "PredictImpact R local s now tripID stopID r =
     (let parentID = ParentStationID (sv_graph s) stopID
      in case GetDelay R (sv_agencyID s) tripID stopID r of
           (Inl e, r1) \<Rightarrow> Some (Inl e, r1)
         | (Inr None, r1) \<Rightarrow>
             Some (Inr \<lparr>pr_SourceTripId = tripID, pr_SourceStopId = parentID, pr_SourceDelaySeconds = 0,
                        pr_Impacts = [], pr_ComputedAt = now\<rparr>, r1)
         | (Inr (Some d), r1) \<Rightarrow>
             (case Propagate R local (sv_engine s) now
                     (self_impact now tripID (mgetd [] (TripRoute (sv_graph s)) tripID) parentID d) r1 of
                None \<Rightarrow> None
              | Some (result, r2) \<Rightarrow> Some (Inr result, r2)))"

text \<open>\<open>GetBlastRadius\<close>: the delays of one route, and the routes in the order the map is visited.\<close>

fun blast_delays ::
  "'r RedisClient \<Rightarrow> location \<Rightarrow> TransitService \<Rightarrow> int64 \<Rightarrow> string \<Rightarrow> string \<Rightarrow> DelayState list
   \<Rightarrow> PropagationResult list \<Rightarrow> 'r \<Rightarrow> (PropagationResult list \<times> 'r) option" where
  "blast_delays R local s now stationID routeID [] out r = Some (out, r)"
| "blast_delays R local s now stationID routeID (d # ds) out r =
     (if ParentStationID (sv_graph s) (sd_StopID d) \<noteq> stationID
      then blast_delays R local s now stationID routeID ds out r
      else (case Propagate R local (sv_engine s) now (self_impact now (sd_TripID d) routeID stationID d) r of
              None \<Rightarrow> None
            | Some (result, r1) \<Rightarrow>
                blast_delays R local s now stationID routeID ds
                  (if pr_Impacts result = [] then out else out @ [result]) r1))"

fun blast_routes ::
  "'r RedisClient \<Rightarrow> location \<Rightarrow> TransitService \<Rightarrow> int64 \<Rightarrow> string \<Rightarrow> string list
   \<Rightarrow> PropagationResult list \<Rightarrow> 'r \<Rightarrow> (PropagationResult list \<times> 'r) option" where
  "blast_routes R local s now stationID [] out r = Some (out, r)"
| "blast_routes R local s now stationID (routeID # routes) out r =
     (case GetRouteDelays R (sv_agencyID s) routeID r of
        (Inl e, r1) \<Rightarrow> blast_routes R local s now stationID routes out r1
      | (Inr found, r1) \<Rightarrow>
          (case blast_delays R local s now stationID routeID found out r1 of
             None \<Rightarrow> None
           | Some (out1, r2) \<Rightarrow> blast_routes R local s now stationID routes out1 r2))"

definition GetBlastRadius ::
  "'r RedisClient \<Rightarrow> location \<Rightarrow> TransitService \<Rightarrow> int64 \<Rightarrow> string \<Rightarrow> 'r \<Rightarrow> (PropagationResult list \<times> 'r) option" where
  "GetBlastRadius R local s now station r =
     (let stationID = ParentStationID (sv_graph s) station
      in blast_routes R local s now stationID (map fst (GetRoutesAtStop (sv_graph s) stationID)) [] r)"

definition transfer_stats_message :: "TransferStat \<Rightarrow> TransferStats" where
  "transfer_stats_message st =
     \<lparr>tr_FromRouteId = ts_FromRouteID st, tr_ToRouteId = ts_ToRouteID st, tr_StationId = ts_StationID st,
      tr_ReliabilityPct = 0,
      tr_AvgDelayWhenBroken = f32 (ts_AvgDelayWhenBroken st), tr_SampleCount = i32 (ts_SampleCount st)\<rparr>"

definition GetTransferReliability ::
  "'r RedisClient \<Rightarrow> TransitService \<Rightarrow> int64 \<Rightarrow> string \<Rightarrow> int32 \<Rightarrow> 'r \<Rightarrow> (redis_error + TransferStats list) \<times> 'r" where
  "GetTransferReliability R s now station hour r =
     (case GetTransferStats R (ParentStationID (sv_graph s) station) hour now r of
        ((stats, Some e), r1) \<Rightarrow> (Inl e, r1)
      | ((stats, None), r1) \<Rightarrow> (Inr (map transfer_stats_message stats), r1))"

section \<open>Alerts\<close>

record channel =
  ch_cap :: nat
  ch_buf :: "TransferImpact list"

record AlertBroker =
  ab_subs :: "(int, channel) gomap"
  ab_nextID :: int

definition NewAlertBroker :: AlertBroker where
  "NewAlertBroker = \<lparr>ab_subs = [], ab_nextID = 0\<rparr>"

definition Subscribe :: "nat \<Rightarrow> AlertBroker \<Rightarrow> int \<times> AlertBroker" where
  "Subscribe bufSize b =
     (let i = ab_nextID b
      in (i, b\<lparr>ab_nextID := (i + 1) mod 18446744073709551616, ab_subs := mput i \<lparr>ch_cap = bufSize, ch_buf = []\<rparr> (ab_subs b)\<rparr>))"

definition unsub :: "int \<Rightarrow> AlertBroker \<Rightarrow> AlertBroker" where
  "unsub i b = b\<lparr>ab_subs := mdel i (ab_subs b)\<rparr>"

text \<open>The non-blocking send, and the receive of a subscriber.\<close>

definition try_send :: "TransferImpact \<Rightarrow> channel \<Rightarrow> channel" where
  "try_send impact ch = (if length (ch_buf ch) < ch_cap ch then ch\<lparr>ch_buf := ch_buf ch @ [impact]\<rparr> else ch)"

definition AlertBroker_Publish :: "TransferImpact \<Rightarrow> AlertBroker \<Rightarrow> AlertBroker" where
  "AlertBroker_Publish impact b = b\<lparr>ab_subs := map (\<lambda>(i, ch). (i, try_send impact ch)) (ab_subs b)\<rparr>"

definition receive :: "int \<Rightarrow> AlertBroker \<Rightarrow> (TransferImpact \<times> AlertBroker) option" where
  "receive i b =
     (case mget (ab_subs b) i of
        None \<Rightarrow> None
      | Some ch \<Rightarrow>
          (case ch_buf ch of
             [] \<Rightarrow> None
           | impact # rest \<Rightarrow> Some (impact, b\<lparr>ab_subs := mput i (ch\<lparr>ch_buf := rest\<rparr>) (ab_subs b)\<rparr>)))"

definition str_set :: "string list \<Rightarrow> (string, bool) gomap" where
  "str_set xs = foldl (\<lambda>m x. mput x True m) [] xs"

definition matchesFilter :: "TransferImpact \<Rightarrow> (string, bool) gomap \<Rightarrow> (string, bool) gomap \<Rightarrow> bool" where
  "matchesFilter impact routes stations =
     (if length routes > 0 \<and> (mgetd False routes (ti_FromRouteId impact) \<or> mgetd False routes (ti_ToRouteId impact))
      then True
      else if length stations > 0 \<and> mgetd False stations (ti_StationId impact) then True
      else False)"

text \<open>The loop of \<open>StreamAlerts\<close> over what its \<open>select\<close> yields: \<open>None\<close> when the client is gone, or a
  received impact; \<open>client\<close> is the stream.\<close>

fun stream_loop ::
  "(TransferImpact \<Rightarrow> 's \<Rightarrow> bool \<times> 's) \<Rightarrow> (TransferImpact \<Rightarrow> bool) \<Rightarrow> TransferImpact option list \<Rightarrow> 's \<Rightarrow> 's" where
  "stream_loop Send wanted [] client = client"
| "stream_loop Send wanted (None # cs) client = client"
| "stream_loop Send wanted (Some impact # cs) client =
     (if \<not> wanted impact then stream_loop Send wanted cs client
      else (case Send impact client of
              (ok, client1) \<Rightarrow> if ok then stream_loop Send wanted cs client1 else client1))"

definition alert_wanted :: "string list \<Rightarrow> string list \<Rightarrow> TransferImpact \<Rightarrow> bool" where
  "alert_wanted routeIDs stationIDs impact =
     (let routeFilter = str_set routeIDs; stationFilter = str_set stationIDs;
          hasFilter = (length routeFilter > 0 \<or> length stationFilter > 0)
      in \<not> (hasFilter \<and> \<not> matchesFilter impact routeFilter stationFilter))"

definition StreamAlerts_subscribe :: "AlertBroker \<Rightarrow> int \<times> AlertBroker" where
  "StreamAlerts_subscribe b = Subscribe 64 b"

definition StreamAlerts ::
  "(TransferImpact \<Rightarrow> 's \<Rightarrow> bool \<times> 's) \<Rightarrow> string list \<Rightarrow> string list \<Rightarrow> TransferImpact option list \<Rightarrow> 's \<Rightarrow> 's" where
  "StreamAlerts Send routeIDs stationIDs cases client = stream_loop Send (alert_wanted routeIDs stationIDs) cases client"

section \<open>The Kafka consumer of the broker\<close>

definition alertRetryBase :: int64 where "alertRetryBase = 5000000000"
definition alertRetryMax :: int64 where "alertRetryMax = 60000000000"

text \<open>What a partition consumer yields until the context is done or the channel closes (\<open>None\<close>).\<close>

datatype 'b partition_event = PartitionError | Message 'b

fun partition_loop ::
  "('b \<Rightarrow> TransferImpact option) \<Rightarrow> 'b partition_event option list \<Rightarrow> AlertBroker \<Rightarrow> AlertBroker" where
  "partition_loop unmarshal [] b = b"
| "partition_loop unmarshal (None # es) b = b"
| "partition_loop unmarshal (Some PartitionError # es) b = partition_loop unmarshal es b"
| "partition_loop unmarshal (Some (Message v) # es) b =
     (case unmarshal v of
        None \<Rightarrow> partition_loop unmarshal es b
      | Some impact \<Rightarrow> partition_loop unmarshal es (AlertBroker_Publish impact b))"

datatype consume_error = NoClient | NoPartitionList | NoPartition

text \<open>\<open>consumeOnce\<close> up to the wait for the context: the partitions it reads, or the error.\<close>

definition consumeOnce :: "bool \<Rightarrow> 'q list option \<Rightarrow> ('q \<Rightarrow> bool) \<Rightarrow> consume_error + 'q list" where
  "consumeOnce client_ok partitions can_consume =
     (if \<not> client_ok then Inl NoClient
      else (case partitions of
              None \<Rightarrow> Inl NoPartitionList
            | Some ps \<Rightarrow>
                let started = filter can_consume ps
                in if started = [] then Inl NoPartition else Inr started))"

text \<open>\<open>RunKafkaConsumer\<close>: per session, whether the context is done after it and during the wait that
  follows. The result lists the waits.\<close>

fun run_consumer_loop :: "int64 \<Rightarrow> (bool \<times> bool) list \<Rightarrow> int64 list" where
  "run_consumer_loop backoff [] = []"
| "run_consumer_loop backoff ((done_after, done_waiting) # ss) =
     (if done_after then []
      else if done_waiting then [backoff]
      else let backoff1 = i64 (backoff * 2)
           in backoff # run_consumer_loop (if backoff1 > alertRetryMax then alertRetryMax else backoff1) ss)"

definition RunKafkaConsumer :: "(bool \<times> bool) list \<Rightarrow> int64 list" where
  "RunKafkaConsumer ss = run_consumer_loop alertRetryBase ss"

section \<open>The broker's transitions\<close>

text \<open>Subscribing and unsubscribing hold the broker's mutex, a receive is one channel operation. \<open>Publish\<close> holds
  the read lock only, so two publications may reach two subscribers in different orders; one subscriber's
  channel takes them one by one, and what it sees is that of a sequence of these steps.\<close>

datatype alert_label = Subscribed int | Unsubscribed int | Published TransferImpact | Received int TransferImpact

inductive alert_step :: "AlertBroker \<Rightarrow> alert_label \<Rightarrow> AlertBroker \<Rightarrow> bool" where
  subscribe: "Subscribe bufSize b = (i, b') \<Longrightarrow> alert_step b (Subscribed i) b'"
| unsubscribe: "alert_step b (Unsubscribed i) (unsub i b)"
| publish: "alert_step b (Published impact) (AlertBroker_Publish impact b)"
| receive: "receive i b = Some (impact, b') \<Longrightarrow> alert_step b (Received i impact) b'"

inductive_cases subscribedE: "alert_step b (Subscribed i) b'"
inductive_cases unsubscribedE: "alert_step b (Unsubscribed i) b'"
inductive_cases publishedE: "alert_step b (Published impact) b'"
inductive_cases receivedE: "alert_step b (Received i impact) b'"

lemmas alert_stepE = subscribedE unsubscribedE publishedE receivedE

inductive alert_run :: "AlertBroker \<Rightarrow> alert_label list \<Rightarrow> AlertBroker \<Rightarrow> bool" where
  none: "alert_run b [] b"
| more: "alert_run b ls b' \<Longrightarrow> alert_step b' l b'' \<Longrightarrow> alert_run b (ls @ [l]) b''"

end
