(* ===== verification/ServerProps.thy ===== *)
theory ServerProps
  imports Server Frames
begin

text \<open>
  What the server answers: the network state is the active part of the delay table by route, a prediction
  always ends and is empty for a train without a delay, a blast radius collects the cascades of the delays
  at the station, and an alert subscriber sees the published impacts in order, without duplicates, dropping
  some only when its own buffer is full.
\<close>

section \<open>Network state\<close>

lemma network_fold:
  "mget (foldl (add_route_delay g) m found) route =
     (case (mget m route, filter (\<lambda>d. sd_RouteID d = route) found) of
        (None, []) \<Rightarrow> None
      | (None, ds) \<Rightarrow> Some \<lparr>rs_RouteId = route, rs_Delays = map (\<lambda>d. stop_delay (network_stop_name g (sd_StopID d)) d) ds\<rparr>
      | (Some rs, ds) \<Rightarrow> Some (rs\<lparr>rs_Delays := rs_Delays rs @ map (\<lambda>d. stop_delay (network_stop_name g (sd_StopID d)) d) ds\<rparr>))"
  by (induction found arbitrary: m)
    (auto simp: add_route_delay_def Let_def split: option.splits list.splits)

text \<open>On a healthy connection the network state lists every stored delay above a minute (in magnitude)
  exactly once under its own route, with the name of its stop, and no other route; nothing else is listed.\<close>

theorem network_state_by_route:
  assumes "healthy_redis R ks healthy" and "healthy r" and "glob_free (sv_agencyID s)"
    and "GetNetworkState R s now r = (res, r')"
  shows "\<exists>found routes. res = Inr \<lparr>nr_Routes = routes, nr_AsOf = now\<rparr>
    \<and> set found = {ds. (\<exists>rest. delays (ks r) (''delay:'' @ sv_agencyID s @ '':'' @ rest) = Some ds)
                       \<and> 60 < abs32 (sd_DelaySeconds ds)}
    \<and> (\<forall>route. mget routes route =
         (let ds = filter (\<lambda>d. sd_RouteID d = route) found
          in if ds = [] then None
             else Some \<lparr>rs_RouteId = route,
                        rs_Delays = map (\<lambda>d. stop_delay (network_stop_name (sv_graph s) (sd_StopID d)) d) ds\<rparr>))"
proof -
  obtain res1 r1 where a: "GetAllActiveDelays R (sv_agencyID s) r = (res1, r1)" by fastforce
  from healthy_redis.scan_states_exact [OF assms(1) a [unfolded GetAllActiveDelays_def] assms(2,3)]
  obtain found where found: "res1 = Inr found" "set found = {ds. activeDelayThreshold < abs32 (sd_DelaySeconds ds)
      \<and> (\<exists>k rest. k = ''delay:'' @ sv_agencyID s @ '':'' @ rest \<and> delays (ks r) k = Some ds)}" by blast
  have "set found = {ds. (\<exists>rest. delays (ks r) (''delay:'' @ sv_agencyID s @ '':'' @ rest) = Some ds)
                       \<and> 60 < abs32 (sd_DelaySeconds ds)}"
    unfolding found(2) by (auto simp: activeDelayThreshold_def)
  moreover have "mget (foldl (add_route_delay (sv_graph s)) [] found) route =
         (let ds = filter (\<lambda>d. sd_RouteID d = route) found
          in if ds = [] then None
             else Some \<lparr>rs_RouteId = route,
                        rs_Delays = map (\<lambda>d. stop_delay (network_stop_name (sv_graph s) (sd_StopID d)) d) ds\<rparr>)" for route
    by (simp add: network_fold Let_def split: list.split)
  ultimately show ?thesis
    using assms(4) a by (intro exI [of _ found] exI [of _ "foldl (add_route_delay (sv_graph s)) [] found"])
      (auto simp: GetNetworkState_def found(1))
qed

definition demo_service :: TransitService where
  "demo_service = \<lparr>sv_graph = demo_graph, sv_engine = demo_engine, sv_agencyID = ''MTA''\<rparr>"

theorem network_state_by_route_witness:
  "\<exists>routes rs. fst (GetNetworkState mem_client demo_service 500 demo_redis) = Inr \<lparr>nr_Routes = routes, nr_AsOf = 500\<rparr>
     \<and> mget routes ''A'' = Some rs \<and> 400 \<in> sp_DelaySeconds ` set (rs_Delays rs)"
proof -
  let ?ds = "first_state ''A'' (demo_delay ARRIVAL_DELAY ''a'' 400 100)"
  obtain res r' where g: "GetNetworkState mem_client demo_service 500 demo_redis = (res, r')" by fastforce
  have h: "mem_healthy demo_redis" by code_simp
  have f: "glob_free (sv_agencyID demo_service)" by (simp add: glob_free_def demo_service_def)
  from network_state_by_route [OF mem.healthy_redis_axioms h f g] obtain found routes where
    n: "res = Inr \<lparr>nr_Routes = routes, nr_AsOf = 500\<rparr>"
    "set found = {ds. (\<exists>rest. delays (mem_ks demo_redis) (''delay:'' @ sv_agencyID demo_service @ '':'' @ rest) = Some ds)
                       \<and> 60 < abs32 (sd_DelaySeconds ds)}"
    "mget routes ''A'' = (let ds = filter (\<lambda>d. sd_RouteID d = ''A'') found
          in if ds = [] then None
             else Some \<lparr>rs_RouteId = ''A'',
                        rs_Delays = map (\<lambda>d. stop_delay (network_stop_name (sv_graph demo_service) (sd_StopID d)) d) ds\<rparr>)"
    by blast
  have "delays (mem_ks demo_redis) (''delay:'' @ sv_agencyID demo_service @ '':'' @ ''W_1:a'') = Some ?ds"
    using demo_stored by (simp add: demo_service_def)
  then have "?ds \<in> set found"
    unfolding n(2) by (auto simp: first_state_def demo_delay_def abs32_def intro!: exI [of _ "''W_1:a''"])
  then have "?ds \<in> set (filter (\<lambda>d. sd_RouteID d = ''A'') found)" by (simp add: first_state_def)
  then show ?thesis
    using n(3) by (auto simp: g n(1) Let_def stop_delay_def filter_empty_conv image_iff first_state_def demo_delay_def
        split: if_splits intro!: bexI [of _ ?ds])
qed

section \<open>Predictions on demand\<close>

text \<open>What one propagation of a train's own delay returns.\<close>

definition train_direction :: "TransitGraph \<Rightarrow> string \<Rightarrow> int" where
  "train_direction g tripID = (if tripID = [] then 0 else mgetd 0 (TripDirection g) tripID)"

definition cascade_of ::
  "PropagationEngine \<Rightarrow> string \<Rightarrow> string \<Rightarrow> string \<Rightarrow> DelayState \<Rightarrow> PropagationResult \<Rightarrow> bool" where
  "cascade_of e tripID routeID stationID ds p \<longleftrightarrow>
     pr_SourceTripId p = tripID \<and> pr_SourceStopId p = stationID \<and> pr_SourceDelaySeconds p = sd_DelaySeconds ds
     \<and> int (length (pr_Impacts p)) \<le> max 0 (cf_MaxImpacts (pe_cfg e))
     \<and> distinct (map (\<lambda>imp. (di_RouteId imp, di_StopId imp)) (pr_Impacts p))
     \<and> (\<forall>imp\<in>set (pr_Impacts p). di_ImpactType imp = ''dwell_increase'' \<longrightarrow>
          di_RouteId imp = routeID
          \<and> downstream_station (pe_graph e) routeID stationID (train_direction (pe_graph e) tripID) (di_StopId imp))
     \<and> (int (length (pr_Impacts p)) < cf_MaxImpacts (pe_cfg e) \<longrightarrow>
          (case GetDownstreamStops (pe_graph e) routeID stationID (train_direction (pe_graph e) tripID) of
             [] \<Rightarrow> True
           | first # rest \<Rightarrow> \<exists>imp\<in>set (pr_Impacts p). route_station (di_RouteId imp) (di_StopId imp)
               = route_station routeID (ParentStationID (pe_graph e) (StopID first))))"

lemma chain_dwell:
  "chain (origin e live tod src) xs \<Longrightarrow> x \<in> set xs \<Longrightarrow> qi_impactType x = ''dwell_increase'' \<Longrightarrow>
   qi_routeID x = ti_ToRouteId src
   \<and> qi_stopID x \<in> StopID ` set (GetDownstreamStops (pe_graph e) (ti_ToRouteId src) (ti_StationId src) (impact_direction e src))"
proof (induction xs rule: rev_induct)
  case (snoc y ys)
  then show ?case
    by (cases "x = y") (auto simp: origin_def spawned_def cascaded_def rippled_def seeded_def)
qed simp

text \<open>The first stop down the line is reported, unless the result is full: it is queued first, and what is queued
  is only taken out when its route and station is reported or was reported before.\<close>

definition impact_key :: "DownstreamImpact \<Rightarrow> string" where
  "impact_key imp = route_station (di_RouteId imp) (di_StopId imp)"

lemma impact_key_item [simp]: "impact_key (item_impact e q) = item_key e q"
  by (simp add: impact_key_def item_impact_def item_key_def)

lemma seed_stops_queue:
  "seed_stops R e now route dir conf hops ty acc i stops (w, r) = (w', r') \<Longrightarrow> set (wk_pq w) \<subseteq> set (wk_pq w')"
proof (induction stops arbitrary: acc i w r)
  case (Cons stop stops)
  obtain d r1 where b: "blendPerStop R e now (wk_hour w) route (StopID stop) (i32 (acc + extra_dwell (pe_cfg e))) r = (d, r1)"
    by fastforce
  show ?case using Cons.prems Cons.IH by (fastforce simp: Let_def b split: if_splits)
qed simp

lemma seedDownstream_queue:
  assumes "seedDownstream R e now route station dir d conf hops ty (w, r) = (w', r')"
  shows "set (wk_pq w) \<subseteq> set (wk_pq w')"
    and "GetDownstreamStops (pe_graph e) route station dir = first # rest \<Longrightarrow>
      \<exists>q\<in>set (wk_pq w'). qi_routeID q = route \<and> qi_stopID q = StopID first"
  using assms
  by (auto simp: seedDownstream_def split: list.splits dest!: seed_stops_queue) (rule bexI [rotated], assumption, simp)

lemma push_cascade_queue: "set (wk_pq w) \<subseteq> set (wk_pq (push_cascade e route d conf hops xfer w toRoute))"
  by (auto simp: push_cascade_def split: option.split)

lemma foldl_queue: "(\<And>v x. set (wk_pq v) \<subseteq> set (wk_pq (f v x))) \<Longrightarrow> set (wk_pq w) \<subseteq> set (wk_pq (foldl f w xs))"
proof (induction xs arbitrary: w)
  case (Cons x xs)
  from Cons.prems [of w x] Cons.IH [OF Cons.prems, of "f w x"] show ?case by simp
qed simp

lemma propagateTransfers_queue: "set (wk_pq w) \<subseteq> set (wk_pq (propagateTransfers e station route d conf hops w))"
  unfolding propagateTransfers_def by (intro foldl_queue) (auto intro: foldl_queue [THEN subsetD] push_cascade_queue [THEN subsetD])

lemma expand_queue:
  assumes "expand R e now item (w, r) = (w', r')"
  shows "set (wk_pq w) \<subseteq> set (wk_pq w')"
  using assms propagateTransfers_queue [of w e "ParentStationID (pe_graph e) (qi_stopID item)" "qi_routeID item" "qi_delay item"
      "qi_confidence item" "qi_hops item"]
  by (auto simp: expand_def Let_def split: if_splits prod.splits dest!: seedDownstream_queue(1))

definition covered :: "PropagationEngine \<Rightarrow> string \<Rightarrow> 'r walk_state \<Rightarrow> bool" where
  "covered e k s \<longleftrightarrow> (case s of (w, impacts, r) \<Rightarrow>
     k \<in> item_key e ` set (wk_pq w) \<or> k \<in> impact_key ` set impacts)"

lemma walk_step_covered:
  assumes inv: "walk_inv e live tod src s" and more: "walk_more e s" and cov: "covered e k s"
  shows "covered e k (walk_step R e now s)"
proof -
  obtain w impacts r where s: "s = (w, impacts, r)" by (cases s)
  obtain "reported" where d: "impacts = map (item_impact e) reported" "items_inv e live tod src w reported"
    using inv by (auto simp: walk_inv_def s)
  obtain item pq where pop: "pop_item (wk_pq w) = (item, pq)" by fastforce
  have ne: "wk_pq w \<noteq> []" and h: "heap_ok qi_delay (wk_pq w)" using more d(2) by (auto simp: walk_more_def s items_inv_def)
  have q: "set (wk_pq w) = insert item (set pq)" by (rule pop_queue(2) [OF h ne pop])
  have v: "mgetd False (wk_visited w) (item_key e item) \<longleftrightarrow> item_key e item \<in> impact_key ` set impacts"
    using d by (force simp: items_inv_def)
  obtain w2 r2 where ex: "expand R e now item (w\<lparr>wk_pq := pq, wk_visited := mput (item_key e item) True (wk_visited w)\<rparr>, r) = (w2, r2)"
    by fastforce
  from expand_queue [OF ex] have "set pq \<subseteq> set (wk_pq w2)" by simp
  then show ?thesis
    using cov q v ex by (auto simp: covered_def s walk_step_def pop Let_def item_key_def [symmetric])
qed

lemma Propagate_first_stop:
  assumes "Propagate R local e now src r = Some (p, r')"
    and "GetDownstreamStops (pe_graph e) (ti_ToRouteId src) (ti_StationId src) (impact_direction e src) = first # rest"
    and "int (length (pr_Impacts p)) < cf_MaxImpacts (pe_cfg e)"
  shows "\<exists>imp\<in>set (pr_Impacts p). impact_key imp = route_station (ti_ToRouteId src) (ParentStationID (pe_graph e) (StopID first))"
proof -
  let ?k = "route_station (ti_ToRouteId src) (ParentStationID (pe_graph e) (StopID first))"
  let ?live = "fst (snapshotLiveDelays R e r)" and ?tod = "SecsSinceMidnight local now (Some (pe_graph e)) (ti_DetectedAt src)"
  obtain w r1 where w: "walk_start R local e now src r = (w, r1)" by fastforce
  obtain w' impacts where t: "while_option (walk_more e) (walk_step R e now) (w, [], r1) = Some (w', impacts, r')"
    "pr_Impacts p = impacts"
    using assms(1) by (auto simp: Propagate_def w split: option.splits)
  have "\<exists>d w0 r0. seedDownstream R e now (ti_ToRouteId src) (ti_StationId src) (impact_direction e src) d 1 1 ''dwell_increase'' (w0, r0)
      = (w, r1)"
    using w by (auto simp: walk_start_def Let_def split: prod.splits)
  then obtain d w0 r0 where "seedDownstream R e now (ti_ToRouteId src) (ti_StationId src) (impact_direction e src) d 1 1
      ''dwell_increase'' (w0, r0) = (w, r1)" by blast
  from seedDownstream_queue(2) [OF this assms(2)] obtain q where "q \<in> set (wk_pq w)" "item_key e q = ?k"
    by (auto simp: item_key_def)
  then have "covered e ?k (w, [], r1)" unfolding covered_def prod.case by (intro disjI1 image_eqI [of _ _ q]) simp_all
  with walk_start_inv [OF w] have "walk_inv e ?live ?tod src (w, [], r1) \<and> covered e ?k (w, [], r1)" by simp
  with while_option_rule [where P = "\<lambda>s. walk_inv e ?live ?tod src s \<and> covered e ?k s", OF _ t(1)]
  have c: "covered e ?k (w', impacts, r')" using walk_step_inv walk_step_covered by blast
  from while_option_stop [OF t(1)] assms(3) have "wk_pq w' = []" by (simp add: walk_more_def t(2))
  with c show ?thesis by (auto simp: covered_def t(2))
qed

lemma Propagate_self:
  obtains p r' where "Propagate R local e now (self_impact now tripID routeID stationID ds) r = Some (p, r')"
    "cascade_of e tripID routeID stationID ds p"
proof -
  let ?src = "self_impact now tripID routeID stationID ds"
  obtain p r' reported where p: "Propagate R local e now ?src r = Some (p, r')"
    "pr_Impacts p = map (item_impact e) reported" "pr_SourceStopId p = ti_StationId ?src"
    "int (length reported) \<le> max 0 (cf_MaxImpacts (pe_cfg e))" "distinct (map (item_key e) reported)"
    "chain (origin e (fst (snapshotLiveDelays R e r))
      (SecsSinceMidnight local now (Some (pe_graph e)) (ti_DetectedAt ?src)) ?src) reported"
    by (rule propagate_items [of R local e now ?src r])
  have "distinct (map (\<lambda>imp. (di_RouteId imp, di_StopId imp)) (pr_Impacts p))"
    using p(5) by (auto simp: p(2) distinct_map inj_on_def item_key_def item_impact_def)
  moreover have "pr_SourceTripId p = tripID \<and> pr_SourceDelaySeconds p = sd_DelaySeconds ds"
    using p(1) by (auto simp: Propagate_def self_impact_def split: prod.splits option.splits)
  moreover have dir: "impact_direction e ?src = train_direction (pe_graph e) tripID"
    by (simp add: impact_direction_def train_direction_def self_impact_def)
  moreover have "case GetDownstreamStops (pe_graph e) routeID stationID (train_direction (pe_graph e) tripID) of
      [] \<Rightarrow> True
    | first # rest \<Rightarrow> \<exists>imp\<in>set (pr_Impacts p). route_station (di_RouteId imp) (di_StopId imp)
        = route_station routeID (ParentStationID (pe_graph e) (StopID first))"
    if "int (length (pr_Impacts p)) < cf_MaxImpacts (pe_cfg e)"
    using Propagate_first_stop [OF p(1) _ that, unfolded dir] by (auto simp: self_impact_def impact_key_def split: list.split)
  moreover have "di_RouteId imp = routeID
      \<and> downstream_station (pe_graph e) routeID stationID (train_direction (pe_graph e) tripID) (di_StopId imp)"
    if imp: "imp \<in> set (pr_Impacts p)" "di_ImpactType imp = ''dwell_increase''" for imp
  proof -
    from imp obtain x where x: "x \<in> set reported" "imp = item_impact e x" "qi_impactType x = ''dwell_increase''"
      by (auto simp: p(2) item_impact_def)
    from chain_dwell [OF p(6) x(1,3)] show ?thesis
      unfolding dir by (auto simp: x(2) item_impact_def self_impact_def downstream_station_def list_ex_iff)
  qed
  moreover have "pr_SourceStopId p = stationID" "int (length (pr_Impacts p)) \<le> max 0 (cf_MaxImpacts (pe_cfg e))"
    using p(2-4) by (simp_all add: self_impact_def)
  ultimately have "cascade_of e tripID routeID stationID ds p" unfolding cascade_of_def by blast
  then show ?thesis by (rule that [OF p(1)])
qed

text \<open>C31: however Redis behaves, \<open>PredictImpact\<close> always ends and writes nothing, and on success answers for the
  train at the parent station. Without a delay document of the train at that stop the answer has no impacts
  and no delay. Otherwise it is the very result of propagating the stored delay as the train's own, from
  the time at which it was observed (or now): at most \<open>MaxImpacts\<close> impacts, none twice for a route and
  station, the first stop down the line among them unless the answer is full, and dwell impacts only at
  stops of the train's own route after the station in its direction. On a healthy connection only a
  document that cannot be read makes it fail.\<close>

theorem predict_impact_of_train:
  fixes s :: TransitService and tripID stopID :: string
  assumes "redis_client R ks"
  defines "key \<equiv> delayKey (sv_agencyID s) tripID stopID"
    and "route \<equiv> mgetd [] (TripRoute (sv_graph s)) tripID" and "station \<equiv> ParentStationID (sv_graph s) stopID"
  shows "\<exists>res r'. PredictImpact R local s now tripID stopID r = Some (res, r') \<and> ks r' = ks r
    \<and> (\<forall>p. res = Inr p \<longrightarrow>
         (case delays (ks r) key of
            None \<Rightarrow> p = \<lparr>pr_SourceTripId = tripID, pr_SourceStopId = station, pr_SourceDelaySeconds = 0,
                         pr_Impacts = [], pr_ComputedAt = now\<rparr>
          | Some ds \<Rightarrow>
              (\<exists>r1. ks r1 = ks r \<and> Propagate R local (sv_engine s) now
                 \<lparr>ti_FromTripId = tripID, ti_FromRouteId = route, ti_ToRouteId = route, ti_StationId = station,
                  ti_SourceDelaySeconds = sd_DelaySeconds ds, ti_OriginalTransferMarginSeconds = 0,
                  ti_RemainingMarginSeconds = 0, ti_Level = AT_RISK,
                  ti_DetectedAt = (if 0 < sd_ObservedAt ds then sd_ObservedAt ds else now),
                  ti_NextViableTripId = tripID, ti_AdditionalWaitSeconds = 0, ti_SchedConnectionDepartureSecs = 0,
                  ti_EarliestCatchSecs = 0\<rparr> r1 = Some (p, r'))
              \<and> cascade_of (sv_engine s) tripID route station ds p))
    \<and> (\<forall>healthy. healthy_redis R ks healthy \<and> healthy r \<and> (ks r key = None \<or> delays (ks r) key \<noteq> None) \<longrightarrow> \<not> isl res)"
proof -
  obtain res r1 where s: "getState R key r = (res, r1)" by fastforce
  note get = redis_client.getState_cases [OF assms(1) s]
  have h: "res = Inl (SE_redis RedisNil) \<or> \<not> isl res"
    if "healthy_redis R ks healthy" "healthy r" "ks r key = None \<or> delays (ks r) key \<noteq> None" for healthy
  proof -
    obtain x r2 where g: "rd_Get R key r = (x, r2)" by fastforce
    from healthy_redis.Get_healthy [OF that(1,2) g] redis_client.Get_law [OF assms(1) g] that(3) s show ?thesis
      by (auto simp: getState_def g delays_def split: sum.splits option.splits)
  qed
  show ?thesis
  proof (cases res)
    case (Inl e)
    show ?thesis
    proof (cases "e = SE_redis RedisNil")
      case True
      then show ?thesis using Inl s get unfolding key_def station_def by (simp add: PredictImpact_def GetDelay_def Let_def)
    next
      case False
      then have "PredictImpact R local s now tripID stopID r = Some (Inl e, r1)"
        using Inl s unfolding key_def by (simp add: PredictImpact_def GetDelay_def Let_def)
      moreover have "\<not> (healthy_redis R ks healthy \<and> healthy r \<and> (ks r key = None \<or> delays (ks r) key \<noteq> None))" for healthy
        using h [of healthy] False unfolding Inl isl_def by blast
      ultimately show ?thesis using get(1) by (intro exI [of _ "Inl e"] exI [of _ r1]) blast
    qed
  next
    case (Inr ds)
    obtain p r2 where p: "Propagate R local (sv_engine s) now (self_impact now tripID route station ds) r1 = Some (p, r2)"
      "cascade_of (sv_engine s) tripID route station ds p"
      by (rule Propagate_self)
    have "PredictImpact R local s now tripID stopID r = Some (Inr p, r2)"
      using s Inr p(1) unfolding key_def station_def route_def by (simp add: PredictImpact_def GetDelay_def Let_def)
    moreover have "ks r2 = ks r" using redis_client.Propagate_reads [OF assms(1) p(1)] get(1) by simp
    ultimately show ?thesis
      using p get(1) get(2) [OF Inr] by (auto simp: self_impact_def syntheticDetectedAt_def)
  qed
qed

theorem predict_impact_of_train_witness:
  "\<exists>p r'. PredictImpact mem_client (\<lambda>_. 0) demo_service 500 ''W_1'' ''a'' demo_redis = Some (Inr p, r')
     \<and> pr_SourceStopId p = ''P'' \<and> pr_SourceDelaySeconds p = 400
     \<and> pr_Impacts p \<noteq> []"
proof -
  let ?ds = "first_state ''A'' (demo_delay ARRIVAL_DELAY ''a'' 400 100)"
  have h: "mem_healthy demo_redis" by code_simp
  have f: "sv_engine demo_service = demo_engine" "sv_agencyID demo_service = ''MTA''" "ParentStationID (sv_graph demo_service) ''a'' = ''P''"
    "mgetd [] (TripRoute (sv_graph demo_service)) ''W_1'' = ''A''" "train_direction (pe_graph demo_engine) ''W_1'' = 1"
    by (simp_all add: demo_service_def demo_graph_facts mgetd_def train_direction_def)
  have k: "delayKey ''MTA'' ''W_1'' ''a'' = ''delay:MTA:W_1:a''" by (simp add: delayKey_def)
  from predict_impact_of_train [OF mem.redis_client_axioms, of "\<lambda>_. 0" demo_service 500 "''W_1''" "''a''" demo_redis]
  obtain res r' where p: "PredictImpact mem_client (\<lambda>_. 0) demo_service 500 ''W_1'' ''a'' demo_redis = Some (res, r')"
    "\<And>p. res = Inr p \<Longrightarrow> cascade_of demo_engine ''W_1'' ''A'' ''P'' ?ds p" "\<not> isl res"
    using h mem.healthy_redis_axioms unfolding f k demo_stored by (auto simp del: mem_ks_simps)
  then obtain p where r: "res = Inr p" by (cases res) auto
  have c: "pr_SourceStopId p = ''P''" "pr_SourceDelaySeconds p = 400"
    "int (length (pr_Impacts p)) < cf_MaxImpacts DefaultConfig \<Longrightarrow>
       \<exists>imp\<in>set (pr_Impacts p). route_station (di_RouteId imp) (di_StopId imp) = ''A:Q''"
    using p(2) [OF r] unfolding cascade_of_def f
    by (simp_all add: demo_downstream demo_sst_def route_station_def) (simp add: first_state_def demo_delay_def)
  have "pr_Impacts p \<noteq> []"
  proof (cases "int (length (pr_Impacts p)) < cf_MaxImpacts DefaultConfig")
    case True
    with c(3) show ?thesis by auto
  qed (auto simp: DefaultConfig_def)
  with c p(1) show ?thesis by (intro exI [of _ p] exI [of _ r']) (simp add: r)
qed

section \<open>Blast radius\<close>

definition cascade_at ::
  "TransitService \<Rightarrow> keyspace \<Rightarrow> string \<Rightarrow> PropagationResult \<Rightarrow> bool" where
  "cascade_at s m stationID p \<longleftrightarrow> pr_Impacts p \<noteq> [] \<and>
     (\<exists>k ds. delays m k = Some ds \<and> ParentStationID (sv_graph s) (sd_StopID ds) = stationID
        \<and> sd_RouteID ds \<in> fst ` set (GetRoutesAtStop (sv_graph s) stationID)
        \<and> cascade_of (sv_engine s) (sd_TripID ds) (sd_RouteID ds) stationID ds p)"

context redis_client
begin

lemma scan_route_sound:
  assumes "GetRouteDelays R a routeID r = (Inr found, r')"
  shows "ks r' = ks r \<and> (\<forall>ds\<in>set found. sd_RouteID ds = routeID \<and> (\<exists>k. delays (ks r) k = Some ds))"
proof -
  obtain keys e r1 where s: "rd_Scan R (''delay:'' @ a @ '':*'') r = ((keys, e), r1)" by (metis prod.exhaust)
  obtain out r2 where o: "read_states R (\<lambda>ds. sd_RouteID ds = routeID) keys r1 = (out, r2)" by fastforce
  show ?thesis
    using assms conjunct1 [OF Scan_law [OF s]] read_states_sound [OF o]
    by (fastforce simp: GetRouteDelays_def scan_states_eq [OF s o] split: option.splits)
qed

lemma blast_delays_sound:
  assumes "\<forall>ds\<in>set found. sd_RouteID ds = routeID \<and> (\<exists>k. delays (ks r) k = Some ds)"
    and "routeID \<in> fst ` set (GetRoutesAtStop (sv_graph s) stationID)" and "\<forall>p\<in>set out. cascade_at s (ks r) stationID p"
  shows "\<exists>out' r'. blast_delays R local s now stationID routeID found out r = Some (out', r') \<and> ks r' = ks r
    \<and> (\<forall>p\<in>set out'. cascade_at s (ks r) stationID p)"
  using assms
proof (induction found arbitrary: out r)
  case (Cons ds found)
  show ?case
  proof (cases "ParentStationID (sv_graph s) (sd_StopID ds) = stationID")
    case True
    obtain p r1 where p: "Propagate R local (sv_engine s) now (self_impact now (sd_TripID ds) routeID stationID ds) r = Some (p, r1)"
      "cascade_of (sv_engine s) (sd_TripID ds) routeID stationID ds p"
      by (rule Propagate_self)
    have k: "ks r1 = ks r" using Propagate_reads [OF p(1)] .
    obtain key where "sd_RouteID ds = routeID" "delays (ks r) key = Some ds" using Cons.prems(1) by auto
    then have "pr_Impacts p \<noteq> [] \<Longrightarrow> cascade_at s (ks r) stationID p"
      unfolding cascade_at_def using Cons.prems(2) True p(2) by (intro conjI exI [of _ key] exI [of _ ds]) simp_all
    then have "\<forall>q\<in>set (if pr_Impacts p = [] then out else out @ [p]). cascade_at s (ks r1) stationID q"
      using Cons.prems(3) by (simp add: k)
    with Cons.IH [of r1 "if pr_Impacts p = [] then out else out @ [p]"] Cons.prems show ?thesis
      using True p(1) by (auto simp: k)
  next
    case False
    with Cons.IH [of r out] Cons.prems show ?thesis by auto
  qed
qed simp

lemma blast_routes_sound:
  assumes "set routes \<subseteq> fst ` set (GetRoutesAtStop (sv_graph s) stationID)" "\<forall>p\<in>set out. cascade_at s (ks r) stationID p"
  shows "\<exists>out' r'. blast_routes R local s now stationID routes out r = Some (out', r') \<and> ks r' = ks r
    \<and> (\<forall>p\<in>set out'. cascade_at s (ks r) stationID p)"
  using assms
proof (induction routes arbitrary: out r)
  case (Cons route routes)
  obtain res r1 where g: "GetRouteDelays R (sv_agencyID s) route r = (res, r1)" by fastforce
  have k: "ks r1 = ks r" using scan_states_sound [OF g [unfolded GetRouteDelays_def]] by simp
  show ?case
  proof (cases res)
    case (Inl e)
    then show ?thesis using Cons.IH [of out r1] Cons.prems by (simp add: g k)
  next
    case (Inr found)
    have "\<forall>ds\<in>set found. sd_RouteID ds = route \<and> (\<exists>k. delays (ks r1) k = Some ds)"
      using scan_route_sound [OF g [unfolded Inr]] by (simp add: k)
    from blast_delays_sound [OF this, of s stationID out local now] Cons.prems k obtain out1 r2 where
      b: "blast_delays R local s now stationID route found out r1 = Some (out1, r2)" "ks r2 = ks r"
        "\<forall>p\<in>set out1. cascade_at s (ks r) stationID p"
      by auto
    then show ?thesis using Cons.IH [of out1 r2] Cons.prems by (simp add: g Inr)
  qed
qed simp

end

text \<open>However Redis behaves, \<open>GetBlastRadius\<close> always ends and writes nothing; every cascade it lists has
  an impact and is that of a stored delay of a route serving the station, at a stop of the station.\<close>

theorem blast_radius_of_station:
  assumes "redis_client R ks"
  shows "\<exists>cascades r'. GetBlastRadius R local s now station r = Some (cascades, r') \<and> ks r' = ks r
    \<and> (\<forall>p\<in>set cascades. cascade_at s (ks r) (ParentStationID (sv_graph s) station) p)"
  using redis_client.blast_routes_sound [OF assms, of _ s "ParentStationID (sv_graph s) station" "[]" r local now]
  by (simp add: GetBlastRadius_def Let_def)

theorem blast_radius_of_station_witness:
  "\<exists>cascades r'. GetBlastRadius mem_client (\<lambda>_. 0) demo_service 500 ''a'' demo_redis = Some (cascades, r')
     \<and> mem_ks r' = mem_ks demo_redis"
  using blast_radius_of_station [OF mem.redis_client_axioms, of "\<lambda>_. 0" demo_service 500 "''a''" demo_redis] by blast

section \<open>Alerts\<close>

fun published :: "alert_label list \<Rightarrow> TransferImpact list" where
  "published [] = []"
| "published (Published impact # ls) = impact # published ls"
| "published (_ # ls) = published ls"

fun received :: "int \<Rightarrow> alert_label list \<Rightarrow> TransferImpact list" where
  "received i [] = []"
| "received i (Received j impact # ls) = (if i = j then impact # received i ls else received i ls)"
| "received i (_ # ls) = received i ls"

fun subscriptions :: "alert_label list \<Rightarrow> nat" where
  "subscriptions [] = 0"
| "subscriptions (Subscribed i # ls) = Suc (subscriptions ls)"
| "subscriptions (_ # ls) = subscriptions ls"

lemma published_append [simp]: "published (ls @ ls') = published ls @ published ls'"
  by (induction ls rule: published.induct) simp_all

lemma received_append [simp]: "received i (ls @ ls') = received i ls @ received i ls'"
  by (induction i ls rule: received.induct) simp_all

lemma subscriptions_append [simp]: "subscriptions (ls @ ls') = subscriptions ls + subscriptions ls'"
  by (induction ls rule: subscriptions.induct) simp_all

lemma mget_publish: "mget (ab_subs (AlertBroker_Publish impact b)) i = map_option (try_send impact) (mget (ab_subs b) i)"
  by (simp add: AlertBroker_Publish_def map_of_map)

lemma next_id:
  "alert_run b ls b' \<Longrightarrow> 0 \<le> ab_nextID b \<and> ab_nextID b < 18446744073709551616 \<Longrightarrow>
   ab_nextID b' = (ab_nextID b + int (subscriptions ls)) mod 18446744073709551616"
proof (induction rule: alert_run.induct)
  case (more b ls b' l b'')
  then show ?case
    by (cases l) (auto elim!: alert_stepE simp: Subscribe_def Let_def unsub_def AlertBroker_Publish_def receive_def
        mod_simps add_ac split: option.splits list.splits)
qed simp

text \<open>What a subscriber's channel holds: a part of what was published since, in order, less what was
  received; all of it while the buffer never had to be full.\<close>

definition delivered :: "nat \<Rightarrow> int \<Rightarrow> alert_label list \<Rightarrow> AlertBroker \<Rightarrow> bool" where
  "delivered n i ls b \<longleftrightarrow> (\<exists>buf. mget (ab_subs b) i = Some \<lparr>ch_cap = n, ch_buf = buf\<rparr> \<and> length buf \<le> n
     \<and> subseq (received i ls @ buf) (published ls)
     \<and> (length (published ls) \<le> n \<longrightarrow> received i ls @ buf = published ls))"

lemma delivered_run:
  "alert_run b ls b' \<Longrightarrow> mget (ab_subs b) i = Some \<lparr>ch_cap = n, ch_buf = []\<rparr> \<Longrightarrow>
   Subscribed i \<notin> set ls \<Longrightarrow> Unsubscribed i \<notin> set ls \<Longrightarrow> delivered n i ls b'"
proof (induction rule: alert_run.induct)
  case (none b)
  then show ?case by (simp add: delivered_def)
next
  case (more b ls b' l b'')
  then obtain buf where buf: "mget (ab_subs b') i = Some \<lparr>ch_cap = n, ch_buf = buf\<rparr>" "length buf \<le> n"
    "subseq (received i ls @ buf) (published ls)"
    "length (published ls) \<le> n \<longrightarrow> received i ls @ buf = published ls"
    by (auto simp: delivered_def)
  show ?case
  proof (cases l)
    case (Published impact)
    then have "mget (ab_subs b'') i = Some (try_send impact \<lparr>ch_cap = n, ch_buf = buf\<rparr>)"
      using more.hyps(2) buf(1) by (auto elim!: publishedE simp: mget_publish)
    moreover have "subseq ((received i ls @ buf) @ [impact]) (published ls @ [impact])"
      using buf(3) by (rule list_emb_append_mono) simp
    moreover have "subseq (received i ls @ buf) (published ls @ [impact])"
      using buf(3) by (rule list_emb_prefix)
    moreover have "length buf < n" if "Suc (length (published ls)) \<le> n"
      using list_emb_length [OF buf(3)] that by simp
    ultimately show ?thesis
      using buf(2,4) by (auto simp: delivered_def Published try_send_def)
  next
    case (Received j impact)
    then obtain ch rest where r: "mget (ab_subs b') j = Some ch" "ch_buf ch = impact # rest"
      "b'' = b'\<lparr>ab_subs := mput j (ch\<lparr>ch_buf := rest\<rparr>) (ab_subs b')\<rparr>"
      using more.hyps(2) by (auto elim!: receivedE simp: receive_def split: option.splits list.splits)
    then show ?thesis using buf by (cases "i = j") (auto simp: delivered_def Received)
  next
    case (Subscribed j)
    then show ?thesis
      using more.hyps(2) more.prems buf by (auto elim!: subscribedE simp: delivered_def Subscribe_def Let_def)
  next
    case (Unsubscribed j)
    then show ?thesis using more.hyps(2) more.prems buf by (auto elim!: unsubscribedE simp: delivered_def unsub_def)
  qed
qed

lemma alert_run_prefix: "alert_run b (ls @ ls') b' \<Longrightarrow> \<exists>b1. alert_run b ls b1"
proof (induction ls' arbitrary: b' rule: rev_induct)
  case (snoc l ls')
  from snoc.prems obtain b1 where "alert_run b (ls @ ls') b1"
    by (cases rule: alert_run.cases) (auto simp flip: append_assoc)
  then show ?case by (rule snoc.IH)
qed auto

text \<open>No later subscription takes the ID of this one, short of \<open>2^64\<close> of them.\<close>

lemma fresh_id:
  assumes "alert_run b ls b'" "i < 18446744073709551616" "0 \<le> i"
    and "ab_nextID b = (i + 1) mod 18446744073709551616" "subscriptions ls < 18446744073709551615"
  shows "Subscribed i \<notin> set ls"
proof
  assume "Subscribed i \<in> set ls"
  then obtain l1 l2 where ls: "ls = l1 @ Subscribed i # l2" by (auto dest: split_list)
  then have "alert_run b ((l1 @ [Subscribed i]) @ l2) b'" using assms(1) by simp
  then obtain b2 where "alert_run b (l1 @ [Subscribed i]) b2" using alert_run_prefix by blast
  then obtain b1 where r: "alert_run b l1 b1" "alert_step b1 (Subscribed i) b2"
    by (cases rule: alert_run.cases) auto
  then have "ab_nextID b1 = i" by (auto elim!: subscribedE simp: Subscribe_def Let_def)
  moreover have "ab_nextID b1 = (i + 1 + int (subscriptions l1)) mod 18446744073709551616"
    using next_id [OF r(1)] by (simp add: assms(4) mod_simps)
  moreover have "subscriptions l1 < 18446744073709551615" using assms(5) by (simp add: ls)
  ultimately have m: "(i + 1 + int (subscriptions l1)) mod 18446744073709551616 = i mod 18446744073709551616"
    and less: "1 + int (subscriptions l1) < 18446744073709551616" using assms(2,3) by simp_all
  have "18446744073709551616 dvd (i + 1 + int (subscriptions l1)) - i" using m by (simp only: mod_eq_dvd_iff)
  moreover have "(i + 1 + int (subscriptions l1)) - i = 1 + int (subscriptions l1)" by simp
  ultimately have "18446744073709551616 dvd 1 + int (subscriptions l1)" by (simp only:)
  then have "18446744073709551616 \<le> 1 + int (subscriptions l1)" by (rule zdvd_imp_le) simp
  then show False using less by simp
qed

lemma backoff_loop:
  "0 \<le> b \<Longrightarrow> b \<le> alertRetryMax \<Longrightarrow> j < length (run_consumer_loop b ss) \<Longrightarrow>
   run_consumer_loop b ss ! j = min (b * 2 ^ j) alertRetryMax"
proof (induction ss arbitrary: b j)
  case (Cons x ss)
  obtain d w where x: "x = (d, w)" by fastforce
  have i: "i64 (b * 2) = b * 2" using Cons.prems(1,2) by (simp add: i64_id in_i64_def alertRetryMax_def)
  let ?b = "if b * 2 > alertRetryMax then alertRetryMax else b * 2"
  show ?case
  proof (cases j)
    case 0
    then show ?thesis using Cons.prems by (auto simp: x Let_def split: if_splits)
  next
    case (Suc k)
    then have dw: "\<not> d" "\<not> w" using Cons.prems(3) by (auto simp: x split: if_splits)
    have "run_consumer_loop ?b ss ! k = min (?b * 2 ^ k) alertRetryMax"
      by (rule Cons.IH) (use Cons.prems dw in \<open>auto simp: x Suc i Let_def alertRetryMax_def\<close>)
    also have "\<dots> = min (b * 2 ^ Suc k) alertRetryMax"
    proof (cases "b * 2 > alertRetryMax")
      case True
      have 1: "alertRetryMax * 1 \<le> alertRetryMax * 2 ^ k" by (rule mult_left_mono) (simp_all add: alertRetryMax_def)
      moreover have "b * 2 * 1 \<le> b * 2 * 2 ^ k" by (rule mult_left_mono) (use Cons.prems(1) in simp_all)
      ultimately show ?thesis using True by (simp add: min_def mult.assoc)
    qed (simp add: mult.assoc)
    finally show ?thesis using dw by (simp add: x Suc i Let_def)
  qed
qed simp

text \<open>The waits between sessions double from 5 seconds and stay at 60.\<close>

lemma reconnect_backoff:
  "j < length (RunKafkaConsumer ss) \<Longrightarrow> RunKafkaConsumer ss ! j = min (5000000000 * 2 ^ j) 60000000000"
  using backoff_loop [of alertRetryBase j ss] by (simp add: RunKafkaConsumer_def alertRetryBase_def alertRetryMax_def)

text \<open>C17: from its subscription on, in every interleaving of publications, receives and other clients, a
  subscriber's received impacts followed by its buffer are a subsequence of what was published since, in
  order and each at most as often as published; the buffer never exceeds its size, and nothing is dropped
  while no more was published than the buffer holds. No other client can take over its ID.\<close>

theorem subscriber_sees_publications:
  assumes "alert_run NewAlertBroker before b0" and "Subscribe n b0 = (i, b1)" and "alert_run b1 ls b"
    and "Unsubscribed i \<notin> set ls" and "subscriptions ls < 18446744073709551615"
  shows "\<exists>buf. mget (ab_subs b) i = Some \<lparr>ch_cap = n, ch_buf = buf\<rparr> \<and> length buf \<le> n
    \<and> subseq (received i ls @ buf) (published ls)
    \<and> (length (published ls) \<le> n \<longrightarrow> received i ls @ buf = published ls)"
proof -
  have "ab_nextID b0 = int (subscriptions before) mod 18446744073709551616"
    using next_id [OF assms(1)] by (simp add: NewAlertBroker_def)
  then have i: "0 \<le> i" "i < 18446744073709551616" "ab_nextID b1 = (i + 1) mod 18446744073709551616"
    "mget (ab_subs b1) i = Some \<lparr>ch_cap = n, ch_buf = []\<rparr>"
    using assms(2) by (auto simp: Subscribe_def Let_def)
  have "Subscribed i \<notin> set ls" by (rule fresh_id [OF assms(3) i(2,1,3) assms(5)])
  from delivered_run [OF assms(3) i(4) this assms(4)] show ?thesis by (simp add: delivered_def)
qed

theorem subscriber_sees_publications_witness:
  "\<exists>b. alert_run (snd (Subscribe 1 NewAlertBroker)) [Published demo_broken, Received 0 demo_broken] b
     \<and> mget (ab_subs b) 0 = Some \<lparr>ch_cap = 1, ch_buf = []\<rparr>"
proof -
  obtain b1 where s: "Subscribe 1 NewAlertBroker = (0, b1)" by (simp add: Subscribe_def NewAlertBroker_def)
  have b1: "b1 = \<lparr>ab_subs = [(0, \<lparr>ch_cap = 1, ch_buf = []\<rparr>)], ab_nextID = 1\<rparr>"
    using s by (simp add: Subscribe_def NewAlertBroker_def)
  let ?b2 = "AlertBroker_Publish demo_broken b1"
  obtain b3 where "receive 0 ?b2 = Some (demo_broken, b3)"
    by (simp add: b1 AlertBroker_Publish_def receive_def try_send_def)
  then have r: "alert_run b1 (([] @ [Published demo_broken]) @ [Received 0 demo_broken]) b3"
    by (rule alert_run.more [OF alert_run.more [OF alert_run.none alert_step.publish] alert_step.receive])
  from subscriber_sees_publications [OF alert_run.none s r]
  have "mget (ab_subs b3) 0 = Some \<lparr>ch_cap = 1, ch_buf = []\<rparr>" by auto
  then show ?thesis using r unfolding s snd_conv by auto
qed

text \<open>\<open>StreamAlerts\<close> sends a client, in order, exactly the received impacts that match its filters, up to
  the first failed send or the end of the stream: all impacts without a filter, otherwise those from or
  onto a listed route or at a listed station.\<close>

theorem stream_alerts_filters:
  "StreamAlerts (\<lambda>impact sent. (length sent < m, sent @ [impact])) routeIDs stationIDs
       (map Some impacts @ None # rest) []
     = take (Suc m) (filter (\<lambda>impact. routeIDs = [] \<and> stationIDs = []
          \<or> ti_FromRouteId impact \<in> set routeIDs \<or> ti_ToRouteId impact \<in> set routeIDs
          \<or> ti_StationId impact \<in> set stationIDs) impacts)"
proof -
  define P :: "TransferImpact \<Rightarrow> bool" where "P = (\<lambda>impact. routeIDs = [] \<and> stationIDs = []
          \<or> ti_FromRouteId impact \<in> set routeIDs \<or> ti_ToRouteId impact \<in> set routeIDs
          \<or> ti_StationId impact \<in> set stationIDs)"
  have set: "mget (foldl (\<lambda>m x. mput x True m) m0 xs) x = (if x \<in> set xs then Some True else mget m0 x)"
    for m0 :: "(string, bool) gomap" and xs x
    by (induction xs arbitrary: m0) auto
  have g: "mgetd False (str_set xs) x \<longleftrightarrow> x \<in> set xs" for xs x by (simp add: mgetd_def str_set_def set)
  have e: "str_set xs = [] \<longleftrightarrow> xs = []" for xs
    using set [of "[]" xs "hd xs"] by (cases "xs = []") (auto simp: str_set_def)
  have w: "alert_wanted routeIDs stationIDs impact \<longleftrightarrow> P impact" for impact
    by (auto simp: P_def alert_wanted_def matchesFilter_def Let_def g e)
  have "stream_loop (\<lambda>impact sent. (length sent < m, sent @ [impact])) (alert_wanted routeIDs stationIDs)
      (map Some impacts @ None # rest) sent = sent @ take (Suc m - length sent) (filter P impacts)"
    if "length sent \<le> m" for sent
    using that
  proof (induction impacts arbitrary: sent)
    case (Cons x xs)
    then show ?case
      using Cons.IH [of sent] Cons.IH [of "sent @ [x]"] by (cases "length sent < m") (auto simp: w Suc_diff_le)
  qed simp
  from this [of "[]"] show ?thesis by (simp add: StreamAlerts_def P_def)
qed

end
