(* ===== verification/Kafka.thy ===== *)
theory Kafka
  imports Poller Transfers Propagation
begin

text \<open>
  \<open>internal/ingest/kafka.go\<close>, \<open>internal/transfer/kafka.go\<close> and \<open>internal/propagation/kafka.go\<close>: creating the
  topic, connecting the producer, publishing and closing. The client library is a record of operations over
  the state \<open>'w\<close> of the world; what it promises is the locale \<open>kafka_cluster\<close>, interpreted on an in-memory
  cluster. A value of the library's configuration that the code leaves alone is \<open>None\<close>.
\<close>

section \<open>The client library\<close>

text \<open>An error of the library: a bare protocol code, a code wrapped together with the broker's message for
  one topic, or another error. Go compares the first two as different values.\<close>

datatype sarama_error = KError int | TopicError int | OtherError string

definition ErrTopicAlreadyExists :: sarama_error where "ErrTopicAlreadyExists = KError 36"

datatype kafka_version = V3_6_0_0
datatype required_acks = NoResponse | WaitForLocal | WaitForAll
datatype partitioner = HashPartitioner | RandomPartitioner | RoundRobinPartitioner | ManualPartitioner
datatype start_offset = OffsetNewest

record sarama_config =
  sc_Version :: "kafka_version option"
  sc_Return_Successes :: "bool option"
  sc_RequiredAcks :: "required_acks option"
  sc_Partitioner :: "partitioner option"
  sc_Return_Errors :: "bool option"
  sc_Offsets_Initial :: "start_offset option"

definition NewConfig :: sarama_config where
  "NewConfig =
     \<lparr>sc_Version = None, sc_Return_Successes = None, sc_RequiredAcks = None, sc_Partitioner = None,
      sc_Return_Errors = None, sc_Offsets_Initial = None\<rparr>"

record TopicDetail =
  NumPartitions :: int32
  ReplicationFactor :: int

text \<open>Clients are numbered handles; \<open>ListTopics\<close> yields the keys of its map.\<close>

record ('w, 'b) sarama =
  NewClusterAdmin :: "string list \<Rightarrow> sarama_config \<Rightarrow> 'w \<Rightarrow> (sarama_error + nat) \<times> 'w"
  ListTopics :: "nat \<Rightarrow> 'w \<Rightarrow> (sarama_error + string list) \<times> 'w"
  CreateTopic :: "nat \<Rightarrow> string \<Rightarrow> TopicDetail \<Rightarrow> bool \<Rightarrow> 'w \<Rightarrow> sarama_error option \<times> 'w"
  CloseAdmin :: "nat \<Rightarrow> 'w \<Rightarrow> sarama_error option \<times> 'w"
  NewSyncProducer :: "string list \<Rightarrow> sarama_config \<Rightarrow> 'w \<Rightarrow> (sarama_error + nat) \<times> 'w"
  SendMessage :: "nat \<Rightarrow> 'b ProducerMessage \<Rightarrow> 'w \<Rightarrow> sarama_error option \<times> 'w"
  CloseProducer :: "nat \<Rightarrow> 'w \<Rightarrow> sarama_error option \<times> 'w"
  NewConsumerGroup :: "string list \<Rightarrow> string \<Rightarrow> sarama_config \<Rightarrow> 'w \<Rightarrow> (sarama_error + nat) \<times> 'w"

section \<open>Creating the topic\<close>

text \<open>The three packages have the same function up to how they wrap the library's errors. The admin client is
  closed on every return after it was opened, and an error of its \<open>Close\<close> is dropped.\<close>

definition create_missing ::
  "(sarama_error \<Rightarrow> 'e) \<Rightarrow> (sarama_error \<Rightarrow> 'e) \<Rightarrow> ('w, 'b) sarama \<Rightarrow> nat \<Rightarrow> string \<Rightarrow> int32 \<Rightarrow> 'w \<Rightarrow> 'e option \<times> 'w" where
  "create_missing list_err create_err S admin topic partitions w =
     (case ListTopics S admin w of
        (Inl e, w1) \<Rightarrow> (Some (list_err e), w1)
      | (Inr topics, w1) \<Rightarrow>
          if topic \<in> set topics then (None, w1)
          else (case CreateTopic S admin topic \<lparr>NumPartitions = partitions, ReplicationFactor = 1\<rparr> False w1 of
                  (None, w2) \<Rightarrow> (None, w2)
                | (Some e, w2) \<Rightarrow> (if e \<noteq> ErrTopicAlreadyExists then Some (create_err e) else None, w2)))"

definition ensure_topic_with ::
  "(sarama_error \<Rightarrow> 'e) \<Rightarrow> (sarama_error \<Rightarrow> 'e) \<Rightarrow> (sarama_error \<Rightarrow> 'e) \<Rightarrow> ('w, 'b) sarama \<Rightarrow> string list \<Rightarrow> string
   \<Rightarrow> int32 \<Rightarrow> 'w \<Rightarrow> 'e option \<times> 'w" where
  "ensure_topic_with admin_err list_err create_err S brokers topic partitions w =
     (case NewClusterAdmin S brokers (NewConfig\<lparr>sc_Version := Some V3_6_0_0\<rparr>) w of
        (Inl e, w1) \<Rightarrow> (Some (admin_err e), w1)
      | (Inr admin, w1) \<Rightarrow>
          (case create_missing list_err create_err S admin topic partitions w1 of
             (res, w2) \<Rightarrow> (res, snd (CloseAdmin S admin w2))))"

datatype topic_error = Err_cluster_admin sarama_error | Err_list_topics sarama_error | Err_create_topic sarama_error

definition ensureTopic ::
  "('w, 'b) sarama \<Rightarrow> string list \<Rightarrow> string \<Rightarrow> int32 \<Rightarrow> 'w \<Rightarrow> topic_error option \<times> 'w" where
  "ensureTopic = ensure_topic_with Err_cluster_admin Err_list_topics Err_create_topic"

definition transfer_ensureTopic ::
  "('w, 'b) sarama \<Rightarrow> string list \<Rightarrow> string \<Rightarrow> int32 \<Rightarrow> 'w \<Rightarrow> topic_error option \<times> 'w" where
  "transfer_ensureTopic = ensure_topic_with Err_cluster_admin Err_list_topics Err_create_topic"

definition propagation_ensureTopic ::
  "('w, 'b) sarama \<Rightarrow> string list \<Rightarrow> string \<Rightarrow> int32 \<Rightarrow> 'w \<Rightarrow> sarama_error option \<times> 'w" where
  "propagation_ensureTopic = ensure_topic_with (\<lambda>e. e) (\<lambda>e. e) (\<lambda>e. e)"

section \<open>The publishers\<close>

record KafkaPublisher =
  kp_producer :: nat
  kp_topic :: string

text \<open>The publishers of the three packages have the same two fields.\<close>

type_synonym KafkaImpactPublisher = KafkaPublisher
type_synonym KafkaPredictionPublisher = KafkaPublisher

datatype 'e publisher_error = Err_ensure_topic 'e | Err_new_producer sarama_error

definition connect_producer ::
  "('w, 'b) sarama \<Rightarrow> string list \<Rightarrow> sarama_config \<Rightarrow> string \<Rightarrow> 'e option \<times> 'w
   \<Rightarrow> ('e publisher_error + KafkaPublisher) \<times> 'w" where
  "connect_producer S brokers cfg topic ensured =
     (case ensured of
        (Some e, w1) \<Rightarrow> (Inl (Err_ensure_topic e), w1)
      | (None, w1) \<Rightarrow>
          (case NewSyncProducer S brokers cfg w1 of
             (Inl e, w2) \<Rightarrow> (Inl (Err_new_producer e), w2)
           | (Inr p, w2) \<Rightarrow> (Inr \<lparr>kp_producer = p, kp_topic = topic\<rparr>, w2)))"

definition NewKafkaPublisher ::
  "('w, 'b) sarama \<Rightarrow> string list \<Rightarrow> string \<Rightarrow> int32 \<Rightarrow> 'w \<Rightarrow> (topic_error publisher_error + KafkaPublisher) \<times> 'w" where
  "NewKafkaPublisher S brokers topic partitions w =
     connect_producer S brokers
       (NewConfig\<lparr>sc_Return_Successes := Some True, sc_RequiredAcks := Some WaitForLocal,
                  sc_Partitioner := Some HashPartitioner\<rparr>)
       topic (ensureTopic S brokers topic partitions w)"

definition NewKafkaImpactPublisher ::
  "('w, 'b) sarama \<Rightarrow> string list \<Rightarrow> string \<Rightarrow> int32 \<Rightarrow> 'w
   \<Rightarrow> (topic_error publisher_error + KafkaImpactPublisher) \<times> 'w" where
  "NewKafkaImpactPublisher S brokers topic partitions w =
     connect_producer S brokers
       (NewConfig\<lparr>sc_Return_Successes := Some True, sc_RequiredAcks := Some WaitForLocal,
                  sc_Partitioner := Some HashPartitioner\<rparr>)
       topic (transfer_ensureTopic S brokers topic partitions w)"

definition NewKafkaPredictionPublisher ::
  "('w, 'b) sarama \<Rightarrow> string list \<Rightarrow> string \<Rightarrow> int32 \<Rightarrow> 'w
   \<Rightarrow> (sarama_error publisher_error + KafkaPredictionPublisher) \<times> 'w" where
  "NewKafkaPredictionPublisher S brokers topic partitions w =
     connect_producer S brokers
       (NewConfig\<lparr>sc_Return_Successes := Some True, sc_RequiredAcks := Some WaitForLocal\<rparr>)
       topic (propagation_ensureTopic S brokers topic partitions w)"

definition KafkaImpactPublisher_PublishImpact ::
  "(TransferImpact \<Rightarrow> 'b option) \<Rightarrow> ('b ProducerMessage \<Rightarrow> 'w \<Rightarrow> bool \<times> 'w) \<Rightarrow> string
   \<Rightarrow> TransferImpact \<Rightarrow> 'w \<Rightarrow> bool \<times> 'w" where
  "KafkaImpactPublisher_PublishImpact marshal Send topic impact w =
     (case marshal impact of
        None \<Rightarrow> (False, w)
      | Some payload \<Rightarrow> Send \<lparr>pm_Topic = topic, pm_Key = ti_StationId impact, pm_Value = payload\<rparr> w)"

text \<open>The \<open>Publish\<close> methods over the connected producer (\<open>True\<close> for a nil error), and \<open>Close\<close>.\<close>

definition sent_ok :: "('w, 'b) sarama \<Rightarrow> nat \<Rightarrow> 'b ProducerMessage \<Rightarrow> 'w \<Rightarrow> bool \<times> 'w" where
  "sent_ok S p m w = (case SendMessage S p m w of (e, w1) \<Rightarrow> (e = None, w1))"

definition publish_event ::
  "('w, 'b) sarama \<Rightarrow> (DelayEvent \<Rightarrow> 'b option) \<Rightarrow> KafkaPublisher \<Rightarrow> DelayEvent \<Rightarrow> 'w \<Rightarrow> bool \<times> 'w" where
  "publish_event S marshal k = KafkaPublisher_Publish marshal (sent_ok S (kp_producer k)) (kp_topic k)"

definition publish_impact ::
  "('w, 'b) sarama \<Rightarrow> (TransferImpact \<Rightarrow> 'b option) \<Rightarrow> KafkaImpactPublisher \<Rightarrow> TransferImpact \<Rightarrow> 'w \<Rightarrow> bool \<times> 'w" where
  "publish_impact S marshal k = KafkaImpactPublisher_PublishImpact marshal (sent_ok S (kp_producer k)) (kp_topic k)"

definition publish_prediction ::
  "('w, 'b) sarama \<Rightarrow> (PropagationResult \<Rightarrow> 'b option) \<Rightarrow> KafkaPredictionPublisher \<Rightarrow> PropagationResult \<Rightarrow> 'w
   \<Rightarrow> bool \<times> 'w" where
  "publish_prediction S marshal k =
     KafkaPredictionPublisher_Publish marshal (sent_ok S (kp_producer k)) (kp_topic k)"

definition Close :: "('w, 'b) sarama \<Rightarrow> KafkaPublisher \<Rightarrow> 'w \<Rightarrow> sarama_error option \<times> 'w" where
  "Close S k w = CloseProducer S (kp_producer k) w"

section \<open>What the cluster promises\<close>

text \<open>The part of the world that the library's operations act on: the topics there are, the open clients of
  this process and the configuration each producer was opened with, what was handed to \<open>SendMessage\<close>, the
  messages of this process in the log, per topic and partition, and those whose send succeeded, in order.\<close>

record 'b cluster =
  cl_topics :: "string set"
  cl_admins :: "nat set"
  cl_producers :: "nat set"
  cl_config :: "nat \<Rightarrow> sarama_config"
  cl_tried :: "(nat \<times> 'b ProducerMessage) set"
  cl_log :: "string \<Rightarrow> nat \<Rightarrow> 'b ProducerMessage list"
  cl_acked :: "'b ProducerMessage list"

text \<open>Other processes may create topics at any time.\<close>

definition with_topics :: "'b cluster \<Rightarrow> 'b cluster \<Rightarrow> bool" where
  "with_topics c c' \<longleftrightarrow> cl_topics c \<subseteq> cl_topics c' \<and> c' = c\<lparr>cl_topics := cl_topics c'\<rparr>"

lemma with_topics_iff:
  "with_topics c c' \<longleftrightarrow> cl_topics c \<subseteq> cl_topics c' \<and> cl_admins c' = cl_admins c
     \<and> cl_producers c' = cl_producers c \<and> cl_config c' = cl_config c \<and> cl_tried c' = cl_tried c
     \<and> cl_log c' = cl_log c \<and> cl_acked c' = cl_acked c"
  by (cases c; cases c') (auto simp: with_topics_def)

text \<open>A send that ends with \<open>e\<close> while \<open>ext\<close> was appended to the log.\<close>

definition after_send ::
  "nat \<Rightarrow> 'b ProducerMessage \<Rightarrow> sarama_error option \<Rightarrow> (string \<Rightarrow> nat \<Rightarrow> 'b ProducerMessage list) \<Rightarrow> 'b cluster
   \<Rightarrow> 'b cluster" where
  "after_send p m e ext c =
     c\<lparr>cl_tried := insert (p, m) (cl_tried c), cl_log := (\<lambda>t q. cl_log c t q @ ext t q),
       cl_acked := cl_acked c @ (if e = None then [m] else [])\<rparr>"

text \<open>A producer that partitions by the hash of the key, and one that waits until its message is in the log of the
  partition's leader. The code sets both; what the library does by default is not relied on.\<close>

definition hash_keyed :: "sarama_config \<Rightarrow> bool" where
  "hash_keyed cfg \<longleftrightarrow> sc_Partitioner cfg = Some HashPartitioner"

definition waits_for_log :: "sarama_config \<Rightarrow> bool" where
  "waits_for_log cfg \<longleftrightarrow> sc_RequiredAcks cfg \<in> {Some WaitForLocal, Some WaitForAll}"

text \<open>A copy \<open>x\<close> may stand in partition \<open>q\<close> of topic \<open>t\<close>: it was handed to a producer for that topic, and a producer
  that hashes keys puts it on the partition of its key.\<close>

definition placed :: "(string \<Rightarrow> string \<Rightarrow> nat) \<Rightarrow> 'b cluster \<Rightarrow> string \<Rightarrow> nat \<Rightarrow> 'b ProducerMessage \<Rightarrow> bool" where
  "placed part c t q x \<longleftrightarrow>
     pm_Topic x = t \<and> (\<exists>p. (p, x) \<in> cl_tried c \<and> (hash_keyed (cl_config c p) \<longrightarrow> q = part t (pm_Key x)))"

text \<open>The contract. The producer is not idempotent and retries, so delivery is at least once: a send may append any
  number of copies, an error does not mean that there is none, and a copy of an earlier send may arrive
  late, with that of a later one (what lands between two calls is counted with the later call). Only
  success of a producer that waits for the log promises a copy. A key goes to the partition of its hash
  only if the producer was configured so, and \<open>part\<close> is fixed because the number of partitions of a topic
  is. A producer is only opened with \<open>Return.Successes\<close>, and its handle is new. A topic whose creation is refused
  because it exists, exists. Losing what a leader acknowledged is outside the contract: the topics have one
  replica, so that a lost leader is a lost partition.\<close>

locale kafka_cluster =
  fixes S :: "('w, 'b) sarama" and view :: "'w \<Rightarrow> 'b cluster" and part :: "string \<Rightarrow> string \<Rightarrow> nat"
  assumes admin_ok: "NewClusterAdmin S bs cfg w = (Inr a, w') \<Longrightarrow>
      a \<notin> cl_admins (view w) \<and> with_topics ((view w)\<lparr>cl_admins := insert a (cl_admins (view w))\<rparr>) (view w')"
    and admin_err: "NewClusterAdmin S bs cfg w = (Inl e, w') \<Longrightarrow> with_topics (view w) (view w')"
    and list_topics: "ListTopics S a w = (found, w') \<Longrightarrow> with_topics (view w) (view w')
      \<and> (\<forall>ts. found = Inr ts \<longrightarrow> set ts \<subseteq> cl_topics (view w'))"
    and create_topic: "CreateTopic S a t d v w = (res, w') \<Longrightarrow> with_topics (view w) (view w')
      \<and> (\<not> v \<longrightarrow> res = None \<or> res = Some ErrTopicAlreadyExists \<longrightarrow> t \<in> cl_topics (view w'))"
    and close_admin: "CloseAdmin S a w = (res, w') \<Longrightarrow>
      with_topics ((view w)\<lparr>cl_admins := cl_admins (view w) - {a}\<rparr>) (view w')"
    and producer_ok: "NewSyncProducer S bs cfg w = (Inr p, w') \<Longrightarrow>
      sc_Return_Successes cfg = Some True \<and> p \<notin> cl_producers (view w) \<union> fst ` cl_tried (view w)
      \<and> with_topics ((view w)\<lparr>cl_producers := insert p (cl_producers (view w)),
                               cl_config := (cl_config (view w))(p := cfg)\<rparr>) (view w')"
    and producer_err: "NewSyncProducer S bs cfg w = (Inl e, w') \<Longrightarrow> with_topics (view w) (view w')"
    and send: "SendMessage S p m w = (res, w') \<Longrightarrow>
      \<exists>ext. with_topics (after_send p m res ext (view w)) (view w')
        \<and> (\<forall>t q. \<forall>x\<in>set (ext t q). placed part (view w') t q x)
        \<and> (res = None \<and> p \<in> cl_producers (view w) \<and> waits_for_log (cl_config (view w) p)
             \<longrightarrow> (\<exists>q. m \<in> set (ext (pm_Topic m) q)))"
    and close_producer: "CloseProducer S p w = (res, w') \<Longrightarrow>
      with_topics ((view w)\<lparr>cl_producers := cl_producers (view w) - {p}\<rparr>) (view w')"
    and consumer_group: "NewConsumerGroup S bs grp cfg w = (cg, w') \<Longrightarrow> with_topics (view w) (view w')"

text \<open>The outcome of a constructor: no admin client stays open, nothing is written; a publisher comes with
  its topic and a new producer, an error with no producer.\<close>

definition publisher_outcome ::
  "('w \<Rightarrow> 'b cluster) \<Rightarrow> string \<Rightarrow> 'w \<Rightarrow> ('e + KafkaPublisher) \<times> 'w \<Rightarrow> bool" where
  "publisher_outcome view topic w out \<longleftrightarrow>
     (case out of (res, w') \<Rightarrow>
        cl_admins (view w') = cl_admins (view w) \<and> cl_log (view w') = cl_log (view w)
        \<and> cl_acked (view w') = cl_acked (view w)
        \<and> cl_topics (view w) \<subseteq> cl_topics (view w')
        \<and> (case res of
             Inl e \<Rightarrow> cl_producers (view w') = cl_producers (view w)
           | Inr k \<Rightarrow> kp_topic k = topic \<and> topic \<in> cl_topics (view w') \<and> kp_producer k \<notin> cl_producers (view w)
               \<and> cl_producers (view w') = insert (kp_producer k) (cl_producers (view w))))"

context kafka_cluster
begin

lemma create_missing_spec:
  assumes "create_missing le ce S a topic n w = (res, w')"
  shows "with_topics (view w) (view w') \<and> (res = None \<longrightarrow> topic \<in> cl_topics (view w'))"
proof -
  obtain r w1 where l: "ListTopics S a w = (r, w1)" by fastforce
  note l' = list_topics [OF l]
  show ?thesis
  proof (cases r)
    case (Inr ts)
    obtain r2 w2 where c: "CreateTopic S a topic \<lparr>NumPartitions = n, ReplicationFactor = 1\<rparr> False w1 = (r2, w2)"
      by fastforce
    from create_topic [OF c] l' Inr assms l c show ?thesis
      by (auto simp: create_missing_def with_topics_iff split: if_splits option.splits)
  qed (use assms l l' in \<open>auto simp: create_missing_def\<close>)
qed

lemma ensure_topic_spec:
  assumes "ensure_topic_with ae le ce S bs topic n w = (res, w')"
  shows "with_topics (view w) (view w') \<and> (res = None \<longrightarrow> topic \<in> cl_topics (view w'))"
proof -
  obtain r w1 where a: "NewClusterAdmin S bs (NewConfig\<lparr>sc_Version := Some V3_6_0_0\<rparr>) w = (r, w1)" by fastforce
  show ?thesis
  proof (cases r)
    case (Inr adm)
    obtain res1 w2 where c: "create_missing le ce S adm topic n w1 = (res1, w2)" by fastforce
    obtain e3 w3 where d: "CloseAdmin S adm w2 = (e3, w3)" by fastforce
    from assms a Inr c d have r: "res = res1" "w' = w3" by (simp_all add: ensure_topic_with_def)
    from admin_ok [OF a [unfolded Inr]] create_missing_spec [OF c] close_admin [OF d]
    show ?thesis unfolding r by (auto simp: with_topics_iff)
  qed (use assms a admin_err in \<open>auto simp: ensure_topic_with_def\<close>)
qed

lemma connect_outcome:
  "publisher_outcome view topic w (connect_producer S bs' cfg topic (ensure_topic_with ae le ce S bs topic n w))"
proof -
  obtain e w1 where e: "ensure_topic_with ae le ce S bs topic n w = (e, w1)" by fastforce
  from ensure_topic_spec [OF e]
  have t: "with_topics (view w) (view w1)" "e = None \<longrightarrow> topic \<in> cl_topics (view w1)" by blast+
  obtain r w2 where p: "NewSyncProducer S bs' cfg w1 = (r, w2)" by fastforce
  from producer_ok [of bs' cfg w1] producer_err [of bs' cfg w1] p t show ?thesis
    by (cases e; cases r) (auto simp: e connect_producer_def publisher_outcome_def with_topics_iff)
qed

lemma connect_config:
  assumes "connect_producer S bs' cfg topic (ensure_topic_with ae le ce S bs topic n w) = (Inr k, w')"
  shows "kp_topic k = topic \<and> kp_producer k \<in> cl_producers (view w') \<and> cl_config (view w') (kp_producer k) = cfg
    \<and> cl_tried (view w') = cl_tried (view w) \<and> cl_log (view w') = cl_log (view w)"
proof -
  obtain e w1 where e: "ensure_topic_with ae le ce S bs topic n w = (e, w1)" by fastforce
  from ensure_topic_spec [OF e] have t: "with_topics (view w) (view w1)" by blast
  obtain r w2 where p: "NewSyncProducer S bs' cfg w1 = (r, w2)" by fastforce
  from producer_ok [of bs' cfg w1] p t assms show ?thesis
    by (cases e; cases r) (auto simp: e connect_producer_def with_topics_iff)
qed

end

lemmas new_publisher_defs =
  NewKafkaPublisher_def NewKafkaImpactPublisher_def NewKafkaPredictionPublisher_def
  ensureTopic_def transfer_ensureTopic_def propagation_ensureTopic_def

section \<open>A sequence of publications\<close>

text \<open>What several pollers write through the shared producer is one sequence of calls of \<open>Publish\<close>.\<close>

fun publish_all :: "('a \<Rightarrow> 'w \<Rightarrow> bool \<times> 'w) \<Rightarrow> 'a list \<Rightarrow> 'w \<Rightarrow> bool list \<times> 'w" where
  "publish_all f [] w = ([], w)"
| "publish_all f (x # xs) w =
     (case f x w of (ok, w1) \<Rightarrow> (case publish_all f xs w1 of (oks, w2) \<Rightarrow> (ok # oks, w2)))"

definition acked :: "'a list \<Rightarrow> bool list \<Rightarrow> 'a list" where
  "acked xs oks = map fst (filter snd (zip xs oks))"

lemma acked_simps [simp]:
  "acked [] oks = []" "acked (x # xs) (ok # oks) = (if ok then [x] else []) @ acked xs oks"
  by (simp_all add: acked_def)

definition send_as :: "('w, 'b) sarama \<Rightarrow> ('a \<Rightarrow> 'b ProducerMessage option) \<Rightarrow> nat \<Rightarrow> 'a \<Rightarrow> 'w \<Rightarrow> bool \<times> 'w" where
  "send_as S mk p x w = (case mk x of None \<Rightarrow> (False, w) | Some m \<Rightarrow> sent_ok S p m w)"

definition event_message :: "(DelayEvent \<Rightarrow> 'b option) \<Rightarrow> string \<Rightarrow> DelayEvent \<Rightarrow> 'b ProducerMessage option" where
  "event_message marshal topic ev =
     map_option (\<lambda>v. \<lparr>pm_Topic = topic, pm_Key = ev_RouteId ev, pm_Value = v\<rparr>) (marshal ev)"

lemma publish_event_send: "publish_event S marshal k = send_as S (event_message marshal (kp_topic k)) (kp_producer k)"
  by (auto simp: fun_eq_iff publish_event_def KafkaPublisher_Publish_def send_as_def event_message_def
      split: option.splits)

text \<open>At-least-once delivery of a sequence of sends, as one partition sees it: every send appends copies of what
  was sent so far and belongs there (\<open>P\<close>), among them the event itself if it was acknowledged.\<close>

inductive delivered :: "('a \<Rightarrow> bool) \<Rightarrow> 'a set \<Rightarrow> 'a list \<Rightarrow> bool list \<Rightarrow> 'a list \<Rightarrow> bool" for P where
  delivered_none: "delivered P old [] [] []"
| delivered_send: "set copies \<subseteq> {y \<in> insert x old. P y} \<Longrightarrow> ok \<and> P x \<longrightarrow> x \<in> set copies
    \<Longrightarrow> delivered P (insert x old) xs oks rest \<Longrightarrow> delivered P old (x # xs) (ok # oks) (copies @ rest)"

lemma delivered_set: "delivered P old xs oks sent \<Longrightarrow> set sent \<subseteq> {y \<in> old \<union> set xs. P y}"
  by (induction rule: delivered.induct) auto

lemma delivered_acked: "delivered P old xs oks sent \<Longrightarrow> subseq (filter P (acked xs oks)) sent"
proof (induction rule: delivered.induct)
  case (delivered_send copies x old ok xs oks rest)
  have "subseq (filter P (if ok then [x] else [])) copies" using delivered_send.hyps(2) by (auto simp: subseq_singleton_left)
  from list_emb_append_mono [OF this delivered_send.IH] show ?case by (cases ok) auto
qed simp

lemma copies_of:
  "set ys \<subseteq> f ` A \<Longrightarrow> x \<in> A \<Longrightarrow> \<exists>xs. set xs \<subseteq> A \<and> ys = map f xs \<and> (f x \<in> set ys \<longrightarrow> x \<in> set xs)"
proof (induction ys)
  case (Cons y ys)
  then obtain xs where xs: "set xs \<subseteq> A" "ys = map f xs" "f x \<in> set ys \<longrightarrow> x \<in> set xs" by auto
  obtain a where a: "a \<in> A" "f a = y" "y = f x \<longrightarrow> a = x" using Cons.prems by (cases "y = f x") auto
  with xs show ?case by (intro exI [of _ "a # xs"]) auto
qed simp

text \<open>A producer bound to one topic: open, hashing, waiting for the log, and the only one that this process used
  for the topic, for the items in \<open>old\<close>.\<close>

definition bound_to ::
  "string \<Rightarrow> nat \<Rightarrow> ('a \<Rightarrow> 'b ProducerMessage option) \<Rightarrow> 'a set \<Rightarrow> 'b cluster \<Rightarrow> bool" where
  "bound_to t p mk old c \<longleftrightarrow>
     p \<in> cl_producers c \<and> hash_keyed (cl_config c p) \<and> waits_for_log (cl_config c p)
     \<and> (\<forall>(p', m) \<in> cl_tried c. pm_Topic m = t \<longrightarrow> p' = p \<and> (\<exists>x\<in>old. mk x = Some m))"

abbreviation goes_to :: "(string \<Rightarrow> string \<Rightarrow> nat) \<Rightarrow> ('a \<Rightarrow> 'b ProducerMessage option) \<Rightarrow> string \<Rightarrow> nat \<Rightarrow> 'a \<Rightarrow> bool" where
  "goes_to part mk t q x \<equiv> (\<exists>m. mk x = Some m \<and> part t (pm_Key m) = q)"

lemma publish_all_acked:
  assumes "\<And>x w w'. f x w = (True, w') \<Longrightarrow> Q x"
  shows "publish_all f xs w = (oks, w') \<Longrightarrow> x \<in> set (acked xs oks) \<Longrightarrow> Q x"
proof (induction xs arbitrary: w oks)
  case (Cons y xs)
  obtain ok w1 where f: "f y w = (ok, w1)" by fastforce
  obtain oks' where r: "publish_all f xs w1 = (oks', w')" "oks = ok # oks'"
    using Cons.prems(1) f by (auto split: prod.splits)
  from Cons.prems(2) r(2) consider "ok" "x = y" | "x \<in> set (acked xs oks')" by (auto split: if_splits)
  then show ?case using Cons.IH [OF r(1)] assms f by cases auto
qed simp

context kafka_cluster
begin

lemma send_as_appends:
  assumes "send_as S mk p x w = (ok, w')" "bound_to t p mk old (view w)" "\<forall>x m. mk x = Some m \<longrightarrow> pm_Topic m = t"
  shows "bound_to t p mk (insert x old) (view w')
    \<and> (\<forall>q. \<exists>copies. set copies \<subseteq> {y \<in> insert x old. goes_to part mk t q y} \<and> (ok \<and> goes_to part mk t q x \<longrightarrow> x \<in> set copies)
         \<and> cl_log (view w') t q = cl_log (view w) t q @ map (\<lambda>y. the (mk y)) copies)"
proof (cases "mk x")
  case None
  then show ?thesis using assms(1,2) by (auto simp: send_as_def bound_to_def intro: exI [of _ "[]"])
next
  case (Some m)
  obtain e where e: "SendMessage S p m w = (e, w')" "ok = (e = None)"
    using assms(1) Some by (auto simp: send_as_def sent_ok_def split: prod.splits)
  from send [OF e(1)] obtain ext where ext:
    "with_topics (after_send p m e ext (view w)) (view w')" "\<And>t q x. x \<in> set (ext t q) \<Longrightarrow> placed part (view w') t q x"
    "e = None \<and> p \<in> cl_producers (view w) \<and> waits_for_log (cl_config (view w) p) \<Longrightarrow> \<exists>q. m \<in> set (ext (pm_Topic m) q)"
    by blast
  have b: "bound_to t p mk (insert x old) (view w')"
    using assms(2) ext(1) Some by (auto simp: bound_to_def with_topics_iff after_send_def)
  note t = assms(3) [rule_format, OF Some]
  have at: "part t (pm_Key y) = q \<and> (\<exists>z \<in> insert x old. mk z = Some y)" if "y \<in> set (ext t q)" for y q
    using ext(2) [OF that] b by (fastforce simp: placed_def bound_to_def)
  have "\<exists>copies. set copies \<subseteq> {y \<in> insert x old. goes_to part mk t q y} \<and> (ok \<and> goes_to part mk t q x \<longrightarrow> x \<in> set copies)
      \<and> ext t q = map (\<lambda>y. the (mk y)) copies" for q
  proof (cases "goes_to part mk t q x")
    case True
    have "set (ext t q) \<subseteq> (\<lambda>y. the (mk y)) ` {y \<in> insert x old. goes_to part mk t q y}"
    proof
      fix y assume y: "y \<in> set (ext t q)"
      from at [OF y] obtain z where "z \<in> insert x old" "mk z = Some y" "part t (pm_Key y) = q" by blast
      then show "y \<in> (\<lambda>y. the (mk y)) ` {y \<in> insert x old. goes_to part mk t q y}" by (intro image_eqI [of _ _ z]) auto
    qed
    from copies_of [OF this, of x] True obtain copies where c: "set copies \<subseteq> {y \<in> insert x old. goes_to part mk t q y}"
      "ext t q = map (\<lambda>y. the (mk y)) copies" "m \<in> set (ext t q) \<longrightarrow> x \<in> set copies" using Some by auto
    have "m \<in> set (ext t q)" if "ok"
    proof -
      from ext(3) assms(2) e(2) that obtain q' where q': "m \<in> set (ext t q')" by (auto simp: t bound_to_def)
      with at [OF this] True Some show ?thesis by auto
    qed
    with c show ?thesis by blast
  next
    case False
    have "set (ext t q) \<subseteq> (\<lambda>y. the (mk y)) ` {y \<in> insert x old. goes_to part mk t q y}"
    proof
      fix y assume y: "y \<in> set (ext t q)"
      from at [OF y] obtain z where "z \<in> insert x old" "mk z = Some y" "part t (pm_Key y) = q" by blast
      then show "y \<in> (\<lambda>y. the (mk y)) ` {y \<in> insert x old. goes_to part mk t q y}" by (intro image_eqI [of _ _ z]) auto
    qed
    then have "ext t q \<in> lists ((\<lambda>y. the (mk y)) ` {y \<in> insert x old. goes_to part mk t q y})" by auto
    then show ?thesis using False unfolding lists_image by auto
  qed
  note copies = this
  have "cl_log (view w') t q = cl_log (view w) t q @ ext t q" for q
    using ext(1) by (simp add: with_topics_iff after_send_def)
  with b copies show ?thesis by simp
qed

lemma publish_all_delivered:
  assumes "publish_all (send_as S mk p) xs w = (oks, w')" "bound_to t p mk old (view w)"
    and "\<forall>x m. mk x = Some m \<longrightarrow> pm_Topic m = t"
  shows "\<exists>sent. delivered (goes_to part mk t q) old xs oks sent
    \<and> cl_log (view w') t q = cl_log (view w) t q @ map (\<lambda>y. the (mk y)) sent"
  using assms(1,2)
proof (induction xs arbitrary: w oks old)
  case Nil
  then show ?case by (auto intro: delivered_none)
next
  case (Cons x xs)
  obtain ok w1 where s: "send_as S mk p x w = (ok, w1)" by fastforce
  obtain oks' where r: "publish_all (send_as S mk p) xs w1 = (oks', w')" and o: "oks = ok # oks'"
    using Cons.prems(1) s by (auto split: prod.splits)
  note a = send_as_appends [OF s Cons.prems(2) assms(3)]
  from a have b: "bound_to t p mk (insert x old) (view w1)" by simp
  from spec [OF conjunct2 [OF a], of q] obtain copies where
    c: "set copies \<subseteq> {y \<in> insert x old. goes_to part mk t q y}" "ok \<and> goes_to part mk t q x \<longrightarrow> x \<in> set copies"
    "cl_log (view w1) t q = cl_log (view w) t q @ map (\<lambda>y. the (mk y)) copies" by (elim exE conjE) (rule that)
  from Cons.IH [OF r b] obtain rest where "delivered (goes_to part mk t q) (insert x old) xs oks' rest"
    "cl_log (view w') t q = cl_log (view w1) t q @ map (\<lambda>y. the (mk y)) rest" by blast
  with delivered_send [OF c(1,2)] c(3) show ?case by (intro exI [of _ "copies @ rest"]) (simp add: o)
qed

text \<open>The ingestor's publisher, from the moment it was opened.\<close>

lemma events_delivered:
  assumes "NewKafkaPublisher S brokers topic n w0 = (Inr k, w)" "\<forall>(p, m) \<in> cl_tried (view w0). pm_Topic m \<noteq> topic"
    and "publish_all (publish_event S marshal k) evs w = (oks, w')"
  shows "\<exists>sent. delivered (\<lambda>ev. marshal ev \<noteq> None \<and> part topic (ev_RouteId ev) = q) {} evs oks sent
    \<and> cl_log (view w') topic q = cl_log (view w0) topic q
        @ map (\<lambda>ev. \<lparr>pm_Topic = topic, pm_Key = ev_RouteId ev, pm_Value = the (marshal ev)\<rparr>) sent"
proof -
  from assms(1) have c: "kp_topic k = topic \<and> kp_producer k \<in> cl_producers (view w)
    \<and> cl_config (view w) (kp_producer k) = NewConfig\<lparr>sc_Return_Successes := Some True, sc_RequiredAcks := Some WaitForLocal,
                  sc_Partitioner := Some HashPartitioner\<rparr>
    \<and> cl_tried (view w) = cl_tried (view w0) \<and> cl_log (view w) = cl_log (view w0)"
    unfolding NewKafkaPublisher_def ensureTopic_def by (rule connect_config)
  let ?mk = "event_message marshal topic"
  have "bound_to topic (kp_producer k) ?mk {} (view w)"
    using c assms(2) by (auto simp: bound_to_def hash_keyed_def waits_for_log_def)
  moreover have "publish_all (send_as S ?mk (kp_producer k)) evs w = (oks, w')"
    using assms(3) c by (simp add: publish_event_send)
  moreover have "\<forall>x m. ?mk x = Some m \<longrightarrow> pm_Topic m = topic" by (auto simp: event_message_def)
  ultimately obtain sent where sent: "delivered (goes_to part ?mk topic q) {} evs oks sent"
    "cl_log (view w') topic q = cl_log (view w) topic q @ map (\<lambda>ev. the (?mk ev)) sent"
    using publish_all_delivered by blast
  have p: "goes_to part ?mk topic q = (\<lambda>ev. marshal ev \<noteq> None \<and> part topic (ev_RouteId ev) = q)"
    by (auto simp: event_message_def fun_eq_iff)
  from delivered_set [OF sent(1)] have "map (\<lambda>ev. the (?mk ev)) sent
      = map (\<lambda>ev. \<lparr>pm_Topic = topic, pm_Key = ev_RouteId ev, pm_Value = the (marshal ev)\<rparr>) sent"
    by (intro map_cong refl) (auto simp: event_message_def)
  with sent c show ?thesis unfolding p by (intro exI [of _ sent]) simp
qed

end

section \<open>An in-memory cluster\<close>

text \<open>The messages of a list that go to one partition.\<close>

definition to_partition ::
  "(string \<Rightarrow> string \<Rightarrow> nat) \<Rightarrow> string \<Rightarrow> nat \<Rightarrow> 'b ProducerMessage list \<Rightarrow> 'b ProducerMessage list" where
  "to_partition part t q ms = filter (\<lambda>m. pm_Topic m = t \<and> part t (pm_Key m) = q) ms"

text \<open>Every operation may fail, as the script in \<open>mc_faults\<close> says. A faulty send is written all the same; on an
  \<open>OtherError\<close> (a lost answer) it is retried, succeeds and stands in the log twice. The hash is left open.\<close>

record 'b mem_cluster =
  mc_topics :: "string list"
  mc_admins :: "nat list"
  mc_producers :: "nat list"
  mc_config :: "nat \<Rightarrow> sarama_config"
  mc_tried :: "(nat \<times> 'b ProducerMessage) list"
  mc_log :: "'b ProducerMessage list"
  mc_acked :: "'b ProducerMessage list"
  mc_faults :: "sarama_error option list"

definition next_fault :: "'b mem_cluster \<Rightarrow> sarama_error option \<times> 'b mem_cluster" where
  "next_fault c = (case mc_faults c of [] \<Rightarrow> (None, c) | f # fs \<Rightarrow> (f, c\<lparr>mc_faults := fs\<rparr>))"

definition fresh_handle :: "'b mem_cluster \<Rightarrow> nat" where
  "fresh_handle c = Max (set (0 # mc_admins c @ mc_producers c @ map fst (mc_tried c))) + 1"

lemma fresh_handle [simp]:
  "mc_admins c = as \<Longrightarrow> fresh_handle c \<notin> set as" "mc_producers c = ps \<Longrightarrow> fresh_handle c \<notin> set ps"
  "mc_tried c = ts \<Longrightarrow> fresh_handle c \<notin> fst ` set ts"
proof -
  have "\<forall>x \<in> set (0 # mc_admins c @ mc_producers c @ map fst (mc_tried c)). x < fresh_handle c"
    unfolding fresh_handle_def by (intro ballI le_imp_less_Suc [unfolded Suc_eq_plus1] Max_ge) auto
  then show "mc_admins c = as \<Longrightarrow> fresh_handle c \<notin> set as" "mc_producers c = ps \<Longrightarrow> fresh_handle c \<notin> set ps"
    "mc_tried c = ts \<Longrightarrow> fresh_handle c \<notin> fst ` set ts"
    by (auto dest: bspec)
qed

text \<open>What a send with a scripted fault returns, and how often it writes the message.\<close>

fun send_fault :: "sarama_error option \<Rightarrow> sarama_error option \<times> nat" where
  "send_fault (Some (OtherError _)) = (None, 2)"
| "send_fault f = (f, 1)"

lemma fresh_not_tried: "mc_tried c = ts \<Longrightarrow> (fresh_handle c, m) \<notin> set ts"
  using fresh_handle(3) [of c ts] by (auto simp: image_iff)

definition mem_sarama :: "('b mem_cluster, 'b) sarama" where
  "mem_sarama =
     \<lparr>NewClusterAdmin = (\<lambda>bs cfg c. case next_fault c of
        (Some e, c1) \<Rightarrow> (Inl e, c1)
      | (None, c1) \<Rightarrow> (Inr (fresh_handle c1), c1\<lparr>mc_admins := fresh_handle c1 # mc_admins c1\<rparr>)),
      ListTopics = (\<lambda>a c. case next_fault c of
        (Some e, c1) \<Rightarrow> (Inl e, c1) | (None, c1) \<Rightarrow> (Inr (mc_topics c1), c1)),
      CreateTopic = (\<lambda>a t d v c. case next_fault c of
        (Some e, c1) \<Rightarrow> (Some e, if e = ErrTopicAlreadyExists then c1\<lparr>mc_topics := t # mc_topics c1\<rparr> else c1)
      | (None, c1) \<Rightarrow> (None, c1\<lparr>mc_topics := t # mc_topics c1\<rparr>)),
      CloseAdmin = (\<lambda>a c. case next_fault c of (f, c1) \<Rightarrow> (f, c1\<lparr>mc_admins := removeAll a (mc_admins c1)\<rparr>)),
      NewSyncProducer = (\<lambda>bs cfg c. case next_fault c of
        (Some e, c1) \<Rightarrow> (Inl e, c1)
      | (None, c1) \<Rightarrow>
          if sc_Return_Successes cfg = Some True
          then (Inr (fresh_handle c1), c1\<lparr>mc_producers := fresh_handle c1 # mc_producers c1,
                                          mc_config := (mc_config c1)(fresh_handle c1 := cfg)\<rparr>)
          else (Inl (OtherError ''Producer.Return.Successes must be true''), c1)),
      SendMessage = (\<lambda>p m c. case next_fault c of (f, c1) \<Rightarrow>
        (fst (send_fault f),
         c1\<lparr>mc_tried := (p, m) # mc_tried c1, mc_log := mc_log c1 @ replicate (snd (send_fault f)) m,
            mc_acked := mc_acked c1 @ (if fst (send_fault f) = None then [m] else [])\<rparr>)),
      CloseProducer = (\<lambda>p c. case next_fault c of (f, c1) \<Rightarrow> (f, c1\<lparr>mc_producers := removeAll p (mc_producers c1)\<rparr>)),
      NewConsumerGroup = (\<lambda>bs grp cfg c. case next_fault c of
        (Some e, c1) \<Rightarrow> (Inl e, c1) | (None, c1) \<Rightarrow> (Inr 0, c1))\<rparr>"

definition mem_view :: "(string \<Rightarrow> string \<Rightarrow> nat) \<Rightarrow> 'b mem_cluster \<Rightarrow> 'b cluster" where
  "mem_view part c =
     \<lparr>cl_topics = set (mc_topics c), cl_admins = set (mc_admins c), cl_producers = set (mc_producers c),
      cl_config = mc_config c, cl_tried = set (mc_tried c), cl_log = (\<lambda>t q. to_partition part t q (mc_log c)), cl_acked = mc_acked c\<rparr>"

lemma next_fault_fields:
  "next_fault c = (f, c') \<Longrightarrow> mc_topics c' = mc_topics c \<and> mc_admins c' = mc_admins c
     \<and> mc_producers c' = mc_producers c \<and> mc_config c' = mc_config c \<and> mc_tried c' = mc_tried c \<and> mc_log c' = mc_log c \<and> mc_acked c' = mc_acked c"
  by (auto simp: next_fault_def split: list.splits)

lemma mem_send:
  assumes "SendMessage mem_sarama p m c = (e, c')"
  shows "\<exists>ext. with_topics (after_send p m e ext (mem_view part c)) (mem_view part c')
    \<and> (\<forall>t q. \<forall>x\<in>set (ext t q). placed part (mem_view part c') t q x) \<and> (\<exists>q. m \<in> set (ext (pm_Topic m) q))"
proof -
  obtain f c1 where f: "next_fault c = (f, c1)" by fastforce
  have n: "snd (send_fault f) \<noteq> 0" by (cases f rule: send_fault.cases) auto
  let ?ext = "\<lambda>t q. to_partition part t q (replicate (snd (send_fault f)) m)"
  have "with_topics (after_send p m e ?ext (mem_view part c)) (mem_view part c')"
    using assms next_fault_fields [OF f]
    by (auto simp: f mem_sarama_def mem_view_def with_topics_iff after_send_def to_partition_def)
  moreover have "placed part (mem_view part c') t q x" if "x \<in> set (?ext t q)" for t q x
    using that assms by (auto simp: f mem_sarama_def mem_view_def placed_def to_partition_def)
  moreover have "m \<in> set (?ext (pm_Topic m) (part (pm_Topic m) (pm_Key m)))" using n by (simp add: to_partition_def)
  ultimately show ?thesis by (intro exI [of _ ?ext] conjI) blast+
qed

interpretation memk: kafka_cluster mem_sarama "mem_view part" part
proof (unfold_locales, goal_cases)
  case (8 p m w e w')
  from mem_send [OF this, of part] show ?case by blast
qed (auto simp: mem_sarama_def mem_view_def with_topics_iff fun_eq_iff fresh_not_tried
      dest!: next_fault_fields split: prod.splits option.splits if_splits)

section \<open>The publishers are ready, and keep a route's events in order\<close>

text \<open>Each of the three constructors either fails or returns a publisher for the topic it was asked for:
  the topic then exists and the publisher owns a new producer. On no path does the admin client stay open,
  a topic vanish, a producer leak or a message get written.\<close>

theorem publishers_ready:
  assumes "kafka_cluster S view part"
  shows "publisher_outcome view topic w (NewKafkaPublisher S brokers topic n w)
    \<and> publisher_outcome view topic w (NewKafkaImpactPublisher S brokers topic n w)
    \<and> publisher_outcome view topic w (NewKafkaPredictionPublisher S brokers topic n w)"
  unfolding new_publisher_defs
  by (intro conjI kafka_cluster.connect_outcome [OF assms])

definition demo_cluster :: "sarama_error option list \<Rightarrow> DelayEvent mem_cluster" where
  "demo_cluster faults =
     \<lparr>mc_topics = [''__consumer_offsets''], mc_admins = [], mc_producers = [],
      mc_config = (\<lambda>_. NewConfig), mc_tried = [], mc_log = [], mc_acked = [], mc_faults = faults\<rparr>"

theorem publishers_ready_witness:
  "\<exists>k c. NewKafkaPublisher mem_sarama [''localhost:9092''] ''delay-events'' 10 (demo_cluster []) = (Inr k, c)
     \<and> ''delay-events'' \<in> set (mc_topics c) \<and> mc_admins c = []"
proof -
  obtain res c where r: "NewKafkaPublisher mem_sarama [''localhost:9092''] ''delay-events'' 10 (demo_cluster []) = (res, c)"
    by fastforce
  have "\<not> isl res"
    using r by (auto simp: new_publisher_defs connect_producer_def ensure_topic_with_def create_missing_def
        mem_sarama_def next_fault_def demo_cluster_def)
  then obtain k where k: "res = Inr k" by (cases res) auto
  from publishers_ready [OF memk.kafka_cluster_axioms, of "\<lambda>_ _. 0" "''delay-events''" "demo_cluster []"
      "[''localhost:9092'']" 10] r k
  show ?thesis by (auto simp: publisher_outcome_def mem_view_def demo_cluster_def)
qed

text \<open>C18: whatever sends fail or are retried, a publisher that \<open>NewKafkaPublisher\<close> opened delivers at least once, per
  route in order: what it adds to a partition are copies of published events of the routes that hash to
  it, each no earlier than its own publication, and the acknowledged events of a route all stand on its
  one partition, in the order in which they were published. (An event whose feed names no route counts as
  one of the route with the empty name; a copy that was retried may also stand there twice, and late.)\<close>

theorem route_events_one_partition:
  assumes "kafka_cluster S view part" and "NewKafkaPublisher S brokers topic n w0 = (Inr k, w)"
    and "\<forall>(p, m) \<in> cl_tried (view w0). pm_Topic m \<noteq> topic"
    and "publish_all (publish_event S marshal k) evs w = (oks, w')"
  shows "\<exists>sent. (\<forall>q. delivered (\<lambda>ev. marshal ev \<noteq> None \<and> part topic (ev_RouteId ev) = q) {} evs oks (sent q)
        \<and> cl_log (view w') topic q = cl_log (view w0) topic q
            @ map (\<lambda>ev. \<lparr>pm_Topic = topic, pm_Key = ev_RouteId ev, pm_Value = the (marshal ev)\<rparr>) (sent q))
    \<and> (\<forall>route. subseq (filter (\<lambda>ev. ev_RouteId ev = route) (acked evs oks))
                       (filter (\<lambda>ev. ev_RouteId ev = route) (sent (part topic route)))
         \<and> (\<forall>q. route \<in> ev_RouteId ` set (sent q) \<longrightarrow> q = part topic route))"
proof -
  let ?at = "\<lambda>q ev. marshal ev \<noteq> None \<and> part topic (ev_RouteId ev) = q"
  have "\<forall>q. \<exists>sent. delivered (?at q) {} evs oks sent \<and> cl_log (view w') topic q = cl_log (view w0) topic q
      @ map (\<lambda>ev. \<lparr>pm_Topic = topic, pm_Key = ev_RouteId ev, pm_Value = the (marshal ev)\<rparr>) sent"
    by (intro allI kafka_cluster.events_delivered [OF assms])
  from choice [OF this] obtain sent where
    sent: "\<forall>q. delivered (?at q) {} evs oks (sent q) \<and> cl_log (view w') topic q = cl_log (view w0) topic q
      @ map (\<lambda>ev. \<lparr>pm_Topic = topic, pm_Key = ev_RouteId ev, pm_Value = the (marshal ev)\<rparr>) (sent q)"
    by (elim exE) (rule that)
  note d = conjunct1 [OF sent [rule_format]]
  have m: "marshal ev \<noteq> None" if "ev \<in> set (acked evs oks)" for ev
    by (rule publish_all_acked [OF _ assms(4) that])
      (auto simp: publish_event_send send_as_def event_message_def split: option.splits)
  have "filter (\<lambda>ev. ev_RouteId ev = route) (filter (?at (part topic route)) (acked evs oks))
      = filter (\<lambda>ev. ev_RouteId ev = route) (acked evs oks)" for route
    unfolding filter_filter using m by (intro filter_cong) auto
  then have "subseq (filter (\<lambda>ev. ev_RouteId ev = route) (acked evs oks))
      (filter (\<lambda>ev. ev_RouteId ev = route) (sent (part topic route)))" for route
    using subseq_filter [OF delivered_acked [OF d [of "part topic route"]], of "\<lambda>ev. ev_RouteId ev = route"] by simp
  with sent delivered_set [OF d] show ?thesis by (intro exI [of _ sent] conjI allI) (blast | auto)+
qed

definition demo_event_on :: "string \<Rightarrow> int \<Rightarrow> DelayEvent" where
  "demo_event_on route t =
     \<lparr>ev_AgencyId = ''MTA'', ev_TripId = ''T'', ev_RouteId = route, ev_StopId = ''a'', ev_DelaySeconds = 60,
      ev_ObservedAt = t, ev_ScheduledArrival = 0, ev_PredictedArrival = 0, ev_Type = ARRIVAL_DELAY\<rparr>"

lemma demo_publisher_opens:
  "NewKafkaPublisher mem_sarama brokers ''t'' n (demo_cluster (None # None # None # None # None # faults))
     = (Inr \<lparr>kp_producer = 1, kp_topic = ''t''\<rparr>,
        (demo_cluster faults)\<lparr>mc_topics := [''t'', ''__consumer_offsets''], mc_producers := [1],
          mc_config := (\<lambda>_. NewConfig)(1 := NewConfig\<lparr>sc_Return_Successes := Some True, sc_RequiredAcks := Some WaitForLocal,
                                                      sc_Partitioner := Some HashPartitioner\<rparr>)\<rparr>)"
  by (simp add: new_publisher_defs connect_producer_def ensure_topic_with_def create_missing_def
      mem_sarama_def next_fault_def demo_cluster_def fresh_handle_def)

text \<open>The second send is retried, the third fails.\<close>

theorem route_events_one_partition_witness:
  "\<exists>k w c sent. NewKafkaPublisher mem_sarama [''localhost:9092''] ''t'' 10 (demo_cluster
         [None, None, None, None, None, None, Some (OtherError ''EOF''), Some (KError 7)]) = (Inr k, w)
     \<and> publish_all (publish_event mem_sarama Some k) [demo_event_on ''A'' 1, demo_event_on ''1'' 2, demo_event_on ''A'' 3] w
         = ([True, True, False], c)
     \<and> subseq [demo_event_on ''A'' 1] (filter (\<lambda>ev. ev_RouteId ev = ''A'') sent)
     \<and> map pm_Value (cl_log (mem_view (\<lambda>_. length) c) ''t'' 1) = sent
     \<and> sent = [demo_event_on ''A'' 1, demo_event_on ''1'' 2, demo_event_on ''1'' 2, demo_event_on ''A'' 3]"
proof -
  let ?evs = "[demo_event_on ''A'' 1, demo_event_on ''1'' 2, demo_event_on ''A'' 3]"
  let ?c = "demo_cluster [None, None, None, None, None, None, Some (OtherError ''EOF''), Some (KError 7)]"
  let ?k = "\<lparr>kp_producer = 1, kp_topic = ''t''\<rparr>"
  obtain w where n: "NewKafkaPublisher mem_sarama [''localhost:9092''] ''t'' 10 ?c = (Inr ?k, w)"
    "w = (demo_cluster [None, Some (OtherError ''EOF''), Some (KError 7)])\<lparr>mc_topics := [''t'', ''__consumer_offsets''],
           mc_producers := [1],
           mc_config := (\<lambda>_. NewConfig)(1 := NewConfig\<lparr>sc_Return_Successes := Some True, sc_RequiredAcks := Some WaitForLocal,
                                                      sc_Partitioner := Some HashPartitioner\<rparr>)\<rparr>"
    by (simp add: demo_publisher_opens)
  obtain oks c where p: "publish_all (publish_event mem_sarama Some ?k) ?evs w = (oks, c)" by fastforce
  then have o: "oks = [True, True, False]" and log: "map pm_Value (cl_log (mem_view (\<lambda>_. length) c) ''t'' 1)
      = [demo_event_on ''A'' 1, demo_event_on ''1'' 2, demo_event_on ''1'' 2, demo_event_on ''A'' 3]"
    by (auto simp: publish_event_def KafkaPublisher_Publish_def sent_ok_def mem_sarama_def next_fault_def demo_cluster_def n(2)
        mem_view_def to_partition_def demo_event_on_def eval_nat_numeral)
  have "\<forall>(p, m) \<in> cl_tried (mem_view (\<lambda>_. length) ?c). pm_Topic m \<noteq> ''t''" by (simp add: mem_view_def demo_cluster_def)
  from route_events_one_partition [OF memk.kafka_cluster_axioms n(1) this p] obtain sent where
    "cl_log (mem_view (\<lambda>_. length) c) ''t'' 1 = cl_log (mem_view (\<lambda>_. length) ?c) ''t'' 1
       @ map (\<lambda>ev. \<lparr>pm_Topic = ''t'', pm_Key = ev_RouteId ev, pm_Value = the (Some ev)\<rparr>) (sent 1)"
    "subseq (filter (\<lambda>ev. ev_RouteId ev = ''A'') (acked ?evs oks)) (filter (\<lambda>ev. ev_RouteId ev = ''A'') (sent (length ''A'')))"
    by (elim exE conjE) (rule that; elim allE conjE; assumption)
  then have "map pm_Value (cl_log (mem_view (\<lambda>_. length) c) ''t'' 1) = sent 1"
    "subseq [demo_event_on ''A'' 1] (filter (\<lambda>ev. ev_RouteId ev = ''A'') (sent 1))"
    by (simp_all add: mem_view_def demo_cluster_def to_partition_def o comp_def demo_event_on_def)
  with n(1) p o log show ?thesis
    by (intro exI [of _ ?k] exI [of _ w] exI [of _ c] exI [of _ "sent 1"]) simp
qed

text \<open>Losing the race to create the topic succeeds when the library reports the bare code, and is refused when
  it reports the code wrapped in a topic error, which \<open>!=\<close> tells apart from the sentinel.\<close>

lemma lost_race:
  "create_missing le ce S a topic n w =
     (if e = ErrTopicAlreadyExists then None else Some (ce e), w2)"
  if "ListTopics S a w = (Inr ts, w1)" "topic \<notin> set ts"
    "CreateTopic S a topic \<lparr>NumPartitions = n, ReplicationFactor = 1\<rparr> False w1 = (Some e, w2)"
  using that by (simp add: create_missing_def)

lemma wrapped_race_refused:
  "fst (ensureTopic mem_sarama [] ''t'' 10 (demo_cluster [None, None, Some (TopicError 36)]))
     = Some (Err_create_topic (TopicError 36))"
  "fst (ensureTopic mem_sarama [] ''t'' 10 (demo_cluster [None, None, Some (KError 36)])) = None"
  by (simp_all add: ensureTopic_def ensure_topic_with_def create_missing_def mem_sarama_def next_fault_def
      demo_cluster_def ErrTopicAlreadyExists_def)

end
