(* ===== verification/Ingestor.thy ===== *)
theory Ingestor
  imports Kafka Config
begin

text \<open>
  \<open>cmd/ingestor/main.go\<close>: loading the configuration, connecting the publisher, one poller per feed, and the
  throughput reporter. The pollers and the reporter run concurrently: a poll is the steps \<open>fetch\<close> and
  \<open>Diff\<close>, one \<open>Publish\<close> per event, \<open>Commit\<close> with the count of a published one, and \<open>Prune\<close>; the reporter reads the
  counters one by one. Flags, signals, the metrics listener and log lines are left out.
\<close>

section \<open>Definitions\<close>


definition new_pollers :: "FileConfig \<Rightarrow> Poller list" where
  "new_pollers cfg =
     map (\<lambda>feed. NewPoller (fc_Name feed) (fc_URL feed) (ic_AgencyID cfg) (fc_PollInterval feed)) (ic_Feeds cfg)"


text \<open>The pollers publish through the connected publisher; the rest of \<open>env\<close> is the HTTP client, the feed
  decoder and the clock.\<close>

definition publishing_env ::
  "('w, 'b) sarama \<Rightarrow> (DelayEvent \<Rightarrow> 'b option) \<Rightarrow> KafkaPublisher \<Rightarrow> 'w poll_env \<Rightarrow> 'w poll_env" where
  "publishing_env S marshal pub env = env\<lparr>Publish := publish_event S marshal pub\<rparr>"

text \<open>A poller's goroutine: idle between polls, about to publish the rest of the selected events, or between the
  success of a publication and its commit. \<open>th_acks\<close> counts the successes (for the theorem).\<close>

datatype poll_phase = Idle | Emitting "DelayEvent list" | Counting DelayEvent "DelayEvent list"

record poll_thread =
  th_poller :: Poller
  th_phase :: poll_phase
  th_acks :: nat

text \<open>\<open>pollOnce\<close> from the fetched feed to the selected events.\<close>

definition select_events :: "'w poll_env \<Rightarrow> Poller \<Rightarrow> FeedMessage \<Rightarrow> 'w \<Rightarrow> Poller \<times> DelayEvent list \<times> 'w" where
  "select_events env p feed w =
     (let ts = i64 (GetTimestamp (GetHeader (Some feed)));
          (observedAt, w1) = (if ts = 0 then (case Now env w of (t, w') \<Rightarrow> (time_Unix t, w')) else (ts, w));
          raw = collect_raw (po_AgencyID p) observedAt (GetEntity (Some feed));
          (now1, w2) = Now env w1;
          (d1, chg) = Diff now1 (po_Differ p) raw
      in (p\<lparr>po_Differ := d1\<rparr>, chg, w2))"

definition thread_step :: "'w poll_env \<Rightarrow> poll_thread \<Rightarrow> 'w \<Rightarrow> poll_thread \<times> 'w" where
  "thread_step env th w =
     (let p = th_poller th
      in case th_phase th of
           Idle \<Rightarrow>
             (case fetch env p w of
                (Inl e, w1) \<Rightarrow> (th, w1)
              | (Inr feed, w1) \<Rightarrow>
                  (case select_events env p feed w1 of
                     (p', chg, w2) \<Rightarrow> (th\<lparr>th_poller := p', th_phase := Emitting chg\<rparr>, w2)))
         | Emitting (ev # evs) \<Rightarrow>
             (case Publish env ev w of
                (False, w1) \<Rightarrow> (th\<lparr>th_phase := Emitting evs\<rparr>, w1)
              | (True, w1) \<Rightarrow> (th\<lparr>th_phase := Counting ev evs, th_acks := th_acks th + 1\<rparr>, w1))
         | Counting ev evs \<Rightarrow>
             (case Now env w of (t, w1) \<Rightarrow>
                (th\<lparr>th_poller := p\<lparr>po_Differ := Commit t (po_Differ p) ev, po_published := (po_published p + 1) mod 2 ^ 64\<rparr>,
                    th_phase := Emitting evs\<rparr>, w1))
         | Emitting [] \<Rightarrow>
             (case Now env w of (t, w1) \<Rightarrow>
                (th\<lparr>th_poller := p\<lparr>po_Differ := fst (Prune t (po_Differ p))\<rparr>, th_phase := Idle\<rparr>, w1)))"

text \<open>\<open>reportThroughput\<close>: what one tick logs. Counters are uint64; a rate over no time is not finite.\<close>

record throughput =
  tp_total :: int
  tp_delta :: int
  tp_rate :: "float64 option"

definition duration_seconds :: "int64 \<Rightarrow> float64" where
  "duration_seconds d =
     f64 (i_to_f64 (tdiv d time_second) + f64 (i_to_f64 (tmod d time_second) / 1000000000))"

text \<open>\<open>start\<close> is the time the reporter started.\<close>

definition throughput_line :: "int \<Rightarrow> int \<Rightarrow> int \<Rightarrow> int \<Rightarrow> throughput" where
  "throughput_line start now prevTotal tot =
     (let elapsed = duration_seconds (i64 (now - start))
      in \<lparr>tp_total = tot, tp_delta = (tot - prevTotal) mod 2 ^ 64,
          tp_rate = (if elapsed = 0 then None else Some (f64 (i_to_f64 tot / elapsed)))\<rparr>)"

text \<open>The reporter waits, or has read the counters of the first \<open>k\<close> pollers since a tick: the time of the tick,
  \<open>k\<close>, the sum so far and, for the theorem, how many publications had succeeded when the tick fired. Each
  line it logged is kept with that number and the one when it was logged.\<close>

datatype reporter_phase = Waiting | Reading int nat int nat

record 'w ingestor =
  in_threads :: "poll_thread list"
  in_world :: 'w
  in_reporter :: reporter_phase
  in_prevTotal :: int
  in_lines :: "(throughput \<times> nat \<times> nat) list"

definition total_acks :: "poll_thread list \<Rightarrow> nat" where
  "total_acks ths = sum_list (map th_acks ths)"

inductive ingestor_step :: "'w poll_env \<Rightarrow> int \<Rightarrow> 'w ingestor \<Rightarrow> 'w ingestor \<Rightarrow> bool" for env start where
  poller: "i < length (in_threads s) \<Longrightarrow> thread_step env (in_threads s ! i) (in_world s) = (th, w) \<Longrightarrow>
    ingestor_step env start s (s\<lparr>in_threads := (in_threads s)[i := th], in_world := w\<rparr>)"
| tick: "in_reporter s = Waiting \<Longrightarrow>
    ingestor_step env start s (s\<lparr>in_reporter := Reading now 0 0 (total_acks (in_threads s))\<rparr>)"
| read: "in_reporter s = Reading now k tot a \<Longrightarrow> k < length (in_threads s) \<Longrightarrow>
    ingestor_step env start s
      (s\<lparr>in_reporter := Reading now (Suc k) ((tot + Published (th_poller (in_threads s ! k))) mod 2 ^ 64) a\<rparr>)"
| report: "in_reporter s = Reading now (length (in_threads s)) tot a \<Longrightarrow>
    ingestor_step env start s
      (s\<lparr>in_reporter := Waiting, in_prevTotal := tot,
         in_lines := in_lines s @ [(throughput_line start now (in_prevTotal s) tot, a, total_acks (in_threads s))]\<rparr>)"

definition start_thread :: "Poller \<Rightarrow> poll_thread" where
  "start_thread p = \<lparr>th_poller = p, th_phase = Idle, th_acks = 0\<rparr>"

definition started_ingestor :: "Poller list \<Rightarrow> 'w \<Rightarrow> 'w ingestor" where
  "started_ingestor ps w =
     \<lparr>in_threads = map start_thread ps, in_world = w, in_reporter = Waiting, in_prevTotal = 0, in_lines = []\<rparr>"

section \<open>The pollers' counters\<close>

lemma NewPoller_fields [simp]:
  "po_Interval (NewPoller name url agencyID interval) = interval" "po_URL (NewPoller name url agencyID interval) = url"
  "po_AgencyID (NewPoller name url agencyID interval) = agencyID"
  by (simp_all add: NewPoller_def)

text \<open>What a goroutine has counted, and that its counter says so.\<close>

definition counted :: "poll_thread \<Rightarrow> nat" where
  "counted th = (case th_phase th of Counting ev evs \<Rightarrow> th_acks th - 1 | _ \<Rightarrow> th_acks th)"

definition thread_ok :: "poll_thread \<Rightarrow> bool" where
  "thread_ok th \<longleftrightarrow> po_published (th_poller th) = int (counted th) mod 2 ^ 64
     \<and> (\<forall>ev evs. th_phase th = Counting ev evs \<longrightarrow> 0 < th_acks th)"

lemma counted_bounds: "counted th \<le> th_acks th" "th_acks th \<le> Suc (counted th)"
  by (auto simp: counted_def split: poll_phase.split)

lemma select_events_counter: "select_events env p feed w = (p', chg, w') \<Longrightarrow> po_published p' = po_published p"
  by (auto simp: select_events_def Let_def split: prod.splits)

lemma thread_step_counts:
  assumes "thread_step env th w = (th', w')" "thread_ok th"
  shows "thread_ok th' \<and> counted th \<le> counted th'"
proof (cases "th_phase th")
  case Idle
  then show ?thesis
    using assms by (auto simp: thread_step_def Let_def thread_ok_def counted_def split: prod.splits sum.splits dest: select_events_counter)
next
  case (Emitting evs)
  then show ?thesis
    using assms by (cases evs) (auto simp: thread_step_def Let_def thread_ok_def counted_def split: prod.splits bool.splits)
next
  case (Counting ev evs)
  obtain k where k: "th_acks th = Suc k" using Counting assms(2) by (auto simp: thread_ok_def gr0_conv_Suc)
  obtain t w1 where n: "Now env w = (t, w1)" by fastforce
  have c: "counted th = k" using Counting k by (simp add: counted_def)
  have th': "th' = th\<lparr>th_poller := (th_poller th)\<lparr>po_Differ := Commit t (po_Differ (th_poller th)) ev,
      po_published := (po_published (th_poller th) + 1) mod 2 ^ 64\<rparr>, th_phase := Emitting evs\<rparr>"
    using assms(1) Counting n by (simp add: thread_step_def Let_def)
  have "(po_published (th_poller th) + 1) mod 2 ^ 64 = int (Suc k) mod 2 ^ 64"
    using assms(2) c by (simp add: thread_ok_def mod_simps add.commute)
  moreover have "counted th' = Suc k" using k by (simp add: th' counted_def)
  ultimately show ?thesis unfolding thread_ok_def c by (simp add: th')
qed

text \<open>A goroutine that runs alone from the start of a poll to its end has done \<open>pollOnce\<close>.\<close>

lemma thread_emits:
  assumes "th_phase th = Emitting evs" "foldl (publish_step env) (th_poller th, w) evs = (p', w')"
  shows "\<exists>n th'. ((\<lambda>(th, w). thread_step env th w) ^^ n) (th, w) = (th', w')
    \<and> th_phase th' = Emitting [] \<and> th_poller th' = p'"
  using assms
proof (induction evs arbitrary: th w)
  case Nil
  then show ?case by (intro exI [of _ 0] exI [of _ th]) auto
next
  case (Cons ev evs)
  let ?f = "\<lambda>(th, w). thread_step env th w"
  obtain p1 w1 where s: "publish_step env (th_poller th, w) ev = (p1, w1)" by fastforce
  have "\<exists>k th1. (?f ^^ k) (th, w) = (th1, w1) \<and> th_phase th1 = Emitting evs \<and> th_poller th1 = p1"
  proof (cases "fst (Publish env ev w)")
    case False
    with s Cons.prems(1) show ?thesis
      by (intro exI [of _ 1]) (auto simp: publish_step_def thread_step_def Let_def split: prod.splits bool.splits)
  next
    case True
    with s Cons.prems(1) show ?thesis
      by (intro exI [of _ 2]) (auto simp: publish_step_def thread_step_def Let_def eval_nat_numeral split: prod.splits bool.splits)
  qed
  then obtain k th1 where k: "(?f ^^ k) (th, w) = (th1, w1)" "th_phase th1 = Emitting evs" "th_poller th1 = p1" by blast
  have "foldl (publish_step env) (th_poller th1, w1) evs = (p', w')" using Cons.prems(2) s k(3) by simp
  from Cons.IH [OF k(2) this] obtain n th' where
    "(?f ^^ n) (th1, w1) = (th', w')" "th_phase th' = Emitting []" "th_poller th' = p'" by blast
  with k(1) show ?case by (intro exI [of _ "n + k"] exI [of _ th']) (simp add: funpow_add)
qed

lemma poll_alone:
  assumes "th_phase th = Idle" "pollOnce env (th_poller th) w = (p', w')"
  shows "\<exists>n th'. ((\<lambda>(th, w). thread_step env th w) ^^ Suc n) (th, w) = (th', w') \<and> th_phase th' = Idle \<and> th_poller th' = p'"
proof -
  let ?f = "\<lambda>(th, w). thread_step env th w" and ?p = "th_poller th"
  obtain res w1 where f: "fetch env ?p w = (res, w1)" by fastforce
  show ?thesis
  proof (cases res)
    case (Inl e)
    with assms f show ?thesis by (intro exI [of _ 0] exI [of _ th]) (simp add: pollOnce_def thread_step_def Let_def)
  next
    case (Inr feed)
    obtain p1 chg w2 where s: "select_events env ?p feed w1 = (p1, chg, w2)" using prod_cases3 by blast
    obtain p2 w3 where l: "foldl (publish_step env) (p1, w2) chg = (p2, w3)" by fastforce
    obtain t w4 where n: "Now env w3 = (t, w4)" by fastforce
    have "poll_feed env ?p feed w1 = (p2\<lparr>po_Differ := fst (Prune t (po_Differ p2))\<rparr>, w4)"
      using s l n by (auto simp: poll_feed_def select_events_def Let_def split: prod.splits if_splits)
    then have r: "p' = p2\<lparr>po_Differ := fst (Prune t (po_Differ p2))\<rparr>" "w' = w4"
      using assms(2) f Inr by (simp_all add: pollOnce_def)
    let ?th1 = "th\<lparr>th_poller := p1, th_phase := Emitting chg\<rparr>"
    have 1: "?f (th, w) = (?th1, w2)" using assms(1) f Inr s by (simp add: thread_step_def Let_def)
    from thread_emits [of ?th1 chg env w2 p2 w3] l obtain k th2 where
      2: "(?f ^^ k) (?th1, w2) = (th2, w3)" "th_phase th2 = Emitting []" "th_poller th2 = p2" by auto
    have "?f (th2, w3) = (th2\<lparr>th_poller := p', th_phase := Idle\<rparr>, w4)" using 2(2,3) n r by (simp add: thread_step_def Let_def)
    with 1 2(1) r show ?thesis
      by (intro exI [of _ "Suc k"] exI [of _ "th2\<lparr>th_poller := p', th_phase := Idle\<rparr>"]) (simp add: funpow_swap1)
  qed
qed

section \<open>The publisher of the pollers\<close>

text \<open>A poller's own ledger of the events whose publication succeeded. With it the contract of \<open>Publisher\<close> holds
  for any environment, whatever else happens to the world during its calls.\<close>

definition ledgered :: "'w poll_env \<Rightarrow> ('w \<times> DelayEvent list) poll_env" where
  "ledgered env =
     \<lparr>NewRequest = NewRequest env,
      Do = (\<lambda>url (w, l). case Do env url w of (resp, w') \<Rightarrow> (resp, (w', l))),
      Unmarshal = Unmarshal env,
      Now = (\<lambda>(w, l). case Now env w of (t, w') \<Rightarrow> (t, (w', l))),
      Publish = (\<lambda>ev (w, l). case Publish env ev w of (ok, w') \<Rightarrow> (ok, (w', if ok then l @ [ev] else l)))\<rparr>"

interpretation ledger: event_publisher "ledgered env" snd for env
  by unfold_locales (auto simp: ledgered_def split: prod.splits)

section \<open>The reporter\<close>

text \<open>What a line is about: \<open>Ts\<close> are the true totals behind the lines, \<open>cs\<close> the counts behind one reading, \<open>as\<close> the
  successes at the tick, per poller.\<close>

definition line_ok :: "nat \<Rightarrow> nat \<Rightarrow> nat \<Rightarrow> throughput \<times> nat \<times> nat \<Rightarrow> bool" where
  "line_ok n T0 T line \<longleftrightarrow> (case line of (r, a, b) \<Rightarrow>
     tp_total r = int T mod 2 ^ 64 \<and> tp_delta r = (int T - int T0) mod 2 ^ 64 \<and> T0 \<le> T \<and> a \<le> T + n \<and> T \<le> b)"

fun lines_ok :: "nat \<Rightarrow> nat \<Rightarrow> nat list \<Rightarrow> (throughput \<times> nat \<times> nat) list \<Rightarrow> bool" where
  "lines_ok n T0 [] [] = True"
| "lines_ok n T0 (T # Ts) (line # lines) = (line_ok n T0 T line \<and> lines_ok n T Ts lines)"
| "lines_ok n T0 _ _ = False"

lemma lines_ok_snoc:
  "lines_ok n T0 Ts lines \<Longrightarrow> line_ok n (last (T0 # Ts)) T line \<Longrightarrow> lines_ok n T0 (Ts @ [T]) (lines @ [line])"
  by (induction n T0 Ts lines rule: lines_ok.induct) auto

lemma lines_ok_nth:
  "lines_ok n T0 Ts lines \<Longrightarrow> length Ts = length lines \<and> (\<forall>i<length Ts. line_ok n ((T0 # Ts) ! i) (Ts ! i) (lines ! i))"
  by (induction n T0 Ts lines rule: lines_ok.induct) (auto simp: less_Suc_eq_0_disj)

definition reading_ok :: "poll_thread list \<Rightarrow> nat list \<Rightarrow> reporter_phase \<Rightarrow> bool" where
  "reading_ok ths seen ph \<longleftrightarrow> (case ph of
     Waiting \<Rightarrow> True
   | Reading now k tot a \<Rightarrow> k \<le> length ths \<and>
       (\<exists>cs as. length cs = k \<and> tot = int (sum_list cs) mod 2 ^ 64 \<and> length as = length ths \<and> a = sum_list as
          \<and> (\<forall>j<length ths. as ! j \<le> Suc (counted (ths ! j)))
          \<and> (\<forall>j<k. seen ! j \<le> cs ! j \<and> cs ! j \<le> counted (ths ! j) \<and> as ! j \<le> Suc (cs ! j))))"

definition ingestor_ok :: "nat \<Rightarrow> 'w ingestor \<Rightarrow> bool" where
  "ingestor_ok n s \<longleftrightarrow> length (in_threads s) = n \<and> (\<forall>th\<in>set (in_threads s). thread_ok th)
     \<and> (\<exists>Ts seen. lines_ok n 0 Ts (in_lines s) \<and> length seen = n \<and> sum_list seen = last (0 # Ts)
          \<and> in_prevTotal s = int (last (0 # Ts)) mod 2 ^ 64
          \<and> (\<forall>j<n. seen ! j \<le> counted (in_threads s ! j)) \<and> reading_ok (in_threads s) seen (in_reporter s))"

lemma sum_list_le: "length xs = length ys \<Longrightarrow> \<forall>j<length ys. xs ! j \<le> ys ! j \<Longrightarrow> sum_list xs \<le> sum_list (ys :: nat list)"
  by (rule sum_list_mono2) auto

lemma reading_ok_mono:
  "reading_ok ths seen ph \<Longrightarrow> length ths' = length ths \<Longrightarrow> \<forall>j<length ths. counted (ths ! j) \<le> counted (ths' ! j) \<Longrightarrow>
   reading_ok ths' seen ph"
proof (cases ph)
  case (Reading now k tot a)
  assume h: "reading_ok ths seen ph" "length ths' = length ths" and
    up: "\<forall>j<length ths. counted (ths ! j) \<le> counted (ths' ! j)"
  from h(1) obtain cs as where r: "k \<le> length ths" "length cs = k" "tot = int (sum_list cs) mod 2 ^ 64" "length as = length ths"
    "a = sum_list as" "\<forall>j<length ths. as ! j \<le> Suc (counted (ths ! j))"
    "\<forall>j<k. seen ! j \<le> cs ! j \<and> cs ! j \<le> counted (ths ! j) \<and> as ! j \<le> Suc (cs ! j)"
    unfolding reading_ok_def Reading reporter_phase.case by blast
  have "\<forall>j<length ths'. as ! j \<le> Suc (counted (ths' ! j))" using r(6) up h(2) by (metis Suc_le_mono le_trans)
  moreover have "\<forall>j<k. seen ! j \<le> cs ! j \<and> cs ! j \<le> counted (ths' ! j) \<and> as ! j \<le> Suc (cs ! j)"
    using r(1,7) up by (meson le_trans less_le_trans)
  ultimately show ?thesis
    unfolding reading_ok_def Reading reporter_phase.case using r(1-5) h(2) by (metis (no_types))
qed (simp add: reading_ok_def)

lemma ingestor_okI:
  "length (in_threads s) = n \<Longrightarrow> \<forall>th\<in>set (in_threads s). thread_ok th \<Longrightarrow> lines_ok n 0 Ts (in_lines s) \<Longrightarrow>
   length seen = n \<Longrightarrow> sum_list seen = last (0 # Ts) \<Longrightarrow> in_prevTotal s = int (last (0 # Ts)) mod 2 ^ 64 \<Longrightarrow>
   \<forall>j<n. seen ! j \<le> counted (in_threads s ! j) \<Longrightarrow> reading_ok (in_threads s) seen (in_reporter s) \<Longrightarrow> ingestor_ok n s"
  unfolding ingestor_ok_def by blast

lemma ingestor_step_ok:
  assumes "ingestor_step env start s s'" "ingestor_ok n s"
  shows "ingestor_ok n s'"
proof -
  from assms(2) obtain Ts seen where
    n: "length (in_threads s) = n" and ths: "\<forall>th\<in>set (in_threads s). thread_ok th" and
    lines: "lines_ok n 0 Ts (in_lines s)" and seen: "length seen = n" "sum_list seen = last (0 # Ts)" and
    prev: "in_prevTotal s = int (last (0 # Ts)) mod 2 ^ 64" and
    cnt: "\<forall>j<n. seen ! j \<le> counted (in_threads s ! j)" and rd: "reading_ok (in_threads s) seen (in_reporter s)"
    unfolding ingestor_ok_def by blast
  from assms(1) show ?thesis
  proof cases
    case (poller i th w)
    have i: "thread_ok th" "counted (in_threads s ! i) \<le> counted th"
      using thread_step_counts [OF poller(3)] ths poller(2) by simp_all
    let ?ths = "(in_threads s)[i := th]"
    have up: "\<forall>j<n. counted (in_threads s ! j) \<le> counted (?ths ! j)" using i(2) poller(2) by (simp add: nth_list_update n)
    have "\<forall>th\<in>set ?ths. thread_ok th" using ths i(1) set_update_subset_insert by fastforce
    moreover have "\<forall>j<n. seen ! j \<le> counted (?ths ! j)" using cnt up le_trans by blast
    moreover have "reading_ok ?ths seen (in_reporter s)" using reading_ok_mono [OF rd] up n by simp
    ultimately show ?thesis
      unfolding poller(1) using n lines seen prev by (intro ingestor_okI [where Ts = Ts and seen = seen]) simp_all
  next
    case (tick now)
    have "reading_ok (in_threads s) seen (Reading now 0 0 (total_acks (in_threads s)))"
      by (auto simp: reading_ok_def total_acks_def counted_bounds intro!: exI [of _ "map th_acks (in_threads s)"])
    then show ?thesis
      unfolding tick(1) using n ths lines seen prev cnt by (intro ingestor_okI [where Ts = Ts and seen = seen]) simp_all
  next
    case (read now k tot a)
    from rd obtain cs as where r: "length cs = k" "tot = int (sum_list cs) mod 2 ^ 64" "length as = n" "a = sum_list as"
      "\<forall>j<n. as ! j \<le> Suc (counted (in_threads s ! j))"
      "\<forall>j<k. seen ! j \<le> cs ! j \<and> cs ! j \<le> counted (in_threads s ! j) \<and> as ! j \<le> Suc (cs ! j)"
      by (auto simp: reading_ok_def read(2) n)
    let ?cs = "cs @ [counted (in_threads s ! k)]"
    have "thread_ok (in_threads s ! k)" using ths read(3) by simp
    then have "(tot + Published (th_poller (in_threads s ! k))) mod 2 ^ 64 = int (sum_list ?cs) mod 2 ^ 64"
      by (simp add: r(2) thread_ok_def Published_def mod_simps)
    moreover have "\<forall>j<Suc k. seen ! j \<le> ?cs ! j \<and> ?cs ! j \<le> counted (in_threads s ! j) \<and> as ! j \<le> Suc (?cs ! j)"
      using r(1,5,6) cnt read(3) n by (auto simp: nth_append less_Suc_eq)
    ultimately have "reading_ok (in_threads s) seen
        (Reading now (Suc k) ((tot + Published (th_poller (in_threads s ! k))) mod 2 ^ 64) a)"
      unfolding reading_ok_def reporter_phase.case using r(1,3-5) read(3) n
      by (intro conjI exI [of _ ?cs] exI [of _ as]) simp_all
    then show ?thesis
      unfolding read(1) using n ths lines seen prev cnt by (intro ingestor_okI [where Ts = Ts and seen = seen]) simp_all
  next
    case (report now tot a)
    from rd obtain cs as where r: "length cs = n" "tot = int (sum_list cs) mod 2 ^ 64" "length as = n" "a = sum_list as"
      "\<forall>j<n. seen ! j \<le> cs ! j \<and> cs ! j \<le> counted (in_threads s ! j) \<and> as ! j \<le> Suc (cs ! j)"
      by (auto simp: reading_ok_def report(2) n)
    let ?T = "sum_list cs" and ?line = "(throughput_line start now (in_prevTotal s) tot, a, total_acks (in_threads s))"
    have up: "last (0 # Ts) \<le> ?T" using sum_list_le [of seen cs] seen r(1,5) by simp
    have "a \<le> sum_list (map Suc cs)" unfolding r(4) using r(1,3,5) by (intro sum_list_le) auto
    then have lo: "a \<le> ?T + n" by (simp add: sum_list_Suc r(1))
    have "cs ! j \<le> th_acks (in_threads s ! j)" if "j < n" for j
      using r(5) that counted_bounds(1) [of "in_threads s ! j"] le_trans by blast
    then have hi: "?T \<le> total_acks (in_threads s)"
      unfolding total_acks_def using r(1) n by (intro sum_list_le) simp_all
    have "(tot - in_prevTotal s) mod 2 ^ 64 = (int ?T - int (last (0 # Ts))) mod 2 ^ 64"
      unfolding r(2) prev by (simp only: mod_diff_eq)
    then have "line_ok n (last (0 # Ts)) ?T ?line" using up lo hi r(2) by (simp add: line_ok_def throughput_line_def Let_def)
    from lines_ok_snoc [OF lines this] show ?thesis
      unfolding report(1) using n ths r(1,2,5)
      by (intro ingestor_okI [where Ts = "Ts @ [?T]" and seen = cs]) (simp_all add: reading_ok_def)
  qed
qed

lemma started_ok: "ingestor_ok (length (ic_Feeds cfg)) (started_ingestor (new_pollers cfg) w)"
proof -
  have "thread_ok th" if "th \<in> set (map start_thread (new_pollers cfg))" for th
    using that by (auto simp: new_pollers_def start_thread_def NewPoller_def thread_ok_def counted_def)
  then show ?thesis
    by (intro ingestor_okI [where Ts = "[]" and seen = "replicate (length (ic_Feeds cfg)) 0"])
      (simp_all add: started_ingestor_def reading_ok_def new_pollers_def sum_list_replicate)
qed



section \<open>Properties\<close>


definition demo_file :: "int64 \<Rightarrow> FileConfig" where
  "demo_file interval =
     \<lparr>ic_AgencyID = ''mta'', ic_Feeds = [\<lparr>fc_Name = ''L'', fc_URL = ''http://l'', fc_PollInterval = interval, fc_Routes = []\<rparr>],
      ic_PollingDefaultInterval = 0, ic_KafkaBrokers = [''localhost:9092''], ic_KafkaTopic = [],
      ic_Propagation = DefaultConfig\<rparr>"


text \<open>C36: however the steps of the pollers and of the reporter interleave, there are true totals behind the lines
  that the reporter logs: each is at least the number of publications that had succeeded when the tick
  fired, less one per poller (a success that was not yet counted), and at most the number when the line
  was logged; they never decrease; and the total and the delta of a line are the true total and the
  difference to the one before, modulo 2^64.\<close>

theorem throughput_reports_acknowledged:
  assumes "(ingestor_step env start)\<^sup>*\<^sup>* (started_ingestor (new_pollers cfg) w) s"
  shows "\<exists>Ts. length Ts = length (in_lines s)
    \<and> (\<forall>i<length Ts. let T = Ts ! i; T0 = (0 # Ts) ! i; (line, at_tick, at_line) = in_lines s ! i in
         tp_total line = int T mod 2 ^ 64 \<and> tp_delta line = (int T - int T0) mod 2 ^ 64 \<and> T0 \<le> T
         \<and> at_tick \<le> T + length (ic_Feeds cfg) \<and> T \<le> at_line)"
proof -
  have "ingestor_ok (length (ic_Feeds cfg)) s"
    using assms by (induction rule: rtranclp_induct) (auto intro: started_ok ingestor_step_ok)
  then obtain Ts where "lines_ok (length (ic_Feeds cfg)) 0 Ts (in_lines s)" by (auto simp: ingestor_ok_def)
  from lines_ok_nth [OF this] show ?thesis
    by (intro exI [of _ Ts]) (auto simp: line_ok_def Let_def split: prod.splits)
qed

definition demo_poll_env :: "DelayEvent mem_cluster poll_env" where
  "demo_poll_env =
     \<lparr>NewRequest = (\<lambda>_. True), Do = (\<lambda>_ w. (Some \<lparr>StatusCode = 200, Body = Some ''feed''\<rparr>, w)),
      Unmarshal = (\<lambda>_. Some demo_feed), Now = (\<lambda>w. (1000 * time_second, w)), Publish = (\<lambda>_ w. (False, w))\<rparr>"

lemma lone_poller:
  assumes "in_threads s = [th]" "((\<lambda>(th, w). thread_step env th w) ^^ n) (th, in_world s) = (th', w')"
  shows "(ingestor_step env start)\<^sup>*\<^sup>* s (s\<lparr>in_threads := [th'], in_world := w'\<rparr>)"
  using assms(2)
proof (induction n arbitrary: th' w')
  case 0
  then have "s\<lparr>in_threads := [th'], in_world := w'\<rparr> = s" using assms(1) by (cases s) simp
  then show ?case by (simp only: rtranclp.rtrancl_refl)
next
  case (Suc n)
  obtain th1 w1 where a: "((\<lambda>(th, w). thread_step env th w) ^^ n) (th, in_world s) = (th1, w1)" by fastforce
  then have b: "thread_step env th1 w1 = (th', w')" using Suc.prems by simp
  have "ingestor_step env start (s\<lparr>in_threads := [th1], in_world := w1\<rparr>) (s\<lparr>in_threads := [th'], in_world := w'\<rparr>)"
    using ingestor_step.poller [of 0 "s\<lparr>in_threads := [th1], in_world := w1\<rparr>" env th' w' start] b by simp
  with Suc.IH [OF a] show ?case by (rule rtranclp.rtrancl_into_rtrancl)
qed

lemma lone_report:
  assumes "in_threads s = [th]" "in_reporter s = Waiting"
  shows "(ingestor_step env start)\<^sup>*\<^sup>* s
    (s\<lparr>in_reporter := Waiting, in_prevTotal := Published (th_poller th) mod 2 ^ 64,
       in_lines := in_lines s @ [(throughput_line start now (in_prevTotal s) (Published (th_poller th) mod 2 ^ 64), th_acks th, th_acks th)]\<rparr>)"
proof -
  let ?s1 = "s\<lparr>in_reporter := Reading now 0 0 (th_acks th)\<rparr>"
  let ?s2 = "s\<lparr>in_reporter := Reading now 1 (Published (th_poller th) mod 2 ^ 64) (th_acks th)\<rparr>"
  have "ingestor_step env start s ?s1"
    using ingestor_step.tick [of s env start now] assms by (simp add: total_acks_def)
  moreover have "ingestor_step env start ?s1 ?s2"
    using ingestor_step.read [of ?s1 now 0 0 "th_acks th" env start] assms by simp
  ultimately have "(ingestor_step env start)\<^sup>*\<^sup>* s ?s2" by simp
  moreover have "ingestor_step env start ?s2
    (s\<lparr>in_reporter := Waiting, in_prevTotal := Published (th_poller th) mod 2 ^ 64,
       in_lines := in_lines s @ [(throughput_line start now (in_prevTotal s) (Published (th_poller th) mod 2 ^ 64), th_acks th, th_acks th)]\<rparr>)"
    using ingestor_step.report [of ?s2 now "Published (th_poller th) mod 2 ^ 64" "th_acks th" env start] assms
    by (simp add: total_acks_def)
  ultimately show ?thesis by (rule rtranclp.rtrancl_into_rtrancl)
qed

text \<open>The first event of the feed is lost, the second accepted; a tick falls between the success and the count,
  another after it.\<close>

definition lossy_start :: "poll_thread \<times> DelayEvent mem_cluster" where
  "lossy_start = (start_thread (hd (new_pollers (demo_file 5))), demo_cluster [Some ErrTopicAlreadyExists])"

definition lossy_env :: "DelayEvent mem_cluster poll_env" where
  "lossy_env = publishing_env mem_sarama Some \<lparr>kp_producer = 1, kp_topic = ''t''\<rparr> demo_poll_env"

lemma lossy_poll:
  "case ((\<lambda>(th, w). thread_step lossy_env th w) ^^ 3) lossy_start of (th, w) \<Rightarrow>
     th_acks th = 1 \<and> Published (th_poller th) = 0 \<and>
     (case thread_step lossy_env th w of (th', w') \<Rightarrow> th_acks th' = 1 \<and> Published (th_poller th') = 1)"
  by code_simp

theorem throughput_reports_acknowledged_witness:
  "\<exists>s. (ingestor_step lossy_env 0)\<^sup>*\<^sup>* (started_ingestor (new_pollers (demo_file 5)) (snd lossy_start)) s
     \<and> map (\<lambda>(line, at_tick, at_line). (tp_total line, tp_delta line, at_tick, at_line)) (in_lines s) = [(0, 0, 1, 1), (1, 1, 1, 1)]
     \<and> (\<exists>T0 T1. T0 \<le> T1 \<and> T1 \<le> (1 :: nat) \<and> (1 :: int) = int T1 mod 2 ^ 64 \<and> 1 = (int T1 - int T0) mod 2 ^ 64)"
proof -
  let ?f = "\<lambda>(th, w). thread_step lossy_env th w" and ?ps = "new_pollers (demo_file 5)"
  let ?s0 = "started_ingestor ?ps (snd lossy_start)"
  obtain th w where 1: "(?f ^^ 3) lossy_start = (th, w)" by fastforce
  obtain th' w' where 2: "thread_step lossy_env th w = (th', w')" by fastforce
  from lossy_poll 1 2 have v: "th_acks th = 1" "Published (th_poller th) = 0" "th_acks th' = 1" "Published (th_poller th') = 1"
    by simp_all
  let ?l1 = "(throughput_line 0 30 0 0, 1, 1)" and ?l2 = "(throughput_line 0 60 0 1, 1, 1)"
  let ?s1 = "?s0\<lparr>in_threads := [th], in_world := w\<rparr>" and ?s2 = "?s0\<lparr>in_threads := [th], in_world := w, in_lines := [?l1]\<rparr>"
  let ?s3 = "?s0\<lparr>in_threads := [th'], in_world := w', in_lines := [?l1]\<rparr>"
  let ?s4 = "?s0\<lparr>in_threads := [th'], in_world := w', in_prevTotal := 1, in_lines := [?l1, ?l2]\<rparr>"
  note run = started_ingestor_def lossy_start_def new_pollers_def demo_file_def
  have a: "(ingestor_step lossy_env 0)\<^sup>*\<^sup>* ?s0 ?s1"
    using lone_poller [where s = ?s0 and th = "fst lossy_start" and env = lossy_env and n = 3 and th' = th and w' = w and start = 0] 1 by (simp add: run)
  have b: "(ingestor_step lossy_env 0)\<^sup>*\<^sup>* ?s1 ?s2"
    using lone_report [where s = ?s1 and th = th and env = lossy_env and start = 0 and now = 30] v by (simp add: run)
  have c: "(ingestor_step lossy_env 0)\<^sup>*\<^sup>* ?s2 ?s3"
    using lone_poller [where s = ?s2 and th = th and env = lossy_env and n = 1 and th' = th' and w' = w' and start = 0] 2 by (simp add: run)
  have d: "(ingestor_step lossy_env 0)\<^sup>*\<^sup>* ?s3 ?s4"
    using lone_report [where s = ?s3 and th = th' and env = lossy_env and start = 0 and now = 60] v by (simp add: run)
  note steps = rtranclp_trans [OF rtranclp_trans [OF rtranclp_trans [OF a b] c] d]
  have lines: "in_lines ?s4 = [?l1, ?l2]" by simp
  from throughput_reports_acknowledged [OF steps, unfolded lines]
  have "\<exists>Ts. Ts ! 0 \<le> Ts ! 1 \<and> Ts ! 1 \<le> (1 :: nat) \<and> (1 :: int) = int (Ts ! 1) mod 2 ^ 64
      \<and> 1 = (int (Ts ! 1) - int (Ts ! 0)) mod 2 ^ 64"
  proof (elim exE conjE, goal_cases)
    case (1 Ts)
    from spec [OF 1(2), of 1] 1(1) show ?case by (intro exI [of _ Ts]) (simp add: throughput_line_def Let_def)
  qed
  with steps show ?thesis
    by (intro exI [of _ ?s4] conjI) (auto simp: throughput_line_def Let_def)
qed

end
