(* ===== verification/Startup.thy ===== *)
theory Startup
  imports ProcessorProps ServerProps Kafka Config
begin

text \<open>
  The \<open>main\<close> functions of \<open>cmd/processor/main.go\<close> and \<open>cmd/server/main.go\<close>: which component is built from
  what, in which order, and where a failure ends the process. The machine a process starts on (files, decoder,
  time zones, Redis, Kafka, codecs, sockets) is the record \<open>host\<close>. Flags are arguments; signals, the
  metrics listener, the closing of clients on the way out and log lines are left out.
\<close>

section \<open>Definitions\<close>

record ('r, 'w, 'b, 'c) host =
  ho_ReadFile :: "string \<Rightarrow> 'c option"
  ho_yaml :: "'c \<Rightarrow> FileConfig option"
  ho_loadLocation :: "string \<Rightarrow> location option"
  ho_local :: location
  ho_dir :: "string \<Rightarrow> data_dir"
  ho_redis :: "'r RedisClient"
  ho_Ping :: "'r \<Rightarrow> bool \<times> 'r"
  ho_kafka :: "('w, 'b) sarama"
  ho_marshal_impact :: "TransferImpact \<Rightarrow> 'b option"
  ho_marshal_result :: "PropagationResult \<Rightarrow> 'b option"
  ho_unmarshal_event :: "'b \<Rightarrow> DelayEvent option"
  ho_Listen :: "string \<Rightarrow> bool"

subsection \<open>The processor\<close>

definition transferImpactsTopic :: string where "transferImpactsTopic = ''transfer-impacts''"
definition networkPredictionsTopic :: string where "networkPredictionsTopic = ''network-predictions''"

datatype processor_exit =
  PExit_config config_error | PExit_graph graph_error | PExit_redis
| PExit_impact_publisher "topic_error publisher_error" | PExit_prediction_publisher "sarama_error publisher_error"
| PExit_consumer_group sarama_error

text \<open>A started processor: its handler, its state, the consumer group and the topic it joins.\<close>

record ('r, 'w, 'b) started =
  sp_handler :: "('r, 'w, 'b) consumerHandler"
  sp_state :: "('r, 'w) processor"
  sp_group :: nat
  sp_topic :: string

definition new_handler ::
  "('r, 'w, 'b, 'c) host \<Rightarrow> FileConfig \<Rightarrow> TransitGraph \<Rightarrow> KafkaImpactPublisher \<Rightarrow> KafkaPredictionPublisher
   \<Rightarrow> ('r, 'w, 'b) consumerHandler" where
  "new_handler H cfg g impactPub predPub =
     \<lparr>ch_rdb = ho_redis H,
      ch_publish = publish_impact (ho_kafka H) (ho_marshal_impact H) impactPub,
      ch_engine = NewPropagationEngine g True True (ic_AgencyID cfg) (ic_Propagation cfg),
      ch_predPub = publish_prediction (ho_kafka H) (ho_marshal_result H) predPub,
      ch_eval = \<lparr>el_graph = g, el_agencyID = ic_AgencyID cfg\<rparr>,
      ch_graph = g,
      ch_unmarshal = ho_unmarshal_event H\<rparr>"

definition new_processor :: "'r \<Rightarrow> 'w \<Rightarrow> ('r, 'w) processor" where
  "new_processor r w =
     \<lparr>pc_redis = r, pc_broker = w, pc_catchUp = False, pc_lags = [], pc_propSem = [], pc_shed = 0, pc_seq = 0\<rparr>"

definition processor_main ::
  "('r, 'w, 'b, 'c) host \<Rightarrow> string \<Rightarrow> string \<Rightarrow> int64 \<Rightarrow> 'r \<Rightarrow> 'w
   \<Rightarrow> (processor_exit + ('r, 'w, 'b) started) \<times> 'r \<times> 'w" where
  "processor_main H configPath dataDir now r w =
     (case LoadConfig (ho_ReadFile H) (ho_yaml H) configPath of
        Inl e \<Rightarrow> (Inl (PExit_config e), r, w)
      | Inr cfg \<Rightarrow>
     (case BuildGraph (ho_loadLocation H) (ho_local H) (ho_dir H dataDir) now of
        Inl e \<Rightarrow> (Inl (PExit_graph e), r, w)
      | Inr g \<Rightarrow>
     (case ho_Ping H r of
        (False, r1) \<Rightarrow> (Inl PExit_redis, r1, w)
      | (True, r1) \<Rightarrow>
     (case NewKafkaImpactPublisher (ho_kafka H) (ic_KafkaBrokers cfg) transferImpactsTopic 10 w of
        (Inl e, w1) \<Rightarrow> (Inl (PExit_impact_publisher e), r1, w1)
      | (Inr impactPub, w1) \<Rightarrow>
     (case NewKafkaPredictionPublisher (ho_kafka H) (ic_KafkaBrokers cfg) networkPredictionsTopic 10 w1 of
        (Inl e, w2) \<Rightarrow> (Inl (PExit_prediction_publisher e), r1, w2)
      | (Inr predPub, w2) \<Rightarrow>
     (case NewConsumerGroup (ho_kafka H) (ic_KafkaBrokers cfg) ''processor-group''
             (NewConfig\<lparr>sc_Return_Errors := Some True, sc_Offsets_Initial := Some OffsetNewest\<rparr>) w2 of
        (Inl e, w3) \<Rightarrow> (Inl (PExit_consumer_group e), r1, w3)
      | (Inr grp, w3) \<Rightarrow>
          (Inr \<lparr>sp_handler = new_handler H cfg g impactPub predPub, sp_state = new_processor r1 w3,
                sp_group = grp, sp_topic = ic_KafkaTopic cfg\<rparr>, r1, w3)))))))"

text \<open>The consume loop: what a session does to the state, and whether the context is done after it.\<close>

fun consume_sessions :: "((('r, 'w) processor \<Rightarrow> ('r, 'w) processor) \<times> bool) list \<Rightarrow> ('r, 'w) processor \<Rightarrow> ('r, 'w) processor" where
  "consume_sessions [] st = st"
| "consume_sessions ((session, ctx_done) # ss) st =
     (if ctx_done then session st else consume_sessions ss (session st))"

text \<open>\<open>propWG.Wait\<close> on the way out. Sessions and monitors are over, so that only the propagations in flight run, all
  at once: each is about to propagate, to track what it predicts, or to publish it.\<close>

datatype propagation_job =
  Started (job_impact: TransferImpact)
| Propagated (job_impact: TransferImpact) PropagationResult
| Tracked (job_impact: TransferImpact) PropagationResult

text \<open>One more call of a propagation: what is left of it (\<open>[]\<close> when its goroutine ends) and the state.\<close>

fun advance ::
  "('r, 'w, 'b) consumerHandler \<Rightarrow> location \<Rightarrow> int64 \<Rightarrow> int \<Rightarrow> propagation_job \<Rightarrow> ('r, 'w) processor
   \<Rightarrow> (propagation_job list \<times> ('r, 'w) processor) option" where
  "advance h local now nano (Started impact) st =
     (case Propagate (ch_rdb h) local (ch_engine h) now impact (pc_redis st) of
        None \<Rightarrow> None
      | Some (result, r1) \<Rightarrow>
          Some (if pr_Impacts result = [] then [] else [Propagated impact result], st\<lparr>pc_redis := r1\<rparr>))"
| "advance h local now nano (Propagated impact result) st =
     (case TrackPrediction (ch_rdb h) local (ch_eval h) impact result now nano (pc_seq st) (pc_redis st) of
        (err, seq', r1) \<Rightarrow> Some ([Tracked impact result], st\<lparr>pc_redis := r1, pc_seq := seq'\<rparr>))"
| "advance h local now nano (Tracked impact result) st =
     Some ([], st\<lparr>pc_broker := snd (ch_predPub h result (pc_broker st))\<rparr>)"

text \<open>Any of them may go next; one that ends returns its token. The wait is over when none is left.\<close>

inductive shutdown_step ::
  "('r, 'w, 'b) consumerHandler \<Rightarrow> location \<Rightarrow> propagation_job list \<times> ('r, 'w) processor
   \<Rightarrow> propagation_job list \<times> ('r, 'w) processor \<Rightarrow> bool" for h local where
  shutdown: "advance h local now nano job st = Some (next, st') \<Longrightarrow>
    shutdown_step h local (xs @ job # ys, st)
      (xs @ next @ ys, st'\<lparr>pc_propSem := map job_impact (xs @ next @ ys)\<rparr>)"

definition propWG_Wait_returns :: "propagation_job list \<times> ('r, 'w) processor \<Rightarrow> bool" where
  "propWG_Wait_returns s \<longleftrightarrow> fst s = []"

subsection \<open>The server\<close>

datatype server_exit = SExit_graph graph_error | SExit_redis | SExit_listen

definition server_main ::
  "('r, 'w, 'b, 'c) host \<Rightarrow> string \<Rightarrow> string \<Rightarrow> string \<Rightarrow> int \<Rightarrow> int64 \<Rightarrow> 'r
   \<Rightarrow> (server_exit + TransitService \<times> AlertBroker) \<times> 'r" where
  "server_main H configPath dataDir agencyID port now r =
     (let propCfg = (case LoadConfig (ho_ReadFile H) (ho_yaml H) configPath of
                       Inl e \<Rightarrow> DefaultConfig
                     | Inr cfg \<Rightarrow> ic_Propagation cfg)
      in case BuildGraph (ho_loadLocation H) (ho_local H) (ho_dir H dataDir) now of
           Inl e \<Rightarrow> (Inl (SExit_graph e), r)
         | Inr g \<Rightarrow>
             (case ho_Ping H r of
                (False, r1) \<Rightarrow> (Inl SExit_redis, r1)
              | (True, r1) \<Rightarrow>
                  let engine = NewPropagationEngine g True True agencyID propCfg;
                      alerts = NewAlertBroker;
                      svc = \<lparr>sv_graph = g, sv_engine = engine, sv_agencyID = agencyID\<rparr>
                  in if ho_Listen H ('':'' @ itoa port) then (Inr (svc, alerts), r1) else (Inl SExit_listen, r1)))"

section \<open>What a start leaves behind\<close>

lemma loaded_config_set: "LoadConfig ReadFile unmarshal path = Inr cfg \<Longrightarrow> config_set (ic_Propagation cfg)"
  by (auto simp: LoadConfig_def config_defaults_def Let_def with_defaults_set split: option.splits)

lemma new_handler_fields [simp]:
  "ch_rdb (new_handler H cfg g ip pp) = ho_redis H" "ch_graph (new_handler H cfg g ip pp) = g"
  "ch_engine (new_handler H cfg g ip pp) = NewPropagationEngine g True True (ic_AgencyID cfg) (ic_Propagation cfg)"
  "ch_eval (new_handler H cfg g ip pp) = \<lparr>el_graph = g, el_agencyID = ic_AgencyID cfg\<rparr>"
  "ch_unmarshal (new_handler H cfg g ip pp) = ho_unmarshal_event H"
  by (simp_all add: new_handler_def)

text \<open>Every start ends in one of its seven outcomes.\<close>

abbreviation consumer_config :: sarama_config where
  "consumer_config \<equiv> NewConfig\<lparr>sc_Return_Errors := Some True, sc_Offsets_Initial := Some OffsetNewest\<rparr>"

definition prepared ::
  "('r, 'w, 'b, 'c) host \<Rightarrow> string \<Rightarrow> string \<Rightarrow> int64 \<Rightarrow> FileConfig \<Rightarrow> TransitGraph \<Rightarrow> bool" where
  "prepared H c d now cfg g \<longleftrightarrow> LoadConfig (ho_ReadFile H) (ho_yaml H) c = Inr cfg
     \<and> BuildGraph (ho_loadLocation H) (ho_local H) (ho_dir H d) now = Inr g"

lemma processor_main_cases:
  assumes "processor_main H c d now r w = (res, r', w')"
  obtains
    (config) e where "res = Inl (PExit_config e)" "LoadConfig (ho_ReadFile H) (ho_yaml H) c = Inl e" "r' = r" "w' = w"
  | (graph) cfg e where "res = Inl (PExit_graph e)" "LoadConfig (ho_ReadFile H) (ho_yaml H) c = Inr cfg"
      "BuildGraph (ho_loadLocation H) (ho_local H) (ho_dir H d) now = Inl e" "r' = r" "w' = w"
  | (redis) cfg g where "res = Inl PExit_redis" "prepared H c d now cfg g" "ho_Ping H r = (False, r')" "w' = w"
  | (impact) cfg g e where "res = Inl (PExit_impact_publisher e)" "prepared H c d now cfg g" "ho_Ping H r = (True, r')"
      "NewKafkaImpactPublisher (ho_kafka H) (ic_KafkaBrokers cfg) transferImpactsTopic 10 w = (Inl e, w')"
  | (prediction) cfg g e impactPub w1 where "res = Inl (PExit_prediction_publisher e)" "prepared H c d now cfg g"
      "ho_Ping H r = (True, r')"
      "NewKafkaImpactPublisher (ho_kafka H) (ic_KafkaBrokers cfg) transferImpactsTopic 10 w = (Inr impactPub, w1)"
      "NewKafkaPredictionPublisher (ho_kafka H) (ic_KafkaBrokers cfg) networkPredictionsTopic 10 w1 = (Inl e, w')"
  | (group) cfg g e impactPub w1 predPub w2 where "res = Inl (PExit_consumer_group e)" "prepared H c d now cfg g"
      "ho_Ping H r = (True, r')"
      "NewKafkaImpactPublisher (ho_kafka H) (ic_KafkaBrokers cfg) transferImpactsTopic 10 w = (Inr impactPub, w1)"
      "NewKafkaPredictionPublisher (ho_kafka H) (ic_KafkaBrokers cfg) networkPredictionsTopic 10 w1 = (Inr predPub, w2)"
      "NewConsumerGroup (ho_kafka H) (ic_KafkaBrokers cfg) ''processor-group'' consumer_config w2 = (Inl e, w')"
  | (started) cfg g impactPub w1 predPub w2 grp where
      "res = Inr \<lparr>sp_handler = new_handler H cfg g impactPub predPub, sp_state = new_processor r' w', sp_group = grp,
               sp_topic = ic_KafkaTopic cfg\<rparr>" "prepared H c d now cfg g" "ho_Ping H r = (True, r')"
      "NewKafkaImpactPublisher (ho_kafka H) (ic_KafkaBrokers cfg) transferImpactsTopic 10 w = (Inr impactPub, w1)"
      "NewKafkaPredictionPublisher (ho_kafka H) (ic_KafkaBrokers cfg) networkPredictionsTopic 10 w1 = (Inr predPub, w2)"
      "NewConsumerGroup (ho_kafka H) (ic_KafkaBrokers cfg) ''processor-group'' consumer_config w2 = (Inr grp, w')"
proof -
  obtain ping r1 where ping: "ho_Ping H r = (ping, r1)" by fastforce
  show thesis
  proof (cases "LoadConfig (ho_ReadFile H) (ho_yaml H) c")
    case (Inl e)
    with assms show thesis by (intro that(1)) (auto simp: processor_main_def)
  next
    case cfg: (Inr cfg)
    obtain i w1 where i: "NewKafkaImpactPublisher (ho_kafka H) (ic_KafkaBrokers cfg) transferImpactsTopic 10 w = (i, w1)"
      by fastforce
    obtain p w2 where p: "NewKafkaPredictionPublisher (ho_kafka H) (ic_KafkaBrokers cfg) networkPredictionsTopic 10 w1 = (p, w2)"
      by fastforce
    obtain q w3 where q: "NewConsumerGroup (ho_kafka H) (ic_KafkaBrokers cfg) ''processor-group'' consumer_config w2 = (q, w3)"
      by fastforce
    note run = assms [unfolded processor_main_def cfg, simplified, unfolded ping]
    show thesis
    proof (cases "BuildGraph (ho_loadLocation H) (ho_local H) (ho_dir H d) now")
      case (Inl e)
      with run cfg show thesis by (intro that(2)) auto
    next
      case g: (Inr g)
      have pre: "prepared H c d now cfg g" using cfg g by (simp add: prepared_def)
      show thesis
      proof (cases ping)
        case False
        with run g pre ping show thesis by (intro that(3)) auto
      next
        case True
        note t = run [unfolded g True, simplified, unfolded i, simplified]
        show thesis
        proof (cases i)
          case (Inl e)
          with t i pre ping True show thesis by (intro that(4)) auto
        next
          case ip: (Inr impactPub)
          note t = t [unfolded ip, simplified, unfolded p, simplified]
          show thesis
          proof (cases p)
            case (Inl e)
            with t p i ip pre ping True show thesis by (intro that(5)) auto
          next
            case pp: (Inr predPub)
            note t = t [unfolded pp, simplified, unfolded q, simplified]
            show thesis
            proof (cases q)
              case (Inl e)
              with t q p i ip pp pre ping True show thesis by (intro that(6)) auto
            next
              case (Inr grp)
              with t q p i ip pp pre ping True show thesis by (intro that(7)) auto
            qed
          qed
        qed
      qed
    qed
  qed
qed

context kafka_cluster
begin

lemma impact_publisher:
  "NewKafkaImpactPublisher S bs t n w = (res, w') \<Longrightarrow> publisher_outcome view t w (res, w')"
  using connect_outcome by (metis NewKafkaImpactPublisher_def transfer_ensureTopic_def)

lemma prediction_publisher:
  "NewKafkaPredictionPublisher S bs t n w = (res, w') \<Longrightarrow> publisher_outcome view t w (res, w')"
  using connect_outcome by (metis NewKafkaPredictionPublisher_def propagation_ensureTopic_def)

end

section \<open>Several lives\<close>

text \<open>One life of a processor: a start that exits, or one that runs for any number of transitions before it
  ends. The world it leaves is where the next life starts.\<close>

definition one_life ::
  "('r \<Rightarrow> keyspace) \<Rightarrow> ('r, 'w, 'b, 'c) host \<Rightarrow> string \<Rightarrow> string \<Rightarrow> location \<Rightarrow> 'r \<times> 'w \<Rightarrow> 'r \<times> 'w \<Rightarrow> bool" where
  "one_life ks H c d local s s' \<longleftrightarrow>
     (\<exists>now res r' w'. processor_main H c d now (fst s) (snd s) = (res, r', w')
        \<and> (case res of
             Inl e \<Rightarrow> s' = (r', w')
           | Inr p \<Rightarrow> \<exists>st. (processor_step ks (sp_handler p) local)\<^sup>*\<^sup>* (sp_state p) st
                          \<and> s' = (pc_redis st, pc_broker st)))"

context redis_client
begin

lemma one_life_ok:
  assumes "one_life ks H c d local s s'" "ho_redis H = R" "plain_events (ho_unmarshal_event H)"
    and ping: "\<And>r ok r'. ho_Ping H r = (ok, r') \<Longrightarrow> ks r' = ks r"
    and "all_stored_ok (delay_table (ks (fst s)))"
  shows "all_stored_ok (delay_table (ks (fst s')))"
proof -
  obtain now res r' w' where m: "processor_main H c d now (fst s) (snd s) = (res, r', w')"
    and life: "case res of Inl e \<Rightarrow> s' = (r', w')
      | Inr p \<Rightarrow> \<exists>st. (processor_step ks (sp_handler p) local)\<^sup>*\<^sup>* (sp_state p) st \<and> s' = (pc_redis st, pc_broker st)"
    using assms(1) by (auto simp: one_life_def)
  from m show ?thesis
  proof (cases rule: processor_main_cases)
    case (started cfg g impactPub w1 predPub w2 grp)
    let ?h = "new_handler H cfg g impactPub predPub"
    from life started(1) obtain st where
      run: "(processor_step ks ?h local)\<^sup>*\<^sup>* (new_processor r' w') st" "s' = (pc_redis st, pc_broker st)" by auto
    have "processor_ok ks (new_processor r' w')"
      using assms(5) ping [OF started(3)] by (simp add: processor_ok_def new_processor_def)
    from processor_run_ok [OF run(1) _ _ this] assms(2,3) run(2) show ?thesis by (simp add: processor_ok_def)
  qed (use life assms(5) ping in auto)
qed

lemma lives_ok:
  assumes "(one_life ks H c d local)\<^sup>*\<^sup>* s s'" "ho_redis H = R" "plain_events (ho_unmarshal_event H)"
    "\<And>r ok r'. ho_Ping H r = (ok, r') \<Longrightarrow> ks r' = ks r" "all_stored_ok (delay_table (ks (fst s)))"
  shows "all_stored_ok (delay_table (ks (fst s')))"
  using assms(1,5) by (induction rule: rtranclp_induct) (auto intro: one_life_ok assms(2,3,4))

end

section \<open>Shutting down\<close>

text \<open>Three calls in a row are one \<open>runPropagation\<close>.\<close>

fun run_job ::
  "('r, 'w, 'b) consumerHandler \<Rightarrow> location \<Rightarrow> int64 \<Rightarrow> int \<Rightarrow> nat \<Rightarrow> propagation_job list \<Rightarrow> ('r, 'w) processor
   \<Rightarrow> ('r, 'w) processor option" where
  "run_job h local now nano n [] st = Some st"
| "run_job h local now nano 0 (j # js) st = None"
| "run_job h local now nano (Suc n) (j # js) st =
     (case advance h local now nano j st of None \<Rightarrow> None | Some (next, st') \<Rightarrow> run_job h local now nano n next st')"

lemma run_job_runPropagation: "run_job h local now nano 3 [Started impact] st = runPropagation h local now nano impact st"
  by (auto simp: runPropagation_def eval_nat_numeral split: option.split prod.split)

text \<open>No call waits for another, and the last is the third at most.\<close>

fun calls_left :: "propagation_job \<Rightarrow> nat" where
  "calls_left (Started impact) = 3" | "calls_left (Propagated impact res) = 2" | "calls_left (Tracked impact res) = 1"

lemma advance_total: "\<exists>next st'. advance h local now nano job st = Some (next, st')"
proof (cases job)
  case (Started impact)
  show ?thesis unfolding Started
    by (rule propagate_items [of "ch_rdb h" local "ch_engine h" now impact "pc_redis st"]) auto
next
  case (Propagated impact res)
  obtain err seq' r1 where "TrackPrediction (ch_rdb h) local (ch_eval h) impact res now nano (pc_seq st) (pc_redis st)
    = (err, seq', r1)" using prod_cases3 by blast
  then show ?thesis by (simp add: Propagated)
qed simp

lemma advance_calls:
  "advance h local now nano job st = Some (next, st') \<Longrightarrow> sum_list (map calls_left next) < calls_left job"
  by (cases job) (auto split: option.splits prod.splits)

lemma shutdown_bound:
  "(shutdown_step h local ^^ n) (js, st) s \<Longrightarrow> n + sum_list (map calls_left (fst s)) \<le> sum_list (map calls_left js)"
proof (induction n arbitrary: s)
  case (Suc n)
  from Suc.prems obtain s1 where s1: "(shutdown_step h local ^^ n) (js, st) s1" "shutdown_step h local s1 s" by auto
  from s1(2) have "sum_list (map calls_left (fst s)) < sum_list (map calls_left (fst s1))"
    by cases (auto dest!: advance_calls)
  with Suc.IH [OF s1(1)] show ?case by simp
qed simp

text \<open>What the propagations have done: \<open>done\<close> are those that ended, with their results, in that order; the
  results of the others that have one came from the engine too.\<close>

definition propagated_in ::
  "('r, 'w, 'b) consumerHandler \<Rightarrow> location \<Rightarrow> propagation_job list \<times> ('r, 'w) processor \<Rightarrow> TransferImpact \<Rightarrow> PropagationResult
   \<Rightarrow> bool" where
  "propagated_in h local s0 impact res \<longleftrightarrow>
     (\<exists>js s now r'. (shutdown_step h local)\<^sup>*\<^sup>* s0 (js, s) \<and> Started impact \<in> set js
        \<and> Propagate (ch_rdb h) local (ch_engine h) now impact (pc_redis s) = Some (res, r'))"

fun job_ok ::
  "('r, 'w, 'b) consumerHandler \<Rightarrow> location \<Rightarrow> propagation_job list \<times> ('r, 'w) processor \<Rightarrow> propagation_job \<Rightarrow> bool" where
  "job_ok h local s0 (Started impact) = True"
| "job_ok h local s0 (Propagated impact res) = (propagated_in h local s0 impact res \<and> pr_Impacts res \<noteq> [])"
| "job_ok h local s0 (Tracked impact res) = (propagated_in h local s0 impact res \<and> pr_Impacts res \<noteq> [])"

definition accounted ::
  "('r, 'w, 'b) consumerHandler \<Rightarrow> location \<Rightarrow> propagation_job list \<times> ('r, 'w) processor
   \<Rightarrow> (TransferImpact \<times> PropagationResult) list \<Rightarrow> propagation_job list \<times> ('r, 'w) processor \<Rightarrow> bool" where
  "accounted h local s0 done s \<longleftrightarrow>
     mset (map fst done) + mset (map job_impact (fst s)) = mset (map job_impact (fst s0))
     \<and> pc_broker (snd s) = foldl (\<lambda>p res. snd (ch_predPub h res p)) (pc_broker (snd s0))
                              (filter (\<lambda>res. pr_Impacts res \<noteq> []) (map snd done))
     \<and> (\<forall>(impact, res)\<in>set done. propagated_in h local s0 impact res) \<and> (\<forall>j\<in>set (fst s). job_ok h local s0 j)"

lemma advance_accounted:
  assumes "accounted h local s0 done (xs @ job # ys, st)" "(shutdown_step h local)\<^sup>*\<^sup>* s0 (xs @ job # ys, st)"
    and "advance h local now nano job st = Some (next, st')"
  shows "\<exists>done'. accounted h local s0 done' (xs @ next @ ys, st'\<lparr>pc_propSem := P\<rparr>)"
proof (cases job)
  case (Started impact)
  obtain res r1 where p: "Propagate (ch_rdb h) local (ch_engine h) now impact (pc_redis st) = Some (res, r1)"
    using assms(3) by (auto simp: Started split: option.splits)
  have "propagated_in h local s0 impact res" unfolding propagated_in_def using assms(2) p Started by fastforce
  note facts = this assms(1,3) p Started
  show ?thesis
  proof (cases "pr_Impacts res = []")
    case True
    with facts show ?thesis by (intro exI [of _ "done @ [(impact, res)]"]) (auto simp: accounted_def)
  next
    case False
    with facts show ?thesis by (intro exI [of _ "done"]) (auto simp: accounted_def)
  qed
next
  case (Propagated impact res)
  then show ?thesis using assms(1,3) by (intro exI [of _ "done"]) (auto simp: accounted_def split: prod.splits)
next
  case (Tracked impact res)
  then show ?thesis using assms(1,3) by (intro exI [of _ "done @ [(impact, res)]"]) (auto simp: accounted_def)
qed

lemma shutdown_accounted:
  assumes "(shutdown_step h local)\<^sup>*\<^sup>* s0 s" "\<forall>j\<in>set (fst s0). \<exists>impact. j = Started impact"
  shows "\<exists>done. accounted h local s0 done s"
  using assms(1)
proof (induction rule: rtranclp_induct)
  case base
  show ?case using assms(2) by (intro exI [of _ "[]"]) (auto simp: accounted_def)
next
  case (step s1 s2)
  from step(2) step(1,3) show ?case by cases (auto dest: advance_accounted)
qed

section \<open>Properties\<close>

text \<open>The components of a started processor share the graph, the agency and the parameters.\<close>

definition wired :: "('r, 'w, 'b) started \<Rightarrow> FileConfig \<Rightarrow> TransitGraph \<Rightarrow> bool" where
  "wired p cfg g \<longleftrightarrow>
     (let h = sp_handler p
      in ch_graph h = g \<and> pe_graph (ch_engine h) = g \<and> el_graph (ch_eval h) = g
       \<and> pe_agencyID (ch_engine h) = ic_AgencyID cfg \<and> el_agencyID (ch_eval h) = ic_AgencyID cfg
       \<and> pe_cfg (ch_engine h) = ic_Propagation cfg \<and> sp_topic p = ic_KafkaTopic cfg)"

lemma new_handler_wired:
  "config_set (ic_Propagation cfg) \<Longrightarrow>
   wired \<lparr>sp_handler = new_handler H cfg g ip pp, sp_state = st, sp_group = grp, sp_topic = ic_KafkaTopic cfg\<rparr> cfg g"
  by (simp add: wired_def NewPropagationEngine_def with_defaults_id)

text \<open>C37: a start of the processor writes neither to Redis nor to a topic and leaves no admin client open. It goes
  through its stages in this order: configuration, graph, Redis, the publisher of impacts, that of
  predictions, the consumer group. It exits with the error of the first stage that fails, every stage before
  it having succeeded (nothing of Kafka is touched before Redis answers), or runs when none does: then the
  configuration is complete, the graph is well formed, handler, engine and evaluator share both, and the
  two output topics exist.\<close>

theorem processor_main_outcome:
  assumes "kafka_cluster (ho_kafka H) view part" and "\<And>r ok r'. ho_Ping H r = (ok, r') \<Longrightarrow> ks r' = ks r"
    and "processor_main H c d now r w = (res, r', w')"
  defines "load \<equiv> LoadConfig (ho_ReadFile H) (ho_yaml H) c"
    and "build \<equiv> BuildGraph (ho_loadLocation H) (ho_local H) (ho_dir H d) now"
    and "impactPub cfg \<equiv> NewKafkaImpactPublisher (ho_kafka H) (ic_KafkaBrokers cfg) ''transfer-impacts'' 10"
    and "predPub cfg \<equiv> NewKafkaPredictionPublisher (ho_kafka H) (ic_KafkaBrokers cfg) ''network-predictions'' 10"
    and "joined cfg \<equiv> NewConsumerGroup (ho_kafka H) (ic_KafkaBrokers cfg) ''processor-group''
       (NewConfig\<lparr>sc_Return_Errors := Some True, sc_Offsets_Initial := Some OffsetNewest\<rparr>)"
  shows "ks r' = ks r \<and> cl_log (view w') = cl_log (view w) \<and> cl_admins (view w') = cl_admins (view w)
    \<and> (case res of
         Inl (PExit_config e) \<Rightarrow> load = Inl e \<and> r' = r \<and> w' = w
       | Inl (PExit_graph e) \<Rightarrow> \<exists>cfg. load = Inr cfg \<and> build = Inl e \<and> r' = r \<and> w' = w
       | Inl PExit_redis \<Rightarrow> \<exists>cfg g. load = Inr cfg \<and> build = Inr g \<and> ho_Ping H r = (False, r') \<and> w' = w
       | Inl (PExit_impact_publisher e) \<Rightarrow> \<exists>cfg g. load = Inr cfg \<and> build = Inr g \<and> ho_Ping H r = (True, r')
           \<and> impactPub cfg w = (Inl e, w')
       | Inl (PExit_prediction_publisher e) \<Rightarrow> \<exists>cfg g ip w1. load = Inr cfg \<and> build = Inr g \<and> ho_Ping H r = (True, r')
           \<and> impactPub cfg w = (Inr ip, w1) \<and> predPub cfg w1 = (Inl e, w')
       | Inl (PExit_consumer_group e) \<Rightarrow> \<exists>cfg g ip w1 pp w2. load = Inr cfg \<and> build = Inr g \<and> ho_Ping H r = (True, r')
           \<and> impactPub cfg w = (Inr ip, w1) \<and> predPub cfg w1 = (Inr pp, w2) \<and> joined cfg w2 = (Inl e, w')
       | Inr p \<Rightarrow> \<exists>cfg g ip w1 pp w2. load = Inr cfg \<and> build = Inr g \<and> ho_Ping H r = (True, r')
           \<and> impactPub cfg w = (Inr ip, w1) \<and> predPub cfg w1 = (Inr pp, w2) \<and> joined cfg w2 = (Inr (sp_group p), w')
           \<and> config_set (ic_Propagation cfg) \<and> graph_wf g \<and> wired p cfg g \<and> sp_state p = new_processor r' w'
           \<and> ch_publish (sp_handler p) = publish_impact (ho_kafka H) (ho_marshal_impact H) ip
           \<and> ch_predPub (sp_handler p) = publish_prediction (ho_kafka H) (ho_marshal_result H) pp
           \<and> {''transfer-impacts'', ''network-predictions''} \<subseteq> cl_topics (view w'))"
  using assms(3)
proof (cases rule: processor_main_cases)
  case (started cfg g ip w1 pp w2 grp)
  note kafka = kafka_cluster.impact_publisher [OF assms(1) started(4)]
    kafka_cluster.prediction_publisher [OF assms(1) started(5)] kafka_cluster.consumer_group [OF assms(1) started(6)]
  then have k: "cl_log (view w') = cl_log (view w) \<and> cl_admins (view w') = cl_admins (view w)
      \<and> {transferImpactsTopic, networkPredictionsTopic} \<subseteq> cl_topics (view w')"
    by (auto simp: publisher_outcome_def with_topics_iff)
  have l: "load = Inr cfg" "build = Inr g" using started(2) by (simp_all add: prepared_def load_def build_def)
  note c = loaded_config_set [OF l(1) [unfolded load_def]]
  have "wired \<lparr>sp_handler = new_handler H cfg g ip pp, sp_state = new_processor r' w',
      sp_group = grp, sp_topic = ic_KafkaTopic cfg\<rparr> cfg g"
    by (rule new_handler_wired [OF c])
  with k c l started(3-6) BuildGraph_wf [OF l(2) [unfolded build_def]] assms(2) [OF started(3)] show ?thesis
    unfolding started(1) sum.case transferImpactsTopic_def networkPredictionsTopic_def
    by (intro conjI exI [of _ cfg] exI [of _ g] exI [of _ ip] exI [of _ w1] exI [of _ pp] exI [of _ w2])
      (simp_all add: impactPub_def predPub_def joined_def new_handler_def)
next
  case (impact cfg g e)
  with kafka_cluster.impact_publisher [OF assms(1) impact(4)] assms(2) [OF impact(3)] show ?thesis
    by (auto simp: publisher_outcome_def prepared_def load_def build_def impactPub_def transferImpactsTopic_def)
next
  case (prediction cfg g e ip w1)
  with kafka_cluster.impact_publisher [OF assms(1) prediction(4)]
    kafka_cluster.prediction_publisher [OF assms(1) prediction(5)] assms(2) [OF prediction(3)] show ?thesis
    by (auto simp: publisher_outcome_def prepared_def load_def build_def impactPub_def predPub_def transferImpactsTopic_def
        networkPredictionsTopic_def)
next
  case (group cfg g e ip w1 pp w2)
  with kafka_cluster.impact_publisher [OF assms(1) group(4)] kafka_cluster.prediction_publisher [OF assms(1) group(5)]
    kafka_cluster.consumer_group [OF assms(1) group(6)] assms(2) [OF group(3)] show ?thesis
    by (auto simp: publisher_outcome_def with_topics_iff prepared_def load_def build_def impactPub_def predPub_def joined_def
        transferImpactsTopic_def networkPredictionsTopic_def)
qed (use assms(2) in \<open>auto simp: prepared_def load_def build_def\<close>)

text \<open>A machine with the sample schedule, an in-memory Redis and an in-memory cluster.\<close>

definition demo_host :: "FileConfig option \<Rightarrow> (mem_redis, unit mem_cluster, unit, FileConfig) host" where
  "demo_host file =
     \<lparr>ho_ReadFile = (\<lambda>path. file), ho_yaml = Some, ho_loadLocation = (\<lambda>_. None), ho_local = (\<lambda>_. 0),
      ho_dir = (\<lambda>_. demo_dir), ho_redis = mem_client, ho_Ping = (\<lambda>r. (True, r)), ho_kafka = mem_sarama,
      ho_marshal_impact = (\<lambda>_. Some ()), ho_marshal_result = (\<lambda>_. Some ()),
      ho_unmarshal_event = (\<lambda>_. Some (demo_delay ARRIVAL_DELAY ''a'' 400 100)), ho_Listen = (\<lambda>addr. True)\<rparr>"

definition demo_config :: FileConfig where
  "demo_config =
     \<lparr>ic_AgencyID = ''mta'', ic_Feeds = [], ic_PollingDefaultInterval = 0, ic_KafkaBrokers = [], ic_KafkaTopic = [],
      ic_Propagation = DefaultConfig\<rparr>"

definition demo_kafka :: "unit mem_cluster" where
  "demo_kafka = \<lparr>mc_topics = [], mc_admins = [], mc_producers = [], mc_config = (\<lambda>_. NewConfig), mc_tried = [], mc_log = [],
     mc_acked = [], mc_faults = []\<rparr>"

lemma demo_host_fields [simp]:
  "ho_redis (demo_host file) = mem_client" "ho_Ping (demo_host file) r = (True, r)" "ho_kafka (demo_host file) = mem_sarama"
  "plain_events (ho_unmarshal_event (demo_host file))"
  using demo_delay_ok by (auto simp: demo_host_def plain_events_def in_i32_def in_i64_def)

lemma demo_processor_starts:
  "\<exists>p. processor_main (demo_host (Some demo_config)) ''config.yaml'' ''data'' 1728000000 empty_redis demo_kafka
      = (Inr p, empty_redis, pc_broker (sp_state p))
     \<and> ch_graph (sp_handler p) = demo_graph \<and> ch_rdb (sp_handler p) = mem_client
     \<and> ch_unmarshal (sp_handler p) = (\<lambda>_. Some (demo_delay ARRIVAL_DELAY ''a'' 400 100))
     \<and> sp_state p = new_processor empty_redis (pc_broker (sp_state p))"
  by (auto simp: processor_main_def demo_host_def demo_built LoadConfig_def new_publisher_defs connect_producer_def
      ensure_topic_with_def create_missing_def mem_sarama_def next_fault_def demo_kafka_def new_processor_def)

theorem processor_main_outcome_witness:
  "\<exists>p w cfg. processor_main (demo_host (Some demo_config)) ''config.yaml'' ''data'' 1728000000 empty_redis demo_kafka
       = (Inr p, empty_redis, w)
     \<and> wired p cfg demo_graph \<and> ''transfer-impacts'' \<in> set (mc_topics w)"
proof -
  from demo_processor_starts obtain p where p: "processor_main (demo_host (Some demo_config)) ''config.yaml'' ''data'' 1728000000
      empty_redis demo_kafka = (Inr p, empty_redis, pc_broker (sp_state p))" "ch_graph (sp_handler p) = demo_graph" by blast
  have "kafka_cluster (ho_kafka (demo_host (Some demo_config))) (mem_view (\<lambda>_ _. 0)) (\<lambda>_ _. 0)"
    using memk.kafka_cluster_axioms by simp
  from processor_main_outcome [OF this _ p(1), of mem_ks] p show ?thesis
    by (auto simp: wired_def Let_def mem_view_def transferImpactsTopic_def)
qed

text \<open>C16: however often the processor is started, runs, crashes or exits, every delay document in Redis stays
  well formed: its key is the one of its fields and its confidence lies between one half and one.\<close>

theorem delays_survive_restarts:
  assumes "redis_client (ho_redis H) ks" and "\<And>r ok r'. ho_Ping H r = (ok, r') \<Longrightarrow> ks r' = ks r"
    and "plain_events (ho_unmarshal_event H)" and "delay_table (ks r) = (\<lambda>_. None)"
    and "(one_life ks H c d local)\<^sup>*\<^sup>* (r, w) (r', w')" and "delay_table (ks r') k = Some ds"
  shows "stored_ok k ds"
proof -
  have "all_stored_ok (delay_table (ks (fst (r, w))))" by (simp add: assms(4) all_stored_ok_def)
  from redis_client.lives_ok [OF assms(1,5) refl assms(3,2) this] assms(6) show ?thesis by (simp add: all_stored_ok_def)
qed

theorem delays_survive_restarts_witness:
  "\<exists>s ds. (one_life mem_ks (demo_host (Some demo_config)) ''config.yaml'' ''data'' (\<lambda>_. 0))\<^sup>*\<^sup>* (empty_redis, demo_kafka) s
     \<and> delay_table (mem_ks (fst s)) ''delay:MTA:W_1:a'' = Some ds \<and> stored_ok ''delay:MTA:W_1:a'' ds"
proof -
  let ?life = "one_life mem_ks (demo_host (Some demo_config)) ''config.yaml'' ''data'' (\<lambda>_. 0)"
  from demo_processor_starts obtain p where p: "processor_main (demo_host (Some demo_config)) ''config.yaml'' ''data'' 1728000000
      empty_redis demo_kafka = (Inr p, empty_redis, pc_broker (sp_state p))"
    "ch_rdb (sp_handler p) = mem_client" "ch_graph (sp_handler p) = demo_graph"
    "ch_unmarshal (sp_handler p) = (\<lambda>_. Some (demo_delay ARRIVAL_DELAY ''a'' 400 100))"
    "sp_state p = new_processor empty_redis (pc_broker (sp_state p))" by blast
  let ?d = "\<lparr>dl_Message = \<lparr>cm_Offset = 9, cm_Value = ()\<rparr>, dl_HighWaterMark = 10, dl_now = 200, dl_cancelled = (\<lambda>_. False)\<rparr>"
  obtain err st where c: "consume_message (sp_handler p) (\<lambda>_. 0) ''t/0'' ?d (sp_state p) = (err, st)" by fastforce
  have life: "?life (empty_redis, demo_kafka) (pc_redis st, pc_broker st)"
    unfolding one_life_def using p(1) processor_step.message [OF c, of mem_ks]
    by (intro exI [of _ 1728000000] exI [of _ "Inr p"]) auto
  have r: "pc_redis (sp_state p) = empty_redis" using p(5) by (metis new_processor_def processor.select_convs(1))
  have plain: "plain_events (ch_unmarshal (sp_handler p))"
    using demo_host_fields(4) [of None] p(4) by (simp add: demo_host_def)
  have "healthy_redis.ready mem_ks mem_healthy (sp_state p)"
    by (simp add: mem.ready_def r mem_healthy_def decodable_def empty_redis_def mem_ks_def)
  from mem.consume_message_ready [OF c p(2) plain this]
  have "delay_table (mem_ks (pc_redis st)) = apply_event ''A'' (demo_delay ARRIVAL_DELAY ''a'' 400 100) (\<lambda>_. None)"
    by (simp add: effect_def p(3,4) r empty_table enrichEvent_def enrichable_def demo_delay_def delay_route_def)
  then obtain ds where ds: "delay_table (mem_ks (pc_redis st)) ''delay:MTA:W_1:a'' = Some ds"
    by (auto simp: apply_event_def demo_delay_def event_key_def delayKey_def)
  have "stored_ok ''delay:MTA:W_1:a'' ds"
    by (rule delays_survive_restarts [OF _ _ _ _ r_into_rtranclp [of ?life, OF life] ds])
      (use mem.redis_client_axioms empty_table in auto)
  with ds life show ?thesis by (intro exI [of _ "(pc_redis st, pc_broker st)"]) auto
qed

text \<open>C38: a shutdown waits for the propagations in flight, and not for ever. They run concurrently, in any
  interleaving; none ever waits for another, and after at most three calls each there is none left. Every
  propagation of the pool ends exactly once (\<open>done\<close> lists them as they end), with the result that the engine
  gave for its impact while it ran, and what the broker has received are these results, but for those that
  predict nothing.\<close>

theorem shutdown_finishes_propagations:
  assumes "(shutdown_step h local ^^ n) (map Started (pc_propSem st), st) (jobs, st')"
  shows "n \<le> 3 * length (pc_propSem st)
    \<and> (\<forall>xs job ys. jobs = xs @ job # ys \<longrightarrow>
         (\<exists>next st''. shutdown_step h local (jobs, st') (xs @ next @ ys, st'')))
    \<and> (propWG_Wait_returns (jobs, st') \<longrightarrow> pc_propSem st' = [])
    \<and> (\<exists>done. mset (map fst done) + mset (map job_impact jobs) = mset (pc_propSem st)
         \<and> (\<forall>(impact, res)\<in>set done. propagated_in h local (map Started (pc_propSem st), st) impact res)
         \<and> pc_broker st' = foldl (\<lambda>p res. snd (ch_predPub h res p)) (pc_broker st)
                              (filter (\<lambda>res. pr_Impacts res \<noteq> []) (map snd done)))"
proof -
  let ?s0 = "(map Started (pc_propSem st), st)"
  have "sum_list (map (calls_left \<circ> Started) xs) = 3 * length xs" for xs by (induction xs) auto
  then have "n \<le> 3 * length (pc_propSem st)" using shutdown_bound [OF assms] by simp
  moreover have "\<exists>next st''. shutdown_step h local (jobs, st') (xs @ next @ ys, st'')" if "jobs = xs @ job # ys" for xs job ys
    using advance_total [of h local 0 0 job st'] shutdown_step.shutdown [of h local 0 0 job st'] unfolding that by blast
  moreover have run: "(shutdown_step h local)\<^sup>*\<^sup>* ?s0 (jobs, st')" using assms by (rule relpowp_imp_rtranclp)
  have "pc_propSem (snd s) = map job_impact (fst s)" if "(shutdown_step h local)\<^sup>*\<^sup>* ?s0 s" for s
    using that by (induction rule: rtranclp_induct) (auto elim!: shutdown_step.cases simp: comp_def)
  from this [OF run] have "propWG_Wait_returns (jobs, st') \<longrightarrow> pc_propSem st' = []" by (simp add: propWG_Wait_returns_def)
  moreover have "\<forall>j\<in>set (fst ?s0). \<exists>impact. j = Started impact" by auto
  from shutdown_accounted [OF run this] have "\<exists>done. mset (map fst done) + mset (map job_impact jobs) = mset (pc_propSem st)
         \<and> (\<forall>(impact, res)\<in>set done. propagated_in h local ?s0 impact res)
         \<and> pc_broker st' = foldl (\<lambda>p res. snd (ch_predPub h res p)) (pc_broker st)
                              (filter (\<lambda>res. pr_Impacts res \<noteq> []) (map snd done))"
    by (auto simp: accounted_def comp_def)
  ultimately show ?thesis by blast
qed

text \<open>One propagation in flight, of the broken transfer of the example; the broker keeps what it receives.\<close>

definition draining_handler :: "(mem_redis, PropagationResult list, unit) consumerHandler" where
  "draining_handler =
     \<lparr>ch_rdb = mem_client, ch_publish = (\<lambda>imp p. (True, p)), ch_engine = demo_engine,
      ch_predPub = (\<lambda>res p. (True, p @ [res])), ch_eval = demo_evaluator, ch_graph = demo_graph, ch_unmarshal = (\<lambda>_. None)\<rparr>"

theorem shutdown_finishes_propagations_witness:
  "\<exists>st' res. (shutdown_step draining_handler (\<lambda>_. 0) ^^ 3)
         (map Started [demo_broken], (new_processor demo_redis [])\<lparr>pc_propSem := [demo_broken]\<rparr>) ([], st')
     \<and> pc_propSem st' = [] \<and> pc_broker st' = [res] \<and> pr_SourceTripId res = ''W_3'' \<and> length (pr_Impacts res) = 2"
proof -
  let ?h = "draining_handler" and ?st = "(new_processor demo_redis [])\<lparr>pc_propSem := [demo_broken]\<rparr>"
  let ?step = "shutdown_step ?h (\<lambda>_. 0)"
  let ?res = "\<lparr>pr_SourceTripId = ''W_3'', pr_SourceStopId = ''P'', pr_SourceDelaySeconds = 400,
      pr_Impacts = [item_impact demo_engine demo_first, item_impact demo_engine demo_second], pr_ComputedAt = 1728036000\<rparr>"
  have f: "ch_rdb ?h = mem_client" "ch_engine ?h = demo_engine" "ch_eval ?h = demo_evaluator" "pc_redis ?st = demo_redis"
    by (simp_all add: draining_handler_def new_processor_def)
  have "advance ?h (\<lambda>_. 0) 1728036000 0 (Started demo_broken) ?st
      = Some ([Propagated demo_broken ?res], ?st\<lparr>pc_redis := demo_redis\<rparr>)"
    by (simp add: f demo_propagate)
  from shutdown_step.shutdown [OF this, of "[]" "[]"] obtain s1 where
    1: "?step ([Started demo_broken], ?st) ([Propagated demo_broken ?res], s1)" "pc_broker s1 = []"
    by (simp add: new_processor_def)
  obtain next1 s where a: "advance ?h (\<lambda>_. 0) 1728036000 0 (Propagated demo_broken ?res) s1 = Some (next1, s)"
    using advance_total by blast
  then have "next1 = [Tracked demo_broken ?res]" "pc_broker s = []" using 1(2) by (auto split: prod.splits)
  with shutdown_step.shutdown [OF a, of "[]" "[]"] obtain s2 where
    2: "?step ([Propagated demo_broken ?res], s1) ([Tracked demo_broken ?res], s2)" "pc_broker s2 = []" by simp
  have "advance ?h (\<lambda>_. 0) 1728036000 0 (Tracked demo_broken ?res) s2 = Some ([], s2\<lparr>pc_broker := [?res]\<rparr>)"
    by (simp add: 2(2)) (simp add: draining_handler_def)
  from shutdown_step.shutdown [OF this, of "[]" "[]"] obtain s3 where
    3: "?step ([Tracked demo_broken ?res], s2) ([], s3)" "pc_broker s3 = [?res]" by simp
  have run: "(?step ^^ 3) (map Started (pc_propSem ?st), ?st) ([], s3)"
    using 1(1) 2(1) 3(1) by (auto simp: eval_nat_numeral relcompp_apply)
  from shutdown_finishes_propagations [OF run] have "pc_propSem s3 = []" by (simp add: propWG_Wait_returns_def)
  with run 3(2) show ?thesis by (intro exI [of _ s3] exI [of _ ?res]) simp
qed

text \<open>A server and a processor started on the same files at the same time answer from the same graph and
  predict with the same parameters, and with the very same engine when the server's agency flag names the
  agency of the file. The server starts without a configuration file too, and then predicts with the
  complete defaults.\<close>

theorem server_agrees_with_processor:
  assumes "server_main H c d agencyID port now r = (Inr (svc, alerts), r1)"
  shows "config_set (pe_cfg (sv_engine svc)) \<and> pe_graph (sv_engine svc) = sv_graph svc \<and> ab_subs alerts = []
    \<and> (case processor_main H c d now r w of
         (Inr p, r2, w2) \<Rightarrow> sv_graph svc = ch_graph (sp_handler p)
           \<and> pe_cfg (sv_engine svc) = pe_cfg (ch_engine (sp_handler p))
           \<and> (agencyID = pe_agencyID (ch_engine (sp_handler p)) \<longrightarrow> sv_engine svc = ch_engine (sp_handler p))
       | (Inl (PExit_config e), r2, w2) \<Rightarrow> pe_cfg (sv_engine svc) = DefaultConfig
       | (Inl e, r2, w2) \<Rightarrow> \<not> (\<exists>ge. e = PExit_graph ge) \<and> e \<noteq> PExit_redis)"
proof -
  obtain g where g: "BuildGraph (ho_loadLocation H) (ho_local H) (ho_dir H d) now = Inr g" and ping: "fst (ho_Ping H r)"
    and svc: "sv_graph svc = g" "ab_subs alerts = []"
      "sv_engine svc = NewPropagationEngine g True True agencyID
         (case LoadConfig (ho_ReadFile H) (ho_yaml H) c of Inl e \<Rightarrow> DefaultConfig | Inr cfg \<Rightarrow> ic_Propagation cfg)"
    using assms by (auto simp: server_main_def Let_def NewAlertBroker_def split: sum.splits prod.splits bool.splits if_splits)
  have 1: "config_set (pe_cfg (sv_engine svc)) \<and> pe_graph (sv_engine svc) = sv_graph svc \<and> ab_subs alerts = []"
    by (simp add: svc NewPropagationEngine_def with_defaults_set)
  obtain res r2 w2 where m: "processor_main H c d now r w = (res, r2, w2)" using prod_cases3 by blast
  from m show ?thesis
  proof (cases rule: processor_main_cases)
    case (config e)
    have "WithDefaults DefaultConfig = DefaultConfig" by (simp add: with_defaults_id default_config_set)
    with 1 config m svc(3) show ?thesis by (simp add: NewPropagationEngine_def)
  next
    case (started cfg g' impactPub w1 predPub w2 grp)
    with 1 m svc g show ?thesis by (simp add: NewPropagationEngine_def prepared_def)
  qed (use 1 m g ping in auto)
qed

theorem server_agrees_with_processor_witness:
  "\<exists>svc alerts p w. server_main (demo_host (Some demo_config)) ''config.yaml'' ''data'' ''mta'' 50053 1728000000 empty_redis
       = (Inr (svc, alerts), empty_redis)
     \<and> processor_main (demo_host (Some demo_config)) ''config.yaml'' ''data'' 1728000000 empty_redis demo_kafka
       = (Inr p, empty_redis, w)
     \<and> sv_graph svc = ch_graph (sp_handler p) \<and> pe_cfg (sv_engine svc) = pe_cfg (ch_engine (sp_handler p))"
proof -
  from demo_processor_starts obtain p where p: "processor_main (demo_host (Some demo_config)) ''config.yaml'' ''data'' 1728000000
      empty_redis demo_kafka = (Inr p, empty_redis, pc_broker (sp_state p))" by blast
  obtain svc alerts where s: "server_main (demo_host (Some demo_config)) ''config.yaml'' ''data'' ''mta'' 50053 1728000000
      empty_redis = (Inr (svc, alerts), empty_redis)"
    by (simp add: server_main_def demo_host_def demo_built)
  from server_agrees_with_processor [OF s, of demo_kafka] p s show ?thesis by simp
qed

end
