(* ===== verification/Dashboard.thy ===== *)
theory Dashboard
  imports ServerProps Poller "HOL-Library.Char_ord" "HOL-Library.List_Lexorder"
begin

text \<open>
  The command-line tools: the delay table of \<open>cmd/delays/main.go\<close>, the client of \<open>cmd/client/main.go\<close> and the
  event printer of \<open>cmd/consumer/main.go\<close>. A printed line is a record of the values it shows; padding and
  decimal places are left to \<open>fmt\<close>. Strings are ordered bytewise, as \<open>sort.Strings\<close> does; equal delays, whose
  order \<open>sort.Slice\<close> leaves open, stay in the order of the scan.
\<close>

section \<open>The delay table\<close>

record dash_row =
  dr_RouteID :: string
  dr_TripID :: string
  dr_StopID :: string
  dr_DelaySeconds :: int32
  dr_Confidence :: float64

text \<open>The rows of one route and how many are not shown, if any.\<close>

record dash_block =
  db_route :: string
  db_rows :: "dash_row list"
  db_more :: "nat option"

record dashboard =
  da_agency :: string
  da_blocks :: "dash_block list"
  da_total :: nat

text \<open>The ellipsis is three bytes in UTF-8.\<close>

definition ellipsis :: string where
  "ellipsis = [CHR 0xE2, CHR 0x80, CHR 0xA6]"

definition truncate :: "string \<Rightarrow> nat \<Rightarrow> string" where
  "truncate s mx = (if length s \<le> mx then s else take (mx - 1) s @ ellipsis)"

definition dash_row_of :: "DelayState \<Rightarrow> dash_row" where
  "dash_row_of d =
     \<lparr>dr_RouteID = sd_RouteID d, dr_TripID = truncate (sd_TripID d) 12, dr_StopID = truncate (sd_StopID d) 10,
      dr_DelaySeconds = sd_DelaySeconds d, dr_Confidence = sd_Confidence d\<rparr>"

definition group_by_route :: "DelayState list \<Rightarrow> (string, DelayState list) gomap" where
  "group_by_route found = foldl (\<lambda>m d. mappend (sd_RouteID d) d m) [] found"

definition route_block :: "(string, DelayState list) gomap \<Rightarrow> string \<Rightarrow> dash_block" where
  "route_block byRoute r =
     (let ds = sort_key (\<lambda>d. - sd_DelaySeconds d) (mgetd [] byRoute r);
          limit = (if length ds < 5 then length ds else 5)
      in \<lparr>db_route = r, db_rows = map dash_row_of (take limit ds),
          db_more = (if length ds > limit then Some (length ds - limit) else None)\<rparr>)"

definition render :: "'r RedisClient \<Rightarrow> string \<Rightarrow> 'r \<Rightarrow> (state_error + dashboard) \<times> 'r" where
  "render R agency r =
     (case GetAllActiveDelays R agency r of
        (Inl e, r1) \<Rightarrow> (Inl e, r1)
      | (Inr found, r1) \<Rightarrow>
          let byRoute = group_by_route found;
              routes = sort (map fst byRoute)
          in (Inr \<lparr>da_agency = agency, da_blocks = map (route_block byRoute) routes,
                   da_total = foldl (\<lambda>total rt. total + length (mgetd [] byRoute rt)) 0 routes\<rparr>, r1))"

text \<open>\<open>main\<close>: exit when Redis does not answer; otherwise one table at once and one per tick.\<close>

fun render_loop :: "'r RedisClient \<Rightarrow> string \<Rightarrow> select_case list \<Rightarrow> 'r \<Rightarrow> (state_error + dashboard) list" where
  "render_loop R agency [] r = []"
| "render_loop R agency (CtxDone # cs) r = []"
| "render_loop R agency (Tick # cs) r =
     (case render R agency r of (out, r1) \<Rightarrow> out # render_loop R agency cs r1)"

definition delays_main ::
  "'r RedisClient \<Rightarrow> ('r \<Rightarrow> bool \<times> 'r) \<Rightarrow> string \<Rightarrow> select_case list \<Rightarrow> 'r \<Rightarrow> (state_error + dashboard) list option" where
  "delays_main R ping agency cs r =
     (case ping r of
        (False, r1) \<Rightarrow> None
      | (True, r1) \<Rightarrow> (case render R agency r1 of (out, r2) \<Rightarrow> Some (out # render_loop R agency cs r2)))"

section \<open>The client\<close>

record client_route =
  cr_route :: string
  cr_count :: nat
  cr_delays :: "(string \<times> int32 \<times> float32) list"

record client_report =
  cl_routes :: "client_route list"
  cl_total :: nat
  cl_AsOf :: int64

definition route_lines :: "NetworkStateResponse \<Rightarrow> string \<Rightarrow> client_route" where
  "route_lines resp r =
     (let delays = (case mget (nr_Routes resp) r of None \<Rightarrow> [] | Some rs \<Rightarrow> rs_Delays rs)
      in \<lparr>cr_route = r, cr_count = length delays,
          cr_delays = map (\<lambda>d. (sp_StopName d, sp_DelaySeconds d, sp_Confidence d)) delays\<rparr>)"

definition network_report :: "NetworkStateResponse \<Rightarrow> client_report" where
  "network_report resp =
     (let routes = sort (map fst (nr_Routes resp))
      in \<lparr>cl_routes = map (route_lines resp) routes,
          cl_total = foldl (\<lambda>total r. total + cr_count (route_lines resp r)) 0 routes, cl_AsOf = nr_AsOf resp\<rparr>)"

record alert_line =
  al_level :: string
  al_From :: string
  al_To :: string
  al_Station :: string
  al_Delay :: int32
  al_Margin :: int32
  al_Wait :: int32

definition alert_line_of :: "TransferImpact \<Rightarrow> alert_line" where
  "alert_line_of impact =
     \<lparr>al_level = (if ti_Level impact = BROKEN then ''BROKEN'' else ''AT_RISK''),
      al_From = ti_FromRouteId impact, al_To = ti_ToRouteId impact, al_Station = ti_StationId impact,
      al_Delay = ti_SourceDelaySeconds impact, al_Margin = ti_RemainingMarginSeconds impact,
      al_Wait = ti_AdditionalWaitSeconds impact\<rparr>"

text \<open>What \<open>Recv\<close> yields, with whether the context is done by then. The loop ends on the end of the stream,
  an error, or a context that is done.\<close>

datatype recv_result = EOF | RecvError | Alert TransferImpact

fun alert_lines :: "(recv_result \<times> bool) list \<Rightarrow> alert_line list" where
  "alert_lines [] = []"
| "alert_lines ((res, ctx_done) # rs) =
     (if ctx_done then []
      else case res of
             EOF \<Rightarrow> []
           | RecvError \<Rightarrow> []
           | Alert impact \<Rightarrow> alert_line_of impact # alert_lines rs)"

section \<open>The event printer\<close>

record 'b partition_message =
  pt_Offset :: int64
  pt_Key :: string
  pt_Value :: 'b

record event_line =
  el_partition :: int32
  el_offset :: int64
  el_key :: string
  el_route :: string
  el_trip :: string
  el_stop :: string
  el_delay :: int32
  el_type :: DelayEvent_EventType
  el_predicted :: int64

text \<open>What the \<open>select\<close> of a partition's goroutine takes: the context is done, an error (drained), the end of
  the message channel, or a message.\<close>

datatype 'b consumer_case = ConsumerDone | ConsumerError | ConsumerClosed | ConsumerMsg "'b partition_message"

fun print_partition ::
  "('b \<Rightarrow> DelayEvent option) \<Rightarrow> int32 \<Rightarrow> 'b consumer_case list \<Rightarrow> event_line list" where
  "print_partition unmarshal p [] = []"
| "print_partition unmarshal p (ConsumerDone # cs) = []"
| "print_partition unmarshal p (ConsumerError # cs) = print_partition unmarshal p cs"
| "print_partition unmarshal p (ConsumerClosed # cs) = []"
| "print_partition unmarshal p (ConsumerMsg msg # cs) =
     (case unmarshal (pt_Value msg) of
        None \<Rightarrow> print_partition unmarshal p cs
      | Some ev \<Rightarrow>
          \<lparr>el_partition = p, el_offset = pt_Offset msg, el_key = pt_Key msg, el_route = ev_RouteId ev,
           el_trip = ev_TripId ev, el_stop = ev_StopId ev, el_delay = ev_DelaySeconds ev, el_type = ev_Type ev,
           el_predicted = ev_PredictedArrival ev\<rparr> # print_partition unmarshal p cs)"

text \<open>\<open>main\<close>: exit when there is no client or no list of partitions; a partition that cannot be read is left
  out.\<close>

definition consumer_main ::
  "bool \<Rightarrow> int32 list option \<Rightarrow> (int32 \<Rightarrow> bool) \<Rightarrow> ('b \<Rightarrow> DelayEvent option) \<Rightarrow> (int32 \<Rightarrow> 'b consumer_case list)
   \<Rightarrow> event_line list list option" where
  "consumer_main client_ok partitions can_consume unmarshal cases =
     (if \<not> client_ok then None
      else (case partitions of
              None \<Rightarrow> None
            | Some ps \<Rightarrow> Some (map (\<lambda>p. print_partition unmarshal p (cases p)) (filter can_consume ps))))"

section \<open>Grouping and totals\<close>

definition on_route :: "DelayState list \<Rightarrow> string \<Rightarrow> DelayState list" where
  "on_route found r = filter (\<lambda>d. sd_RouteID d = r) found"

lemma grouped: "mgetd [] (foldl (\<lambda>m d. mappend (sd_RouteID d) d m) m found) r = mgetd [] m r @ on_route found r"
  by (induction found arbitrary: m) (auto simp: on_route_def)

lemma group_by_route_get [simp]: "mgetd [] (group_by_route found) r = on_route found r"
  by (simp add: group_by_route_def grouped)

lemma group_by_route_keys: "wf_map (group_by_route found)" "fst ` set (group_by_route found) = sd_RouteID ` set found"
proof -
  have "wf_map m \<Longrightarrow> wf_map (foldl (\<lambda>m d. mappend (sd_RouteID d) d m) m found)
      \<and> fst ` set (foldl (\<lambda>m d. mappend (sd_RouteID d) d m) m found) = fst ` set m \<union> sd_RouteID ` set found" for m
    by (induction found arbitrary: m) (auto simp: mappend_def dom_update)
  from this [of "[]"] show "wf_map (group_by_route found)" "fst ` set (group_by_route found) = sd_RouteID ` set found"
    by (simp_all add: group_by_route_def)
qed

text \<open>The keys of a map of delays, sorted.\<close>

lemma sorted_keys:
  "wf_map m \<Longrightarrow> fst ` set m = sd_RouteID ` set found \<Longrightarrow> sort (map fst m) = sorted_list_of_set (sd_RouteID ` set found)"
  using sorted_list_of_set_sort_remdups [of "map fst m"] by (simp add: wf_map_def distinct_remdups_id)

lemma foldl_count: "foldl (\<lambda>total x. total + f x) (n :: nat) xs = n + (\<Sum>x\<leftarrow>xs. f x)"
  by (induction xs arbitrary: n) (simp_all add: add.assoc)

lemma sum_on_routes: "(\<Sum>r\<leftarrow>sorted_list_of_set (sd_RouteID ` set found). length (on_route found r)) = length found"
proof -
  have "(\<Sum>r \<in> A. length (on_route found r)) = length found" if "finite A" "sd_RouteID ` set found \<subseteq> A" for A
    using that(2)
  proof (induction found)
    case (Cons d found)
    have "(\<Sum>r \<in> A. length (on_route (d # found) r))
        = (\<Sum>r \<in> A. (if r = sd_RouteID d then 1 else 0) + length (on_route found r))"
      by (rule sum.cong) (auto simp: on_route_def)
    also have "\<dots> = 1 + (\<Sum>r \<in> A. length (on_route found r))"
      using Cons.prems that(1) by (simp add: sum.distrib)
    finally show ?case using Cons by simp
  qed (simp add: on_route_def)
  from this [of "sd_RouteID ` set found"] show ?thesis by (simp add: sum_list_distinct_conv_sum_set)
qed

lemma network_keys:
  "wf_map (foldl (add_route_delay g) [] found)"
  "fst ` set (foldl (add_route_delay g) [] found) = sd_RouteID ` set found"
proof -
  have "wf_map m \<Longrightarrow> wf_map (foldl (add_route_delay g) m found)
      \<and> fst ` set (foldl (add_route_delay g) m found) = fst ` set m \<union> sd_RouteID ` set found" for m
    by (induction found arbitrary: m) (auto simp: add_route_delay_def Let_def dom_update)
  from this [of "[]"] show "wf_map (foldl (add_route_delay g) [] found)"
    "fst ` set (foldl (add_route_delay g) [] found) = sd_RouteID ` set found" by simp_all
qed

section \<open>The tables\<close>

lemma render_eq:
  "render R agency r =
     (case GetAllActiveDelays R agency r of
        (Inl e, r1) \<Rightarrow> (Inl e, r1)
      | (Inr found, r1) \<Rightarrow>
          (Inr \<lparr>da_agency = agency,
                da_blocks = map (route_block (group_by_route found)) (sorted_list_of_set (sd_RouteID ` set found)),
                da_total = length found\<rparr>, r1))"
  by (simp add: render_def Let_def sorted_keys [OF group_by_route_keys] foldl_count sum_on_routes
      split: prod.splits sum.splits)

lemma network_report_routes:
  assumes "nr_Routes resp = foldl (add_route_delay g) [] found"
  shows "map cr_route (cl_routes (network_report resp)) = sorted_list_of_set (sd_RouteID ` set found)"
    and "map cr_count (cl_routes (network_report resp))
       = map (\<lambda>rt. length (on_route found rt)) (sorted_list_of_set (sd_RouteID ` set found))"
    and "cl_total (network_report resp) = length found"
proof -
  have c: "cr_count (route_lines resp rt) = length (on_route found rt)" for rt
    by (auto simp: route_lines_def assms network_fold on_route_def split: list.splits)
  have k: "sort (map fst (nr_Routes resp)) = sorted_list_of_set (sd_RouteID ` set found)"
    unfolding assms by (rule sorted_keys [OF network_keys])
  show "map cr_route (cl_routes (network_report resp)) = sorted_list_of_set (sd_RouteID ` set found)"
    by (simp add: network_report_def k Let_def o_def) (simp add: route_lines_def Let_def)
  show "map cr_count (cl_routes (network_report resp))
      = map (\<lambda>rt. length (on_route found rt)) (sorted_list_of_set (sd_RouteID ` set found))"
    by (simp add: network_report_def k Let_def c)
  show "cl_total (network_report resp) = length found"
    by (simp add: network_report_def k Let_def c foldl_count sum_on_routes)
qed

lemma block_count:
  "length (db_rows (route_block (group_by_route found) rt)) + (case db_more (route_block (group_by_route found) rt) of None \<Rightarrow> 0 | Some n \<Rightarrow> n)
     = length (on_route found rt)"
  by (simp add: route_block_def Let_def)

section \<open>Properties\<close>

text \<open>C39: the delay table has one block per route with an active delay, in bytewise order, and counts every
  active delay. A block shows the up to five worst delays of its route, worst first, and says how many it
  leaves out; none of those is worse than one it shows.\<close>

theorem dashboard_shows_worst:
  assumes "GetAllActiveDelays R agency r = (Inr found, r1)"
  shows "\<exists>db. render R agency r = (Inr db, r1) \<and> da_total db = length found
    \<and> map db_route (da_blocks db) = sorted_list_of_set (sd_RouteID ` set found)
    \<and> (\<forall>b \<in> set (da_blocks db). \<exists>shown hidden.
         mset (shown @ hidden) = mset (on_route found (db_route b)) \<and> db_rows b = map dash_row_of shown
         \<and> length shown = min 5 (length (on_route found (db_route b)))
         \<and> sorted_wrt (\<lambda>x y. sd_DelaySeconds y \<le> sd_DelaySeconds x) (shown @ hidden)
         \<and> db_more b = (if hidden = [] then None else Some (length hidden)))"
proof -
  have "\<exists>shown hidden. mset (shown @ hidden) = mset (on_route found rt)
      \<and> db_rows (route_block (group_by_route found) rt) = map dash_row_of shown
      \<and> length shown = min 5 (length (on_route found rt))
      \<and> sorted_wrt (\<lambda>x y. sd_DelaySeconds y \<le> sd_DelaySeconds x) (shown @ hidden)
      \<and> db_more (route_block (group_by_route found) rt) = (if hidden = [] then None else Some (length hidden))" for rt
  proof -
    let ?ds = "sort_key (\<lambda>d. - sd_DelaySeconds d) (on_route found rt)"
    let ?n = "min 5 (length ?ds)"
    have s: "sorted_wrt (\<lambda>x y. sd_DelaySeconds y \<le> sd_DelaySeconds x) ?ds"
      using sorted_sort_key [of "\<lambda>d. - sd_DelaySeconds d" "on_route found rt"] by (simp add: sorted_map)
    show ?thesis
      by (rule exI [of _ "take ?n ?ds"], rule exI [of _ "drop ?n ?ds"])
        (use s in \<open>auto simp: route_block_def Let_def min_def simp flip: mset_append\<close>)
  qed
  moreover have "db_route (route_block m rt) = rt" for m rt by (simp add: route_block_def Let_def)
  ultimately show ?thesis by (simp add: render_eq assms o_def)
qed

theorem dashboard_shows_worst_witness:
  "\<exists>db. fst (render mem_client ''MTA'' demo_redis) = Inr db \<and> da_total db = 1 \<and> map db_route (da_blocks db) = [''A'']"
  using dashboard_shows_worst [OF demo_active] by (auto simp: first_state_def)

text \<open>The client's listing and the delay table agree: on the same stored delays they name the same routes
  in the same order, with the same number of delays each (shown or left out) and the same total.\<close>

theorem client_agrees_with_dashboard:
  assumes "GetNetworkState R s now r = (Inr resp, r1)" and "render R (sv_agencyID s) r = (out, r2)"
  shows "\<exists>db. out = Inr db \<and> r2 = r1 \<and> cl_total (network_report resp) = da_total db
    \<and> map cr_route (cl_routes (network_report resp)) = map db_route (da_blocks db)
    \<and> map cr_count (cl_routes (network_report resp))
        = map (\<lambda>b. length (db_rows b) + (case db_more b of None \<Rightarrow> 0 | Some n \<Rightarrow> n)) (da_blocks db)"
proof -
  obtain found where f: "GetAllActiveDelays R (sv_agencyID s) r = (Inr found, r1)"
    "nr_Routes resp = foldl (add_route_delay (sv_graph s)) [] found"
    using assms(1) by (auto simp: GetNetworkState_def split: prod.splits sum.splits)
  have rt: "db_route (route_block m rt) = rt" for m rt by (simp add: route_block_def Let_def)
  show ?thesis
    using assms(2) network_report_routes [OF f(2)]
    by (auto simp: render_eq f(1) o_def rt block_count)
qed

theorem client_agrees_with_dashboard_witness:
  "\<exists>resp db. fst (GetNetworkState mem_client demo_service 500 demo_redis) = Inr resp
     \<and> fst (render mem_client ''MTA'' demo_redis) = Inr db
     \<and> cl_total (network_report resp) = da_total db \<and> map cr_route (cl_routes (network_report resp)) = map db_route (da_blocks db)"
proof -
  obtain resp where "GetNetworkState mem_client demo_service 500 demo_redis = (Inr resp, demo_redis)"
    using demo_active by (simp add: GetNetworkState_def demo_service_def)
  moreover obtain out r2 where "render mem_client (sv_agencyID demo_service) demo_redis = (out, r2)" by fastforce
  ultimately show ?thesis
    using client_agrees_with_dashboard [of mem_client demo_service 500 demo_redis resp demo_redis out r2]
    by (auto simp: demo_service_def)
qed

end
