(* ===== verification/Metrics.thy ===== *)
theory Metrics
  imports ProcessorProps ServerProps Ingestor
begin

text \<open>
  \<open>internal/metrics/metrics.go\<close> and the calls on its collectors in the other packages. A collector is what
  is passed to the Prometheus library, a call on it a \<open>metric_update\<close>, and each instrumented operation has
  the list of the updates it makes, computed from the same state as the operation. The library panics on a
  bad registration or a badly typed call: its contract is the locale \<open>metrics_registry\<close>, interpreted by an
  in-memory registry. Durations are arguments.
\<close>

section \<open>Collectors\<close>

datatype collector_kind = Counter | Gauge | Histogram

text \<open>\<open>DefBuckets\<close> are the library's default buckets.\<close>

datatype buckets = NoBuckets | DefBuckets | Buckets "rat list"

record collector =
  co_Kind :: collector_kind
  co_Name :: string
  co_Help :: string
  co_Buckets :: buckets
  co_Labels :: "string list"

definition IngestorEventsTotal :: collector where
  "IngestorEventsTotal =
     \<lparr>co_Kind = Counter, co_Name = ''ingestor_events_total'',
      co_Help = ''Total number of events ingested, by route.'',
      co_Buckets = NoBuckets, co_Labels = [''route'']\<rparr>"

definition IngestorPollDuration :: collector where
  "IngestorPollDuration =
     \<lparr>co_Kind = Histogram, co_Name = ''ingestor_poll_duration_seconds'',
      co_Help = ''Duration of ingestor poll operations in seconds.'',
      co_Buckets = DefBuckets, co_Labels = []\<rparr>"

definition IngestorPollErrors :: collector where
  "IngestorPollErrors =
     \<lparr>co_Kind = Counter, co_Name = ''ingestor_poll_errors_total'',
      co_Help = ''Total number of ingestor poll errors.'',
      co_Buckets = NoBuckets, co_Labels = []\<rparr>"

definition ProcessorEventsProcessed :: collector where
  "ProcessorEventsProcessed =
     \<lparr>co_Kind = Counter, co_Name = ''processor_events_processed_total'',
      co_Help = ''Total number of events processed.'',
      co_Buckets = NoBuckets, co_Labels = []\<rparr>"

definition ProcessorEventDuration :: collector where
  "ProcessorEventDuration =
     \<lparr>co_Kind = Histogram, co_Name = ''processor_event_processing_duration_seconds'',
      co_Help = ''Duration of event processing in seconds.'',
      co_Buckets = DefBuckets, co_Labels = []\<rparr>"

definition ProcessorActiveDelays :: collector where
  "ProcessorActiveDelays =
     \<lparr>co_Kind = Gauge, co_Name = ''processor_active_delays'',
      co_Help = ''Number of currently active delays.'',
      co_Buckets = NoBuckets, co_Labels = []\<rparr>"

definition ProcessorBrokenTransfers :: collector where
  "ProcessorBrokenTransfers =
     \<lparr>co_Kind = Counter, co_Name = ''processor_broken_transfers_total'',
      co_Help = ''Total number of broken transfers detected.'',
      co_Buckets = NoBuckets, co_Labels = []\<rparr>"

definition ProcessorPropagationFanOut :: collector where
  "ProcessorPropagationFanOut =
     \<lparr>co_Kind = Histogram, co_Name = ''processor_propagation_fan_out'',
      co_Help = ''Distribution of propagation fan-out counts.'',
      co_Buckets = Buckets [0, 1, 2, 5, 10, 20, 50, 100], co_Labels = []\<rparr>"

definition ProcessorPropagationsShed :: collector where
  "ProcessorPropagationsShed =
     \<lparr>co_Kind = Counter, co_Name = ''processor_propagations_shed_total'',
      co_Help = ''Broken transfers whose propagation was shed at the concurrency limit.'',
      co_Buckets = NoBuckets, co_Labels = []\<rparr>"

definition ProcessorEventFailures :: collector where
  "ProcessorEventFailures =
     \<lparr>co_Kind = Counter, co_Name = ''processor_event_failures_total'',
      co_Help = ''Events that exhausted processing retries and forced a consumer restart.'',
      co_Buckets = NoBuckets, co_Labels = []\<rparr>"

definition ProcessorEnrichment :: collector where
  "ProcessorEnrichment =
     \<lparr>co_Kind = Counter, co_Name = ''processor_enrichment_total'',
      co_Help = ''Delay enrichment lookups against the static schedule, by result.'',
      co_Buckets = NoBuckets, co_Labels = [''result'']\<rparr>"

definition ServerGRPCRequests :: collector where
  "ServerGRPCRequests =
     \<lparr>co_Kind = Counter, co_Name = ''server_grpc_requests_total'',
      co_Help = ''Total number of gRPC requests, by method.'',
      co_Buckets = NoBuckets, co_Labels = [''method'']\<rparr>"

definition ServerGRPCDuration :: collector where
  "ServerGRPCDuration =
     \<lparr>co_Kind = Histogram, co_Name = ''server_grpc_request_duration_seconds'',
      co_Help = ''Duration of gRPC requests in seconds, by method.'',
      co_Buckets = DefBuckets, co_Labels = [''method'']\<rparr>"

definition ServerActiveStreams :: collector where
  "ServerActiveStreams =
     \<lparr>co_Kind = Gauge, co_Name = ''server_active_streams'',
      co_Help = ''Number of currently active gRPC streams.'',
      co_Buckets = NoBuckets, co_Labels = []\<rparr>"

definition RedisOperationDuration :: collector where
  "RedisOperationDuration =
     \<lparr>co_Kind = Histogram, co_Name = ''redis_operation_duration_seconds'',
      co_Help = ''Duration of Redis operations in seconds, by operation.'',
      co_Buckets = DefBuckets, co_Labels = [''operation'']\<rparr>"

definition RedisKeysTotal :: collector where
  "RedisKeysTotal =
     \<lparr>co_Kind = Gauge, co_Name = ''redis_keys_total'',
      co_Help = ''Total number of keys in Redis.'',
      co_Buckets = NoBuckets, co_Labels = []\<rparr>"

definition KafkaConsumerLag :: collector where
  "KafkaConsumerLag =
     \<lparr>co_Kind = Gauge, co_Name = ''kafka_consumer_lag'',
      co_Help = ''Kafka consumer lag by topic and partition.'',
      co_Buckets = NoBuckets, co_Labels = [''topic'', ''partition'']\<rparr>"

definition EvalPredictionsTracked :: collector where
  "EvalPredictionsTracked =
     \<lparr>co_Kind = Counter, co_Name = ''eval_predictions_tracked_total'',
      co_Help = ''Total number of downstream-impact predictions tracked for verification.'',
      co_Buckets = NoBuckets, co_Labels = []\<rparr>"

definition EvalPredictionsFinalized :: collector where
  "EvalPredictionsFinalized =
     \<lparr>co_Kind = Counter, co_Name = ''eval_predictions_finalized_total'',
      co_Help = ''Total number of predictions finalized, by outcome.'',
      co_Buckets = NoBuckets, co_Labels = [''outcome'']\<rparr>"

definition EvalPredictionAbsError :: collector where
  "EvalPredictionAbsError =
     \<lparr>co_Kind = Histogram, co_Name = ''eval_prediction_abs_error_seconds'',
      co_Help = ''Absolute error between predicted and observed additional delay.'',
      co_Buckets = Buckets [5, 15, 30, 60, 120, 300, 600, 1200], co_Labels = []\<rparr>"

definition EvalPredictionSquaredError :: collector where
  "EvalPredictionSquaredError =
     \<lparr>co_Kind = Counter, co_Name = ''eval_prediction_squared_error_seconds_total'',
      co_Help = ''Sum of squared prediction errors; divide by finalized count and take the square root for RMSE.'',
      co_Buckets = NoBuckets, co_Labels = []\<rparr>"

definition EvalPredictionsByConfidence :: collector where
  "EvalPredictionsByConfidence =
     \<lparr>co_Kind = Counter, co_Name = ''eval_predictions_by_confidence_total'',
      co_Help = ''Finalized predictions by confidence bucket and outcome, for calibration curves.'',
      co_Buckets = NoBuckets, co_Labels = [''confidence_bucket'', ''outcome'']\<rparr>"

text \<open>\<open>init\<close>: the collectors in the order they are registered; \<open>None\<close> is the panic of \<open>MustRegister\<close>.\<close>

definition registered :: "collector list" where
  "registered =
      [IngestorEventsTotal, IngestorPollDuration, IngestorPollErrors, ProcessorEventsProcessed,
       ProcessorEventDuration, ProcessorActiveDelays, ProcessorBrokenTransfers,
       ProcessorPropagationFanOut, ProcessorPropagationsShed, ProcessorEventFailures,
       ProcessorEnrichment, ServerGRPCRequests, ServerGRPCDuration, ServerActiveStreams,
       RedisOperationDuration, RedisKeysTotal, KafkaConsumerLag, EvalPredictionsTracked,
       EvalPredictionsFinalized, EvalPredictionAbsError, EvalPredictionSquaredError,
       EvalPredictionsByConfidence]"

fun MustRegister :: "(collector \<Rightarrow> 'g \<Rightarrow> 'g option) \<Rightarrow> collector list \<Rightarrow> 'g \<Rightarrow> 'g option" where
  "MustRegister register [] g = Some g"
| "MustRegister register (c # cs) g =
     (case register c g of None \<Rightarrow> None | Some g1 \<Rightarrow> MustRegister register cs g1)"

section \<open>Calls on the collectors\<close>

datatype metric_update =
  Inc collector "string list" | Add collector "string list" float64 | SetTo collector "string list" float64
| Dec collector "string list" | Observe collector "string list" float64 | DeleteLabelValues collector "string list"

text \<open>\<open>pollOnce\<close>: an error, or one count per published event and the duration.\<close>

fun publish_updates :: "'w poll_env \<Rightarrow> Poller \<times> 'w \<Rightarrow> DelayEvent list \<Rightarrow> metric_update list" where
  "publish_updates env st [] = []"
| "publish_updates env st (ev # evs) =
     (if fst (Publish env ev (snd st)) then [Inc IngestorEventsTotal [ev_RouteId ev]] else [])
     @ publish_updates env (publish_step env st ev) evs"

definition poll_updates :: "'w poll_env \<Rightarrow> Poller \<Rightarrow> float64 \<Rightarrow> 'w \<Rightarrow> metric_update list" where
  "poll_updates env p seconds w =
     (case fetch env p w of
        (Inl e, w1) \<Rightarrow> [Inc IngestorPollErrors []]
      | (Inr feed, w1) \<Rightarrow>
          let ts = i64 (GetTimestamp (GetHeader (Some feed)));
              (observedAt, w2) = (if ts = 0 then (case Now env w1 of (t, w') \<Rightarrow> (time_Unix t, w')) else (ts, w1));
              raw = collect_raw (po_AgencyID p) observedAt (GetEntity (Some feed));
              (now1, w3) = Now env w2;
              (d1, chg) = Diff now1 (po_Differ p) raw
          in publish_updates env (p\<lparr>po_Differ := d1\<rparr>, w3) chg @ [Observe IngestorPollDuration [] seconds])"

text \<open>\<open>enrichEvent\<close>.\<close>

definition enrich_updates :: "TransitGraph \<Rightarrow> DelayEvent \<Rightarrow> metric_update list" where
  "enrich_updates g ev =
     (if \<not> enrichable ev then []
      else (case GetScheduledStopTime g (ev_TripId ev) (ev_StopId ev) of
              None \<Rightarrow> [Inc ProcessorEnrichment [''miss'']]
            | Some st \<Rightarrow>
                if scheduled_secs ev st = 0 then [Inc ProcessorEnrichment [''miss'']]
                else [Inc ProcessorEnrichment [''hit'']]))"

text \<open>The loop over the impacts of a message, and \<open>ConsumeClaim\<close> for one message.\<close>

fun impact_updates :: "('r, 'p) processor \<Rightarrow> TransferImpact list \<Rightarrow> metric_update list" where
  "impact_updates st [] = []"
| "impact_updates st (impact # impacts) =
     (if ti_Level impact = BROKEN
      then Inc ProcessorBrokenTransfers []
           # (if length (pc_propSem st) < maxConcurrentPropagations then [] else [Inc ProcessorPropagationsShed []])
      else [])
     @ impact_updates (spawn st impact) impacts"

definition consume_updates ::
  "('r, 'p, 'b) consumerHandler \<Rightarrow> location \<Rightarrow> string \<Rightarrow> int \<Rightarrow> float64 \<Rightarrow> 'b delivery \<Rightarrow> ('r, 'p) processor
   \<Rightarrow> metric_update list" where
  "consume_updates h local topic part seconds d st =
     (let R = ch_rdb h; now = dl_now d; msg = dl_Message d;
          lag = SetTo KafkaConsumerLag [topic, itoa part] (i_to_f64 (partition_lag (dl_HighWaterMark d) (cm_Offset msg)))
      in case ch_unmarshal h (cm_Value msg) of
           None \<Rightarrow> [lag]
         | Some ev0 \<Rightarrow>
             let ev = fst (enrichEvent local now (ch_graph h) ev0);
                 enriched = lag # enrich_updates (ch_graph h) ev0
             in (case withRetry (dl_cancelled d) 3 200000000 (ProcessEvent R (Some (ch_graph h)) ev) (pc_redis st) of
                   (Some err, waits, r1) \<Rightarrow> enriched @ [Inc ProcessorEventFailures []]
                 | (None, waits, r1) \<Rightarrow>
                     enriched
                     @ (if pc_catchUp st then []
                        else impact_updates st
                          (fst (EvaluateDelay R local now (ch_graph h) (Some (ch_publish h)) ev
                                  (snd (OnDelayEvent R (ch_eval h) now ev r1), pc_broker st))))
                     @ [Inc ProcessorEventsProcessed [], Observe ProcessorEventDuration [] seconds]))"

text \<open>The end of a claim, a propagation, the statistics, the tracked predictions and a sweep.\<close>

definition claim_end_updates :: "string \<Rightarrow> int \<Rightarrow> metric_update list" where
  "claim_end_updates topic part = [DeleteLabelValues KafkaConsumerLag [topic, itoa part]]"

definition propagation_updates :: "PropagationResult \<Rightarrow> metric_update list" where
  "propagation_updates result = [Observe ProcessorPropagationFanOut [] (i_to_f64 (int (length (pr_Impacts result))))]"

definition stats_updates :: "DelayState list \<Rightarrow> metric_update list" where
  "stats_updates found = [SetTo ProcessorActiveDelays [] (i_to_f64 (int (length found)))]"

definition track_updates :: "nat \<Rightarrow> metric_update list" where
  "track_updates tracked = replicate tracked (Inc EvalPredictionsTracked [])"

definition outcome_updates :: "outcome \<Rightarrow> metric_update list" where
  "outcome_updates oc =
     (let result = (if oc_Verified oc then ''verified'' else ''falsified'')
      in [Inc EvalPredictionsFinalized [result], Observe EvalPredictionAbsError [] (oc_AbsErr oc),
          Add EvalPredictionSquaredError [] (f64 (oc_AbsErr oc * oc_AbsErr oc)),
          Inc EvalPredictionsByConfidence [oc_Bucket oc, result]])"

text \<open>\<open>getState\<close> and \<open>setState\<close>, the unary handlers, and the stream.\<close>

definition redis_updates :: "bool \<Rightarrow> float64 \<Rightarrow> metric_update list" where
  "redis_updates reading seconds = [Observe RedisOperationDuration [if reading then ''get'' else ''set''] seconds]"

datatype rpc = GetNetworkState_rpc | RouteDelays_rpc | PredictImpact_rpc | GetBlastRadius_rpc | GetTransferReliability_rpc

definition rpc_name :: "rpc \<Rightarrow> string" where
  "rpc_name m =
     (case m of
        GetNetworkState_rpc \<Rightarrow> ''GetNetworkState'' | RouteDelays_rpc \<Rightarrow> ''GetRouteDelays''
      | PredictImpact_rpc \<Rightarrow> ''PredictImpact'' | GetBlastRadius_rpc \<Rightarrow> ''GetBlastRadius''
      | GetTransferReliability_rpc \<Rightarrow> ''GetTransferReliability'')"

definition rpc_updates :: "rpc \<Rightarrow> float64 \<Rightarrow> metric_update list" where
  "rpc_updates m seconds = [Inc ServerGRPCRequests [rpc_name m], Observe ServerGRPCDuration [rpc_name m] seconds]"

definition stream_updates :: "bool \<Rightarrow> metric_update list" where
  "stream_updates starting =
     (if starting then [Inc ServerGRPCRequests [''StreamAlerts''], Inc ServerActiveStreams []]
      else [Dec ServerActiveStreams []])"

section \<open>What the library promises\<close>

definition ascii :: "string \<Rightarrow> bool" where
  "ascii s \<longleftrightarrow> list_all (\<lambda>c. (of_char c :: nat) < 128) s"

definition name_start :: "char \<Rightarrow> bool" where
  "name_start c \<longleftrightarrow> (let n = (of_char c :: nat) in 65 \<le> n \<and> n \<le> 90 \<or> 97 \<le> n \<and> n \<le> 122 \<or> n = 95)"

definition name_char :: "char \<Rightarrow> bool" where
  "name_char c \<longleftrightarrow> name_start c \<or> is_digit c"

text \<open>Names are letters, digits and underscores; a label may not be reserved (\<open>le\<close>, or a double underscore in
  front); buckets grow; only a histogram has buckets.\<close>

definition valid_name :: "string \<Rightarrow> bool" where
  "valid_name s \<longleftrightarrow> (case s of [] \<Rightarrow> False | c # cs \<Rightarrow> name_start c \<and> list_all name_char cs)"

definition valid_label :: "string \<Rightarrow> bool" where
  "valid_label s \<longleftrightarrow> valid_name s \<and> take 2 s \<noteq> ''__'' \<and> s \<noteq> ''le''"

definition valid_buckets :: "collector_kind \<Rightarrow> buckets \<Rightarrow> bool" where
  "valid_buckets k b \<longleftrightarrow>
     (case b of
        NoBuckets \<Rightarrow> k \<noteq> Histogram
      | DefBuckets \<Rightarrow> k = Histogram
      | Buckets xs \<Rightarrow> k = Histogram \<and> xs \<noteq> [] \<and> sorted_wrt (<) xs)"

definition valid_collector :: "collector \<Rightarrow> bool" where
  "valid_collector c \<longleftrightarrow> valid_name (co_Name c) \<and> list_all valid_label (co_Labels c) \<and> distinct (co_Labels c)
     \<and> valid_buckets (co_Kind c) (co_Buckets c)"

text \<open>The type of a call: the collector is registered and has the method, the values match its labels and are
  valid UTF-8, and a counter does not go down.\<close>

definition well_typed :: "(string \<Rightarrow> bool) \<Rightarrow> collector list \<Rightarrow> metric_update \<Rightarrow> bool" where
  "well_typed utf8 cs u \<longleftrightarrow>
     (let labelled = (\<lambda>c values. c \<in> set cs \<and> length values = length (co_Labels c) \<and> list_all utf8 values)
      in case u of
           Inc c vs \<Rightarrow> labelled c vs \<and> co_Kind c \<noteq> Histogram
         | Add c vs x \<Rightarrow> labelled c vs \<and> (co_Kind c = Gauge \<or> co_Kind c = Counter \<and> 0 \<le> x)
         | SetTo c vs x \<Rightarrow> labelled c vs \<and> co_Kind c = Gauge
         | Dec c vs \<Rightarrow> labelled c vs \<and> co_Kind c = Gauge
         | Observe c vs x \<Rightarrow> labelled c vs \<and> co_Kind c = Histogram
         | DeleteLabelValues c vs \<Rightarrow> labelled c vs)"

fun apply_all :: "(metric_update \<Rightarrow> 'g \<Rightarrow> 'g option) \<Rightarrow> metric_update list \<Rightarrow> 'g \<Rightarrow> 'g option" where
  "apply_all upd [] g = Some g"
| "apply_all upd (u # us) g = (case upd u g of None \<Rightarrow> None | Some g1 \<Rightarrow> apply_all upd us g1)"

text \<open>The contract: a valid collector with a new name registers, a well-typed call succeeds and leaves the
  collectors alone. What other calls do is open.\<close>

locale metrics_registry =
  fixes utf8 :: "string \<Rightarrow> bool" and register :: "collector \<Rightarrow> 'g \<Rightarrow> 'g option"
    and upd :: "metric_update \<Rightarrow> 'g \<Rightarrow> 'g option" and collectors :: "'g \<Rightarrow> collector list"
  assumes utf8_ascii: "ascii s \<Longrightarrow> utf8 s"
    and register_law: "valid_collector c \<Longrightarrow> co_Name c \<notin> co_Name ` set (collectors g) \<Longrightarrow>
      \<exists>g'. register c g = Some g' \<and> collectors g' = collectors g @ [c]"
    and update_law: "well_typed utf8 (collectors g) u \<Longrightarrow> \<exists>g'. upd u g = Some g' \<and> collectors g' = collectors g"
begin

lemma register_all:
  "list_all valid_collector cs \<Longrightarrow> distinct (map co_Name (collectors g @ cs)) \<Longrightarrow>
   \<exists>g'. MustRegister register cs g = Some g' \<and> collectors g' = collectors g @ cs"
proof (induction cs arbitrary: g)
  case (Cons c cs)
  then obtain g1 where g1: "register c g = Some g1" "collectors g1 = collectors g @ [c]"
    using register_law [of c g] by auto
  with Cons.IH [of g1] Cons.prems show ?case by auto
qed simp

lemma update_all:
  "list_all (well_typed utf8 (collectors g)) us \<Longrightarrow> \<exists>g'. apply_all upd us g = Some g' \<and> collectors g' = collectors g"
proof (induction us arbitrary: g)
  case (Cons u us)
  then obtain g1 where "upd u g = Some g1" "collectors g1 = collectors g"
    using update_law [of g u] by auto
  with Cons.IH [of g1] Cons.prems show ?case by auto
qed simp

end

text \<open>An in-memory registry: the collectors, and a value per series (for a histogram, the number of
  observations).\<close>

record mem_registry =
  mr_collectors :: "collector list"
  mr_values :: "(string \<times> string list, rat) gomap"

definition mem_register :: "collector \<Rightarrow> mem_registry \<Rightarrow> mem_registry option" where
  "mem_register c g =
     (if valid_collector c \<and> co_Name c \<notin> co_Name ` set (mr_collectors g)
      then Some (g\<lparr>mr_collectors := mr_collectors g @ [c]\<rparr>) else None)"

definition bump :: "collector \<Rightarrow> string list \<Rightarrow> (rat \<Rightarrow> rat) \<Rightarrow> mem_registry \<Rightarrow> mem_registry" where
  "bump c vs f g = g\<lparr>mr_values := mput (co_Name c, vs) (f (mgetd 0 (mr_values g) (co_Name c, vs))) (mr_values g)\<rparr>"

definition mem_update :: "(string \<Rightarrow> bool) \<Rightarrow> metric_update \<Rightarrow> mem_registry \<Rightarrow> mem_registry option" where
  "mem_update utf8 u g =
     (if \<not> well_typed utf8 (mr_collectors g) u then None
      else Some (case u of
           Inc c vs \<Rightarrow> bump c vs (\<lambda>x. x + 1) g
         | Add c vs y \<Rightarrow> bump c vs (\<lambda>x. f64 (x + y)) g
         | SetTo c vs y \<Rightarrow> bump c vs (\<lambda>_. y) g
         | Dec c vs \<Rightarrow> bump c vs (\<lambda>x. x - 1) g
         | Observe c vs y \<Rightarrow> bump c vs (\<lambda>x. x + 1) g
         | DeleteLabelValues c vs \<Rightarrow> g\<lparr>mr_values := mdel (co_Name c, vs) (mr_values g)\<rparr>))"

interpretation memr: metrics_registry ascii mem_register "mem_update ascii" mr_collectors
  by unfold_locales (auto simp: mem_register_def mem_update_def bump_def split: metric_update.splits)

section \<open>The calls are well typed\<close>

lemmas collector_defs =
  IngestorEventsTotal_def IngestorPollDuration_def IngestorPollErrors_def ProcessorEventsProcessed_def
  ProcessorEventDuration_def ProcessorActiveDelays_def ProcessorBrokenTransfers_def
  ProcessorPropagationFanOut_def ProcessorPropagationsShed_def ProcessorEventFailures_def
  ProcessorEnrichment_def ServerGRPCRequests_def ServerGRPCDuration_def ServerActiveStreams_def
  RedisOperationDuration_def RedisKeysTotal_def KafkaConsumerLag_def EvalPredictionsTracked_def
  EvalPredictionsFinalized_def EvalPredictionAbsError_def EvalPredictionSquaredError_def
  EvalPredictionsByConfidence_def

lemma registered_valid: "list_all valid_collector registered"
  by (simp add: registered_def collector_defs valid_collector_def valid_name_def valid_label_def valid_buckets_def
      name_start_def name_char_def is_digit_def Let_def)

lemma registered_distinct: "distinct (map co_Name registered)"
  by (simp add: registered_def collector_defs)

lemma digits_ascii: "list_all is_digit s \<Longrightarrow> ascii s"
proof -
  have "is_digit c \<Longrightarrow> (of_char c :: nat) < 128" for c
    using of_nat_of_char [of c, where ?'a = int] by (simp add: is_digit_def)
  then show "list_all is_digit s \<Longrightarrow> ascii s" by (auto simp: ascii_def list_all_iff)
qed

lemma itoa_ascii: "ascii (itoa n)"
proof (cases "n < 0")
  case True
  then have "ascii (show_digits (- n))" by (intro digits_ascii show_digits_digits) simp
  with True show ?thesis by (simp add: itoa_def ascii_def)
next
  case False
  then show ?thesis by (simp add: itoa_def digits_ascii show_digits_digits)
qed

lemma registered_mem [simp]:
  "IngestorEventsTotal \<in> set registered"
  "IngestorPollDuration \<in> set registered"
  "IngestorPollErrors \<in> set registered"
  "ProcessorEventsProcessed \<in> set registered"
  "ProcessorEventDuration \<in> set registered"
  "ProcessorActiveDelays \<in> set registered"
  "ProcessorBrokenTransfers \<in> set registered"
  "ProcessorPropagationFanOut \<in> set registered"
  "ProcessorPropagationsShed \<in> set registered"
  "ProcessorEventFailures \<in> set registered"
  "ProcessorEnrichment \<in> set registered"
  "ServerGRPCRequests \<in> set registered"
  "ServerGRPCDuration \<in> set registered"
  "ServerActiveStreams \<in> set registered"
  "RedisOperationDuration \<in> set registered"
  "RedisKeysTotal \<in> set registered"
  "KafkaConsumerLag \<in> set registered"
  "EvalPredictionsTracked \<in> set registered"
  "EvalPredictionsFinalized \<in> set registered"
  "EvalPredictionAbsError \<in> set registered"
  "EvalPredictionSquaredError \<in> set registered"
  "EvalPredictionsByConfidence \<in> set registered"
  by (simp_all add: registered_def)

lemma collector_types [simp]:
  "co_Kind IngestorEventsTotal = Counter" "co_Labels IngestorEventsTotal = [''route'']"
  "co_Kind IngestorPollDuration = Histogram" "co_Labels IngestorPollDuration = []"
  "co_Kind IngestorPollErrors = Counter" "co_Labels IngestorPollErrors = []"
  "co_Kind ProcessorEventsProcessed = Counter" "co_Labels ProcessorEventsProcessed = []"
  "co_Kind ProcessorEventDuration = Histogram" "co_Labels ProcessorEventDuration = []"
  "co_Kind ProcessorActiveDelays = Gauge" "co_Labels ProcessorActiveDelays = []"
  "co_Kind ProcessorBrokenTransfers = Counter" "co_Labels ProcessorBrokenTransfers = []"
  "co_Kind ProcessorPropagationFanOut = Histogram" "co_Labels ProcessorPropagationFanOut = []"
  "co_Kind ProcessorPropagationsShed = Counter" "co_Labels ProcessorPropagationsShed = []"
  "co_Kind ProcessorEventFailures = Counter" "co_Labels ProcessorEventFailures = []"
  "co_Kind ProcessorEnrichment = Counter" "co_Labels ProcessorEnrichment = [''result'']"
  "co_Kind ServerGRPCRequests = Counter" "co_Labels ServerGRPCRequests = [''method'']"
  "co_Kind ServerGRPCDuration = Histogram" "co_Labels ServerGRPCDuration = [''method'']"
  "co_Kind ServerActiveStreams = Gauge" "co_Labels ServerActiveStreams = []"
  "co_Kind RedisOperationDuration = Histogram" "co_Labels RedisOperationDuration = [''operation'']"
  "co_Kind RedisKeysTotal = Gauge" "co_Labels RedisKeysTotal = []"
  "co_Kind KafkaConsumerLag = Gauge" "co_Labels KafkaConsumerLag = [''topic'', ''partition'']"
  "co_Kind EvalPredictionsTracked = Counter" "co_Labels EvalPredictionsTracked = []"
  "co_Kind EvalPredictionsFinalized = Counter" "co_Labels EvalPredictionsFinalized = [''outcome'']"
  "co_Kind EvalPredictionAbsError = Histogram" "co_Labels EvalPredictionAbsError = []"
  "co_Kind EvalPredictionSquaredError = Counter" "co_Labels EvalPredictionSquaredError = []"
  "co_Kind EvalPredictionsByConfidence = Counter" "co_Labels EvalPredictionsByConfidence = [''confidence_bucket'', ''outcome'']"
  by (simp_all add: collector_defs)

text \<open>The label values that are not constants: the route of a published event, the topic and the partition, the
  bucket of a confidence.\<close>

lemma bucket_ascii: "ascii (ConfidenceBucket c)"
  by (simp add: ConfidenceBucket_def ascii_def)

lemma outcome_bucket_ascii: "ascii (oc_Bucket (outcome_of p))"
  by (simp add: outcome_of_def bucket_ascii)

lemma ascii_constants [simp]:
  "ascii ''hit''" "ascii ''miss''" "ascii ''get''" "ascii ''set''" "ascii ''verified''" "ascii ''falsified''"
  "ascii ''StreamAlerts''" "ascii (rpc_name m)"
  by (simp_all add: ascii_def rpc_name_def split: rpc.split)

definition typed_updates :: "(string \<Rightarrow> bool) \<Rightarrow> metric_update list \<Rightarrow> bool" where
  "typed_updates utf8 us \<longleftrightarrow> list_all (well_typed utf8 registered) us"

lemma typed_simps [simp]:
  "typed_updates utf8 []" "typed_updates utf8 (u # us) \<longleftrightarrow> well_typed utf8 registered u \<and> typed_updates utf8 us"
  "typed_updates utf8 (us @ vs) \<longleftrightarrow> typed_updates utf8 us \<and> typed_updates utf8 vs"
  by (simp_all add: typed_updates_def)

definition publishes_utf8 :: "(string \<Rightarrow> bool) \<Rightarrow> 'w poll_env \<Rightarrow> bool" where
  "publishes_utf8 utf8 env \<longleftrightarrow> (\<forall>ev w. fst (Publish env ev w) \<longrightarrow> utf8 (ev_RouteId ev))"

context metrics_registry
begin

lemma typed_publish: "publishes_utf8 utf8 env \<Longrightarrow> typed_updates utf8 (publish_updates env st evs)"
  by (induction evs arbitrary: st) (auto simp: well_typed_def publishes_utf8_def)

lemma typed_poll: "publishes_utf8 utf8 env \<Longrightarrow> typed_updates utf8 (poll_updates env p seconds w)"
  by (auto simp: poll_updates_def Let_def well_typed_def typed_publish split: prod.splits sum.splits)

lemma typed_impacts: "typed_updates utf8 (impact_updates st impacts)"
  by (induction impacts arbitrary: st) (auto simp: well_typed_def)

lemma typed_enrich: "typed_updates utf8 (enrich_updates g ev)"
  by (auto simp: enrich_updates_def well_typed_def utf8_ascii split: option.splits)

lemma typed_consume: "utf8 topic \<Longrightarrow> typed_updates utf8 (consume_updates h local topic part seconds d st)"
  by (auto simp: consume_updates_def Let_def well_typed_def typed_impacts typed_enrich utf8_ascii itoa_ascii
      split: option.splits prod.splits)

lemma typed_claim_end: "utf8 topic \<Longrightarrow> typed_updates utf8 (claim_end_updates topic part)"
  by (simp add: claim_end_updates_def well_typed_def utf8_ascii itoa_ascii)

lemma typed_outcome: "typed_updates utf8 (outcome_updates (outcome_of p))"
  by (auto simp: outcome_updates_def Let_def well_typed_def utf8_ascii outcome_bucket_ascii f64_nonneg)

lemma typed_others:
  "typed_updates utf8 (propagation_updates result)" "typed_updates utf8 (stats_updates found)"
  "typed_updates utf8 (track_updates n)" "typed_updates utf8 (redis_updates reading seconds)"
  "typed_updates utf8 (rpc_updates m seconds)" "typed_updates utf8 (stream_updates starting)"
  by (auto simp: propagation_updates_def stats_updates_def track_updates_def redis_updates_def rpc_updates_def
      stream_updates_def well_typed_def typed_updates_def list_all_iff utf8_ascii)

end

section \<open>The counters count what happens\<close>

definition count_updates :: "metric_update \<Rightarrow> metric_update list \<Rightarrow> nat" where
  "count_updates u us = length (filter (\<lambda>v. v = u) us)"

lemma count_updates_simps [simp]:
  "count_updates u [] = 0" "count_updates u (v # us) = (if v = u then 1 else 0) + count_updates u us"
  "count_updates u (us @ vs) = count_updates u us + count_updates u vs"
  by (simp_all add: count_updates_def)

lemma processor_counters_differ [simp]:
  "ProcessorPropagationsShed \<noteq> ProcessorBrokenTransfers" "ProcessorPropagationsShed \<noteq> ProcessorEventFailures"
  "ProcessorPropagationsShed \<noteq> ProcessorEventsProcessed" "ProcessorPropagationsShed \<noteq> ProcessorEnrichment"
  "ProcessorBrokenTransfers \<noteq> ProcessorPropagationsShed" "ProcessorBrokenTransfers \<noteq> ProcessorEventFailures"
  "ProcessorBrokenTransfers \<noteq> ProcessorEventsProcessed" "ProcessorBrokenTransfers \<noteq> ProcessorEnrichment"
  "ProcessorEventFailures \<noteq> ProcessorPropagationsShed" "ProcessorEventFailures \<noteq> ProcessorBrokenTransfers"
  "ProcessorEventFailures \<noteq> ProcessorEventsProcessed" "ProcessorEventFailures \<noteq> ProcessorEnrichment"
  "ProcessorEventsProcessed \<noteq> ProcessorPropagationsShed" "ProcessorEventsProcessed \<noteq> ProcessorBrokenTransfers"
  "ProcessorEventsProcessed \<noteq> ProcessorEventFailures" "ProcessorEventsProcessed \<noteq> ProcessorEnrichment"
  "ProcessorEnrichment \<noteq> ProcessorPropagationsShed" "ProcessorEnrichment \<noteq> ProcessorBrokenTransfers"
  "ProcessorEnrichment \<noteq> ProcessorEventFailures" "ProcessorEnrichment \<noteq> ProcessorEventsProcessed"
  by (simp_all add: collector_defs)

lemma impact_counts:
  "pc_propSem st' = pc_propSem st \<Longrightarrow>
   pc_shed (foldl spawn st' impacts) = pc_shed st' + count_updates (Inc ProcessorPropagationsShed []) (impact_updates st impacts)
   \<and> count_updates (Inc ProcessorBrokenTransfers []) (impact_updates st impacts) + length (pc_propSem st') + pc_shed st'
       = length (pc_propSem (foldl spawn st' impacts)) + pc_shed (foldl spawn st' impacts)
   \<and> count_updates (Inc ProcessorEventFailures []) (impact_updates st impacts) = 0
   \<and> count_updates (Inc ProcessorEventsProcessed []) (impact_updates st impacts) = 0"
proof (induction impacts arbitrary: st st')
  case (Cons impact impacts)
  have "pc_propSem (spawn st' impact) = pc_propSem (spawn st impact)" using Cons.prems by (simp add: spawn_def)
  note later = Cons.IH [OF this]
  show ?case
  proof (cases "ti_Level impact = BROKEN")
    case True
    with later Cons.prems show ?thesis
      by (cases "length (pc_propSem st) < maxConcurrentPropagations") (auto simp: spawn_def [of st'] spawn_def [of st])
  next
    case False
    then have "spawn st' impact = st'" "spawn st impact = st" by (simp_all add: spawn_def)
    with later False show ?thesis by simp
  qed
qed simp

lemma enrich_counts:
  "c \<noteq> ProcessorEnrichment \<Longrightarrow> count_updates (Inc c vs) (enrich_updates g ev) = 0"
  by (auto simp: enrich_updates_def split: option.splits)

lemma publish_counts:
  assumes "foldl (publish_step env) (p, w) evs = (p', w')" "0 \<le> po_published p" "po_published p < 2 ^ 64"
  shows "po_published p' = (po_published p + int (length (publish_updates env (p0, w) evs))) mod 2 ^ 64"
  using assms
proof (induction evs arbitrary: p p0 w)
  case (Cons ev evs)
  obtain ok w1 where pub: "Publish env ev w = (ok, w1)" by fastforce
  obtain p1 w2 where s: "publish_step env (p, w) ev = (p1, w2)" by fastforce
  obtain p2 where s0: "publish_step env (p0, w) ev = (p2, w2)"
    using s pub by (auto simp: publish_step_def split: prod.splits bool.splits)
  have p1: "po_published p1 = (po_published p + (if ok then 1 else 0)) mod 2 ^ 64"
    using s pub Cons.prems(2,3) by (auto simp: publish_step_def split: prod.splits bool.splits)
  have "foldl (publish_step env) (p1, w2) evs = (p', w')" using Cons.prems(1) s by simp
  from Cons.IH [OF this, of p2] p1 have
    "po_published p' = (po_published p1 + int (length (publish_updates env (p2, w2) evs))) mod 2 ^ 64" by simp
  also have "\<dots> = (po_published p + int (length (publish_updates env (p0, w) (ev # evs)))) mod 2 ^ 64"
    by (simp add: p1 s0 pub mod_simps add.assoc)
  finally show ?case .
qed simp

section \<open>Properties\<close>

text \<open>The update lists an operation of the three processes makes.\<close>

definition emitted ::
  "('r, 'p, 'b) consumerHandler \<Rightarrow> location \<Rightarrow> string \<Rightarrow> 'w poll_env \<Rightarrow> metric_update list \<Rightarrow> bool" where
  "emitted h local topic env us \<longleftrightarrow>
     (\<exists>part seconds d st. us = consume_updates h local topic part seconds d st)
     \<or> (\<exists>part. us = claim_end_updates topic part)
     \<or> (\<exists>p seconds w. us = poll_updates env p seconds w)
     \<or> (\<exists>result. us = propagation_updates result) \<or> (\<exists>found. us = stats_updates found) \<or> (\<exists>n. us = track_updates n)
     \<or> (\<exists>p. us = outcome_updates (outcome_of p)) \<or> (\<exists>reading seconds. us = redis_updates reading seconds)
     \<or> (\<exists>m seconds. us = rpc_updates m seconds) \<or> (\<exists>starting. us = stream_updates starting)"

text \<open>C32: the collectors register (names, labels and buckets are valid and no name occurs twice), and whatever
  operations run afterwards, in any interleaving, every call on a collector is well typed: the registry
  never panics. A published event has a route in valid UTF-8, since the codec refuses other strings.\<close>

theorem metrics_never_panic:
  assumes "metrics_registry utf8 register upd collectors" and "collectors g0 = []" and "utf8 topic"
    and "publishes_utf8 utf8 env" and "\<And>us. us \<in> set uss \<Longrightarrow> emitted h local topic env us"
  shows "\<exists>g1 g2. MustRegister register registered g0 = Some g1 \<and> collectors g1 = registered
    \<and> apply_all upd (concat uss) g1 = Some g2 \<and> collectors g2 = registered"
proof -
  note lib = metrics_registry.typed_consume [OF assms(1,3)] metrics_registry.typed_claim_end [OF assms(1,3)]
    metrics_registry.typed_poll [OF assms(1,4)] metrics_registry.typed_outcome [OF assms(1)]
    metrics_registry.typed_others [OF assms(1)]
  have "list_all (well_typed utf8 registered) us" if "us \<in> set uss" for us
    using assms(5) [OF that] unfolding emitted_def typed_updates_def [symmetric] by (elim disjE exE) (simp_all add: lib)
  then have typed: "list_all (well_typed utf8 registered) (concat uss)" by (auto simp: list_all_iff)
  obtain g1 where g1: "MustRegister register registered g0 = Some g1" "collectors g1 = registered"
    using metrics_registry.register_all [OF assms(1) registered_valid, of g0] registered_distinct assms(2) by auto
  with metrics_registry.update_all [OF assms(1), of g1 "concat uss"] typed show ?thesis by auto
qed

theorem metrics_never_panic_witness:
  "\<exists>g1 g2. MustRegister mem_register registered \<lparr>mr_collectors = [], mr_values = []\<rparr> = Some g1
     \<and> apply_all (mem_update ascii)
         (concat [stream_updates True, consume_updates demo_handler (\<lambda>_. 0) ''t'' 0 1 (demo_delivery 9 True) (demo_processor empty_redis)]) g1
       = Some g2
     \<and> length (mr_collectors g2) = 22"
proof -
  let ?u = "consume_updates demo_handler (\<lambda>_. 0) ''t'' 0 1 (demo_delivery 9 True) (demo_processor empty_redis)"
  have "emitted demo_handler (\<lambda>_. 0) ''t'' demo_poll_env us" if "us \<in> set [stream_updates True, ?u]" for us
    using that unfolding emitted_def set_simps insert_iff empty_iff by blast
  from metrics_never_panic [OF memr.metrics_registry_axioms, of "\<lparr>mr_collectors = [], mr_values = []\<rparr>", OF _ _ _ this]
  show ?thesis by (fastforce simp: ascii_def publishes_utf8_def demo_poll_env_def registered_def)
qed

text \<open>C33: the counters of the processor agree with its state: over one message the shed counter grows exactly as
  propagations are shed, broken transfers are counted once whether they start or are shed, a failure is
  counted exactly when the claim ends with an error, and a message counts as processed exactly when it was
  decoded and marked.\<close>

theorem message_counters_agree:
  assumes "consume_message h local key d st = (err, st')" and "us = consume_updates h local topic part seconds d st"
  shows "pc_shed st' = pc_shed st + count_updates (Inc ProcessorPropagationsShed []) us
    \<and> length (pc_propSem st') + pc_shed st'
        = length (pc_propSem st) + pc_shed st + count_updates (Inc ProcessorBrokenTransfers []) us
    \<and> count_updates (Inc ProcessorEventFailures []) us = (if err = None then 0 else 1)
    \<and> count_updates (Inc ProcessorEventsProcessed []) us
        = (if err = None \<and> ch_unmarshal h (cm_Value (dl_Message d)) \<noteq> None then 1 else 0)"
proof -
  let ?L = "mput key (partition_lag (dl_HighWaterMark d) (cm_Offset (dl_Message d))) (pc_lags st)"
  show ?thesis
  proof (cases "ch_unmarshal h (cm_Value (dl_Message d))")
    case None
    with assms show ?thesis by (auto simp: consume_message_def consume_updates_def Let_def)
  next
    case (Some ev0)
    obtain e waits r1 where w: "withRetry (dl_cancelled d) 3 200000000
        (ProcessEvent (ch_rdb h) (Some (ch_graph h)) (fst (enrichEvent local (dl_now d) (ch_graph h) ev0))) (pc_redis st)
        = (e, waits, r1)" using prod_cases3 by blast
    obtain e2 r2 where o: "OnDelayEvent (ch_rdb h) (ch_eval h) (dl_now d) (fst (enrichEvent local (dl_now d) (ch_graph h) ev0)) r1
        = (e2, r2)" by fastforce
    obtain impacts r3 p3 where v: "EvaluateDelay (ch_rdb h) local (dl_now d) (ch_graph h) (Some (ch_publish h))
        (fst (enrichEvent local (dl_now d) (ch_graph h) ev0)) (r2, pc_broker st) = (impacts, r3, p3)"
      using prod_cases3 by blast
    show ?thesis
    proof (cases e)
      case (Some err1)
      with assms \<open>ch_unmarshal h (cm_Value (dl_Message d)) = Some ev0\<close> w show ?thesis
        by (auto simp: consume_message_def consume_updates_def Let_def enrich_counts)
    next
      case None
      from impact_counts [of "st\<lparr>pc_lags := ?L, pc_redis := r3, pc_broker := p3\<rparr>" st impacts] None
        assms \<open>ch_unmarshal h (cm_Value (dl_Message d)) = Some ev0\<close> w o v
      show ?thesis
        by (cases "pc_catchUp st") (auto simp: consume_message_def consume_updates_def Let_def enrich_counts)
    qed
  qed
qed

theorem message_counters_agree_witness:
  "\<exists>err st'. consume_message demo_handler (\<lambda>_. 0) ''t/0'' (demo_delivery 9 False) (demo_processor empty_redis) = (err, st')
     \<and> count_updates (Inc ProcessorEventsProcessed [])
         (consume_updates demo_handler (\<lambda>_. 0) ''t'' 0 1 (demo_delivery 9 False) (demo_processor empty_redis)) = 0"
proof -
  obtain err st' where c: "consume_message demo_handler (\<lambda>_. 0) ''t/0'' (demo_delivery 9 False) (demo_processor empty_redis) = (err, st')"
    by fastforce
  from message_counters_agree [OF c refl, of "''t''" 0 1] show ?thesis
    using c by (auto simp: demo_handler_def demo_delivery_def)
qed

end
