(* ===== verification/Sweep.thy ===== *)
theory Sweep
  imports Frames
begin

text \<open>
  What one sweep of \<open>internal/evaluation/evaluator.go\<close> achieves on a healthy connection: which predictions it
  takes, what it observes for each, what it leaves in the pending store and in the two history stores.
\<close>

section \<open>What is observed and where it is recorded\<close>

text \<open>The departures \<open>realizedWait\<close> asks for, and the prediction with its final observation.\<close>

abbreviation candidate_departures :: "TransitGraph \<Rightarrow> PendingPrediction \<Rightarrow> ScheduledStopTime list" where
  "candidate_departures g p \<equiv> GetNextDepartures g (pd_SourceStation p) (pd_RouteID p) (pd_SchedConnDepSecs p) 10"

definition settled :: "(string \<Rightarrow> DelayState option) \<Rightarrow> TransitGraph \<Rightarrow> PendingPrediction \<Rightarrow> PendingPrediction" where
  "settled m g p =
     (if pd_IsPrimary p \<and> 0 < pd_SchedConnDepSecs p
      then case realized_spec m g p (candidate_departures g p) of
             None \<Rightarrow> p
           | Some wait \<Rightarrow> p\<lparr>pd_ObservedMax := wait, pd_Matched := True\<rparr>
      else p)"

definition outcome_key :: "PendingPrediction \<Rightarrow> string" where
  "outcome_key p =
     (if pd_IsPrimary p
      then historyKey (pd_FromRoute p) (pd_RouteID p)
             (if pd_SourceStation p = [] then pd_StationID p else pd_SourceStation p) (pd_Hour p)
      else stopImpactKey (pd_RouteID p) (pd_StationID p) (pd_Hour p))"

definition outcome_member :: "int64 \<Rightarrow> PendingPrediction \<Rightarrow> json" where
  "outcome_member nano p =
     (if pd_IsPrimary p
      then marshal_observation \<lparr>ob_SourceDelay = pd_SourceDelaySecs p, ob_DownstreamImpact = pd_ObservedMax p, ob_At = nano\<rparr>
      else marshal_stopOutcome \<lparr>so_Observed = pd_ObservedMax p, so_At = nano\<rparr>)"

definition recorded :: "keyspace \<Rightarrow> int64 \<Rightarrow> int64 \<Rightarrow> PendingPrediction \<Rightarrow> bool" where
  "recorded m now nano p \<longleftrightarrow>
     (\<exists>z. zset m (outcome_key p) = Some z \<and> mget z (outcome_member nano p) = Some (of_int now))"

lemma outcome_keys [simp]:
  "pendingKey i \<noteq> outcome_key p" "expiryKey \<noteq> outcome_key p" "indexKey a b c \<noteq> outcome_key p"
  "outcome_key p \<noteq> pendingKey i" "outcome_key p \<noteq> expiryKey" "outcome_key p \<noteq> indexKey a b c"
  "\<not> delay_key (outcome_key p)"
  by (simp_all add: outcome_key_def historyKey_def stopImpactKey_def pendingKey_def pendingKeyPrefix_def expiryKey_def
      indexKey_def indexKeyPrefix_def delay_key_def)

lemma record_outcome_member:
  "record_outcome (store_recorders R now nano) p = record_member R (outcome_key p) now (outcome_member nano p)"
  by (rule ext) (simp add: record_outcome_def store_recorders_def RecordObservation_def RecordStopOutcome_def outcome_key_def
      outcome_member_def)

lemma settled_key: "outcome_key (settled m g p) = outcome_key p"
  by (auto simp: settled_def outcome_key_def split: option.split)

lemma same_delays_known:
  assumes "same_delays m m'"
  shows "known_delay (delays m') g a t s = known_delay (delays m) g a t s"
proof -
  have "delays m' (delayKey a t x) = delays m (delayKey a t x)" for x
    using assms by (simp add: same_delays_def delays_def)
  then show ?thesis by (simp add: known_delay_def split: option.split)
qed

lemma same_delays_settled:
  assumes "same_delays m m'"
  shows "settled (delays m') g p = settled (delays m) g p"
    and "plain_departures (delays m') g p deps = plain_departures (delays m) g p deps"
  using same_delays_known [OF assms]
  by (simp_all add: settled_def realized_spec_def plain_departures_def actual_departure_def)

lemma mget_filter_kept: "mget z k = Some v \<Longrightarrow> P (k, v) \<Longrightarrow> mget (filter P z) k = Some v"
  by (induction z) (auto split: if_splits)

lemma map_filter_same: "\<forall>x\<in>set xs. f x = g x \<Longrightarrow> List.map_filter f xs = List.map_filter g xs"
  by (induction xs) (simp_all add: map_filter_simps split: option.split)

lemma member_ids:
  "distinct ms \<Longrightarrow> distinct (List.map_filter member_id ms)
     \<and> (\<forall>i. i \<in> set (List.map_filter member_id ms) \<longleftrightarrow> JStr i \<in> set ms)"
  by (induction ms) (auto simp: map_filter_simps member_id_def split: json.splits)

section \<open>Observing, however Redis behaves\<close>

context redis_client
begin

lemma finalize_all_observed:
  "finalize_all R (store_recorders R now nano) e ps r = (out, r') \<Longrightarrow>
   list_all2 (\<lambda>p oc. \<exists>s. keeps r s \<and> oc = outcome_of (fst (observe R e p s))) ps out"
proof (induction ps arbitrary: r out)
  case (Cons p ps)
  obtain p1 r1 where o: "observe R e p r = (p1, r1)" by fastforce
  obtain x r2 where rec: "record_outcome (store_recorders R now nano) p1 r1 = (x, r2)" by fastforce
  obtain out1 where f: "finalize_all R (store_recorders R now nano) e ps r2 = (out1, r')" "out = outcome_of p1 # out1"
    using Cons.prems by (auto simp: o rec split: prod.splits)
  have "keeps r r2"
    using store.observe_frame [OF o] record_member_keeps [OF rec [unfolded record_outcome_member]] by simp
  then have "list_all2 (\<lambda>p oc. \<exists>s. keeps r s \<and> oc = outcome_of (fst (observe R e p s))) ps out1"
    using Cons.IH [OF f(1)] by (auto elim!: list_all2_mono intro: same_delays_trans)
  moreover have "\<exists>s. keeps r s \<and> outcome_of p1 = outcome_of (fst (observe R e p s))" using o by (intro exI [of _ r]) simp
  ultimately show ?case using f(2) by simp
qed simp

lemma PopExpired_keeps: "PopExpired R now limit r = (res, r') \<Longrightarrow> keeps r r'"
  by (auto simp: PopExpired_def split: prod.splits sum.splits dest!: ZRangeByScore_law claim_all_frame)

lemma sweep_any:
  assumes "sweepOnce R (store_recorders R now nano) e now r = (Inr out, r')"
  shows "\<exists>cl ps. distinct cl \<and> map (pendings (ks r)) cl = map Some ps \<and> length out \<le> 100
     \<and> list_all2 finalized ps out
     \<and> list_all2 (\<lambda>p oc. \<exists>s. keeps r s \<and> oc = outcome_of (fst (observe R e p s))) ps out
     \<and> (\<forall>i\<in>set cl. waiting (ks r) i \<and> expired_by (ks r) (i_to_f64 now) i \<and> \<not> waiting (ks r') i)"
proof -
  obtain res r1 where p: "PopExpired R now sweepBatchSize r = (res, r1)" by fastforce
  with assms obtain ps where ps: "res = Inr ps" "finalize_all R (store_recorders R now nano) e ps r1 = (out, r')"
    by (auto simp: sweepOnce_def split: sum.splits prod.splits)
  have "list_all2 (\<lambda>p oc. \<exists>s. keeps r s \<and> oc = outcome_of (fst (observe R e p s))) ps out"
    using finalize_all_observed [OF ps(2)] PopExpired_keeps [OF p] by (auto elim!: list_all2_mono intro: same_delays_trans)
  moreover from store.claimed_finalized [OF p [unfolded ps(1)] ps(2)] obtain cl where
    "distinct cl" "map (pendings (ks r)) cl = map Some ps" "length out \<le> 100" "list_all2 finalized ps out"
    "\<forall>i\<in>set cl. waiting (ks r) i \<and> expired_by (ks r) (i_to_f64 now) i \<and> \<not> waiting (ks r') i" by blast
  ultimately show ?thesis by blast
qed

end

section \<open>A healthy sweep\<close>

context healthy_redis
begin

lemma pending_get_exact:
  assumes "pending_get R i r = (res, r')" "healthy r"
  shows "healthy r' \<and> ks r' = ks r \<and> pendings (ks r) i = (case res of Inl e \<Rightarrow> None | Inr p \<Rightarrow> Some p)"
proof -
  obtain x r1 where g: "rd_Get R (pendingKey i) r = (x, r1)" by fastforce
  from Get_law [OF g] Get_healthy [OF assms(2) g] assms(1) show ?thesis
    by (auto simp: pending_get_def g pendings_def split: sum.splits option.splits)
qed

lemma claim_exact:
  assumes "claim R i r = (po, r')" "healthy r" "zset (ks r) expiryKey = Some z" "mget z (JStr i) \<noteq> None"
  shows "healthy r' \<and> po = pendings (ks r) i \<and> zset (ks r') expiryKey = Some (mdel (JStr i) z)
    \<and> pendings (ks r') i = None
    \<and> (\<forall>k. k \<noteq> expiryKey \<and> k \<noteq> pendingKey i \<and> (\<forall>a b c. k \<noteq> indexKey a b c) \<longrightarrow> ks r' k = ks r k)"
proof -
  obtain res r1 where 1: "rd_ZRem R expiryKey (JStr i) r = (res, r1)" by fastforce
  have z1: "healthy r1" "res = Inr 1" "ks r1 = put_zset expiryKey (mdel (JStr i) z) (ks r)"
    using ZRem_law [OF 1] ZRem_healthy [OF assms(2) 1] assms(3,4) by auto
  have p1: "pendings (ks r1) i = pendings (ks r) i" by (intro pendings_frame) (simp add: z1(3) put_zset_other)
  obtain g r2 where 2: "pending_get R i r1 = (g, r2)" by fastforce
  note pg = pending_get_exact [OF 2 z1(1)]
  show ?thesis
  proof (cases g)
    case (Inl e)
    then have "po = None" "r' = r2" using assms(1) by (auto simp: claim_def 1 2 z1(2))
    then show ?thesis using pg Inl p1 z1(3) by (auto simp: put_zset_other)
  next
    case (Inr p)
    obtain e r3 where 3: "pipe_exec [pipe_ZRem R (indexKey (pd_AgencyID p) (pd_RouteID p) (pd_StationID p)) (JStr i),
        rd_Del R [pendingKey i]] r2 = (e, r3)" by fastforce
    have r: "po = Some p" "r' = r3" using assms(1) Inr 3 by (auto simp: claim_def 1 2 z1(2) simp del: pipe_exec.simps)
    obtain e1 s1 where a: "rd_ZRem R (indexKey (pd_AgencyID p) (pd_RouteID p) (pd_StationID p)) (JStr i) r2 = (e1, s1)" by fastforce
    obtain e2 s2 where b: "rd_Del R [pendingKey i] s1 = (e2, s2)" by fastforce
    have s: "r3 = s2" using 3 by (auto simp: a b pipe_ZRem_def split: sum.splits option.splits)
    have h: "healthy s1" "healthy s2" "e2 = None"
      using ZRem_healthy [OF conjunct1 [OF pg] a] Del_healthy [of s1, OF _ b] by auto
    have "ks s2 = (\<lambda>k. if k = pendingKey i then None else ks s1 k)" using Del_law [OF b] h(3) by simp
    then have ks: "ks r3 k = (if k = pendingKey i then None else ks r1 k)" if "\<forall>a b c. k \<noteq> indexKey a b c" for k
      using ZRem_law [OF a] pg that by (auto simp: s put_zset_other)
    have "zset (ks r3) expiryKey = zset (ks r1) expiryKey" using ks [of expiryKey] by (simp add: zset_def)
    moreover have "pendings (ks r3) i = None" using ks [of "pendingKey i"] by (simp add: pendings_def)
    moreover have "ks r3 k = ks r k" if "k \<noteq> expiryKey" "k \<noteq> pendingKey i" "\<forall>a b c. k \<noteq> indexKey a b c" for k
      using ks [OF that(3)] that z1(3) by (simp add: put_zset_other)
    ultimately show ?thesis using r pg Inr p1 h(2) z1(3) s by simp
  qed
qed

lemma claim_all_exact:
  assumes "claim_all R is r = (out, r')" "healthy r" "zset (ks r) expiryKey = Some z" "distinct is"
    and "\<forall>i\<in>set is. mget z (JStr i) \<noteq> None"
  shows "healthy r' \<and> out = List.map_filter (pendings (ks r)) is
    \<and> (\<exists>z'. zset (ks r') expiryKey = Some z' \<and> (\<forall>i. mget z' (JStr i) = (if i \<in> set is then None else mget z (JStr i))))
    \<and> (\<forall>i. pendings (ks r') i = (if i \<in> set is then None else pendings (ks r) i))
    \<and> (\<forall>k. k \<noteq> expiryKey \<and> (\<forall>i. k \<noteq> pendingKey i) \<and> (\<forall>a b c. k \<noteq> indexKey a b c) \<longrightarrow> ks r' k = ks r k)"
  using assms
proof (induction "is" arbitrary: r z out)
  case (Cons i "is")
  obtain po r1 where c: "claim R i r = (po, r1)" by fastforce
  obtain out1 where a: "claim_all R is r1 = (out1, r')"
    using Cons.prems(1) by (auto simp: c split: option.splits prod.splits)
  have o: "out = (case po of None \<Rightarrow> out1 | Some p \<Rightarrow> p # out1)" using Cons.prems(1) by (auto simp: c a split: option.splits)
  have c': "healthy r1" "po = pendings (ks r) i" "zset (ks r1) expiryKey = Some (mdel (JStr i) z)" "pendings (ks r1) i = None"
    "\<And>k. k \<noteq> expiryKey \<Longrightarrow> k \<noteq> pendingKey i \<Longrightarrow> (\<forall>a b c. k \<noteq> indexKey a b c) \<Longrightarrow> ks r1 k = ks r k"
    using claim_exact [OF c Cons.prems(2,3)] Cons.prems(5) by auto
  have f: "pendings (ks r1) j = pendings (ks r) j" if "j \<noteq> i" for j
    using c'(5) [of "pendingKey j"] that by (intro pendings_frame) simp
  have "\<forall>j\<in>set is. mget (mdel (JStr i) z) (JStr j) \<noteq> None" "distinct is" using Cons.prems(4,5) by auto
  from Cons.IH [OF a c'(1,3) this(2,1)] obtain z' where ih: "healthy r'" "out1 = List.map_filter (pendings (ks r1)) is"
    "zset (ks r') expiryKey = Some z'" "\<forall>j. mget z' (JStr j) = (if j \<in> set is then None else mget (mdel (JStr i) z) (JStr j))"
    "\<forall>j. pendings (ks r') j = (if j \<in> set is then None else pendings (ks r1) j)"
    "\<forall>k. k \<noteq> expiryKey \<and> (\<forall>i. k \<noteq> pendingKey i) \<and> (\<forall>a b c. k \<noteq> indexKey a b c) \<longrightarrow> ks r' k = ks r1 k" by blast
  have "List.map_filter (pendings (ks r1)) is = List.map_filter (pendings (ks r)) is"
    using Cons.prems(4) by (intro map_filter_same ballI f) auto
  then have "out = List.map_filter (pendings (ks r)) (i # is)"
    by (simp add: o c'(2) ih(2) map_filter_simps split: option.split)
  moreover have "\<forall>j. mget z' (JStr j) = (if j \<in> set (i # is) then None else mget z (JStr j))" using ih(4) by simp
  moreover have "\<forall>j. pendings (ks r') j = (if j \<in> set (i # is) then None else pendings (ks r) j)"
    using ih(5) f c'(4) by auto
  ultimately show ?case using ih(1,3,6) c'(5) by (intro conjI exI [of _ z']) auto
qed (auto simp: map_filter_simps)

lemma observe_exact:
  assumes "observe R e p r = (p1, r1)" "healthy r"
    and "plain_departures (delays (ks r)) (el_graph e) p (candidate_departures (el_graph e) p)"
  shows "p1 = settled (delays (ks r)) (el_graph e) p \<and> ks r1 = ks r \<and> healthy r1"
proof (cases "pd_IsPrimary p \<and> 0 < pd_SchedConnDepSecs p")
  case True
  obtain w r2 where w: "realizedWait R e p r = (w, r2)" by fastforce
  from realized_loop_spec [OF w [unfolded realizedWait_def] assms(2,3)] assms(1) True w show ?thesis
    by (auto simp: observe_def settled_def split: option.splits)
qed (use assms in \<open>auto simp: observe_def settled_def\<close>)

lemma record_outcome_exact:
  assumes "record_outcome (store_recorders R now nano) p r = (err, r')" "healthy r" "plain_time now"
    and "zset (ks r) (outcome_key p) \<noteq> None"
  shows "healthy r' \<and> recorded (ks r') now nano p \<and> (\<forall>k. k \<noteq> outcome_key p \<longrightarrow> ks r' k = ks r k)
    \<and> (\<forall>q. zset (ks r) (outcome_key q) \<noteq> None \<longrightarrow> zset (ks r') (outcome_key q) \<noteq> None)
    \<and> (\<forall>q. recorded (ks r) now nano q \<longrightarrow> recorded (ks r') now nano q)"
proof -
  let ?k = "outcome_key p" and ?m = "outcome_member nano p" and ?cut = "of_int (now - historyRetentionSecs) :: rat"
  obtain z where z: "zset (ks r) ?k = Some z" using assms(4) by blast
  obtain e1 r1 where a: "rd_ZAdd R ?k (of_int now) ?m r = (e1, r1)" by fastforce
  obtain e2 r2 where b: "rd_ZRemRangeByScore R ?k ?cut r1 = (e2, r2)" by fastforce
  have r: "r' = r2" using assms(1) by (simp add: record_outcome_member record_member_def Let_def plain_time_f64 assms(3) a b del: of_int_diff)
  have 1: "healthy r1" "ks r1 = put_zset ?k (mput ?m (of_int now) z) (ks r)"
    using ZAdd_healthy [OF assms(2) a] ZAdd_law [OF a] z by auto
  have 2: "healthy r2" "ks r2 = put_zset ?k (filter (\<lambda>x. \<not> snd x \<le> ?cut) (mput ?m (of_int now) z)) (ks r1)"
    using ZRemRangeByScore_healthy [OF 1(1) b] ZRemRangeByScore_law [OF b] 1(2) by auto
  have z2: "zset (ks r2) k = (if k = ?k then Some (filter (\<lambda>x. \<not> snd x \<le> ?cut) (mput ?m (of_int now) z)) else zset (ks r) k)" for k
    by (simp add: 2(2) 1(2))
  have cut: "\<not> (of_int now :: rat) \<le> ?cut" by (simp add: historyRetentionSecs_def historyRetentionDays_def)
  have kept: "mget (filter (\<lambda>x. \<not> snd x \<le> ?cut) (mput ?m (of_int now) z)) q = Some (of_int now)"
    if "q = ?m \<or> mget z q = Some (of_int now)" for q
    by (rule mget_filter_kept) (use that cut in auto)
  have "recorded (ks r2) now nano q" if "recorded (ks r) now nano q \<or> q = p" for q
    using that kept z by (auto simp: recorded_def z2)
  moreover have "ks r2 k = ks r k" if "k \<noteq> ?k" for k using that by (simp add: 2(2) 1(2) put_zset_other)
  ultimately show ?thesis using 2(1) unfolding r z2 by auto
qed

lemma finalize_all_exact:
  assumes "finalize_all R (store_recorders R now nano) e ps r = (out, r')" "healthy r" "plain_time now"
    and "\<forall>p\<in>set ps. plain_departures (delays (ks r)) (el_graph e) p (candidate_departures (el_graph e) p)
           \<and> zset (ks r) (outcome_key p) \<noteq> None"
  shows "out = map (\<lambda>p. outcome_of (settled (delays (ks r)) (el_graph e) p)) ps
    \<and> (\<forall>oc\<in>set out. recorded (ks r') now nano (oc_Pending oc)) \<and> healthy r'
    \<and> (\<forall>q. recorded (ks r) now nano q \<longrightarrow> recorded (ks r') now nano q)
    \<and> (\<forall>i. pendings (ks r') i = pendings (ks r) i \<and> waiting (ks r') i = waiting (ks r) i)"
  using assms(1,2,4)
proof (induction ps arbitrary: r out)
  case (Cons p ps)
  let ?g = "el_graph e"
  obtain p1 r1 where o: "observe R e p r = (p1, r1)" by fastforce
  obtain x r2 where rec: "record_outcome (store_recorders R now nano) p1 r1 = (x, r2)" by fastforce
  obtain out1 where f: "finalize_all R (store_recorders R now nano) e ps r2 = (out1, r')" "out = outcome_of p1 # out1"
    using Cons.prems by (auto simp: o rec split: prod.splits)
  have 1: "p1 = settled (delays (ks r)) ?g p" "ks r1 = ks r" "healthy r1"
    using observe_exact [OF o Cons.prems(2)] Cons.prems(3) by auto
  have k: "outcome_key p1 = outcome_key p" by (simp add: 1(1) settled_key)
  have 2: "healthy r2" "recorded (ks r2) now nano p1" "\<And>k. k \<noteq> outcome_key p1 \<Longrightarrow> ks r2 k = ks r k"
    "\<And>q. zset (ks r) (outcome_key q) \<noteq> None \<Longrightarrow> zset (ks r2) (outcome_key q) \<noteq> None"
    "\<And>q. recorded (ks r) now nano q \<Longrightarrow> recorded (ks r2) now nano q"
    using record_outcome_exact [OF rec 1(3) assms(3)] Cons.prems(3) unfolding 1(2) k by auto
  have s: "keeps r r2" unfolding same_delays_def using 2(3) outcome_keys(7) by metis
  have "\<forall>p\<in>set ps. plain_departures (delays (ks r2)) ?g p (candidate_departures ?g p) \<and> zset (ks r2) (outcome_key p) \<noteq> None"
    using Cons.prems(3) 2(4) same_delays_settled(2) [OF s] by simp
  from Cons.IH [OF f(1) 2(1) this] have ih:
    "out1 = map (\<lambda>p. outcome_of (settled (delays (ks r)) ?g p)) ps" "\<forall>oc\<in>set out1. recorded (ks r') now nano (oc_Pending oc)"
    "healthy r'" "\<forall>q. recorded (ks r2) now nano q \<longrightarrow> recorded (ks r') now nano q"
    "\<forall>i. pendings (ks r') i = pendings (ks r2) i \<and> waiting (ks r') i = waiting (ks r2) i"
    by (simp_all add: same_delays_settled(1) [OF s])
  have "pendings (ks r2) i = pendings (ks r) i \<and> waiting (ks r2) i = waiting (ks r) i" for i
    using 2(3) pendings_frame [of "ks r2" i "ks r"] waiting_frame [of "ks r2" "ks r" i] by simp
  then show ?case using f(2) ih 1(1) 2(2,5) by auto
qed simp

lemma sweep_exact:
  assumes "sweepOnce R (store_recorders R now nano) e now r = (res, r')" "healthy r" "plain_time now"
    and "zset (ks r) expiryKey = Some z" "distinct (map fst z)"
    and "\<forall>i p. pendings (ks r) i = Some p \<longrightarrow>
           plain_departures (delays (ks r)) (el_graph e) p (candidate_departures (el_graph e) p)
           \<and> zset (ks r) (outcome_key p) \<noteq> None"
  shows "\<exists>xs due. mset xs = mset (filter (\<lambda>x. snd x \<le> of_int now) z) \<and> sorted (map snd xs)
     \<and> due = List.map_filter member_id (map fst (take 100 xs))
     \<and> res = Inr (map (\<lambda>p. outcome_of (settled (delays (ks r)) (el_graph e) p)) (List.map_filter (pendings (ks r)) due))
     \<and> (\<forall>p\<in>set (List.map_filter (pendings (ks r)) due).
          recorded (ks r') now nano (settled (delays (ks r)) (el_graph e) p))
     \<and> (\<forall>i. waiting (ks r') i = (waiting (ks r) i \<and> i \<notin> set due)
          \<and> pendings (ks r') i = (if i \<in> set due then None else pendings (ks r) i))"
proof -
  obtain rng r1 where 1: "rd_ZRangeByScore R expiryKey None (Some (of_int now)) (Some 100) r = (rng, r1)" by fastforce
  have scores: "in_scores None (Some (of_int now)) = (\<lambda>x. snd x \<le> of_int now)" by (simp add: in_scores_def fun_eq_iff)
  have h1: "healthy r1" "rng \<noteq> Inl RedisErr" using ZRangeByScore_healthy [OF assms(2) 1] assms(4) by auto
  obtain xs where xs: "mset xs = mset (filter (\<lambda>x. snd x \<le> of_int now) z)" "sorted (map snd xs)"
    "rng = Inr (map fst (take 100 xs))" "ks r1 = ks r"
    using ZRangeByScore_law [OF 1] h1(2) assms(4) by (auto simp: scores)
  define due where "due = List.map_filter member_id (map fst (take 100 xs))"
  have sub: "set (take 100 xs) \<subseteq> set z" using set_take_subset [of 100 xs] mset_eq_setD [OF xs(1)] by auto
  have dist: "distinct (map fst (take 100 xs))"
  proof -
    have "distinct (map fst (filter (\<lambda>x. snd x \<le> of_int now) z))" by (rule distinct_map_filter [OF assms(5)])
    then have "distinct (map fst xs)" using mset_eq_imp_distinct_iff [of "map fst xs"] xs(1) by (metis mset_map)
    then show ?thesis by (metis distinct_take take_map)
  qed
  have d: "distinct due" and due_in: "i \<in> set due \<longleftrightarrow> JStr i \<in> fst ` set (take 100 xs)" for i
    using member_ids [OF dist] by (simp_all add: due_def)
  have z: "\<forall>i\<in>set due. mget z (JStr i) \<noteq> None"
    using due_in image_mono [OF sub, of fst] unfolding map_of_eq_None_iff by blast
  obtain ps r2 where 2: "claim_all R due r1 = (ps, r2)" by fastforce
  obtain out r3 where 3: "finalize_all R (store_recorders R now nano) e ps r2 = (out, r3)" by fastforce
  have r: "res = Inr out" "r' = r3"
    using assms(1)
    by (simp_all add: sweepOnce_def PopExpired_def sweepBatchSize_def plain_time_f64 assms(3) 1 xs(3) 2 3 flip: due_def)
  from claim_all_exact [OF 2 h1(1) _ d z] assms(4) obtain z' where c:
    "healthy r2" "ps = List.map_filter (pendings (ks r)) due" "zset (ks r2) expiryKey = Some z'"
    "\<And>i. mget z' (JStr i) = (if i \<in> set due then None else mget z (JStr i))"
    "\<And>i. pendings (ks r2) i = (if i \<in> set due then None else pendings (ks r) i)"
    "\<And>k. k \<noteq> expiryKey \<Longrightarrow> (\<forall>i. k \<noteq> pendingKey i) \<Longrightarrow> (\<forall>a b c. k \<noteq> indexKey a b c) \<Longrightarrow> ks r2 k = ks r k"
    unfolding xs(4) by auto
  have keep: "keeps r r2" using claim_all_frame [OF 2] xs(4) by simp
  have "zset (ks r2) (outcome_key p) = zset (ks r) (outcome_key p)" for p
    using c(6) [of "outcome_key p"] by (simp add: zset_def)
  moreover have "\<exists>i. pendings (ks r) i = Some p" if "p \<in> set ps" for p
    using that by (auto simp: c(2) List.map_filter_def)
  ultimately have "\<forall>p\<in>set ps. plain_departures (delays (ks r2)) (el_graph e) p (candidate_departures (el_graph e) p)
      \<and> zset (ks r2) (outcome_key p) \<noteq> None"
    unfolding same_delays_settled(2) [OF keep] using assms(6) by metis
  from finalize_all_exact [OF 3 c(1) assms(3) this] have f:
    "out = map (\<lambda>p. outcome_of (settled (delays (ks r)) (el_graph e) p)) ps"
    "\<forall>oc\<in>set out. recorded (ks r3) now nano (oc_Pending oc)"
    "\<forall>i. pendings (ks r3) i = pendings (ks r2) i \<and> waiting (ks r3) i = waiting (ks r2) i"
    by (simp_all add: same_delays_settled(1) [OF keep])
  have "waiting (ks r2) i = (waiting (ks r) i \<and> i \<notin> set due)" for i
    using c(3,4) assms(4) by (simp add: waiting_def)
  then show ?thesis
    using xs(1,2) f c(2,5) by (intro exI [of _ xs] exI [of _ due]) (simp add: r due_def)
qed

end

section \<open>The property\<close>

text \<open>C14: a sweep finalizes what has expired, once. However Redis behaves, what it finalizes are at most 100
  stored predictions of different IDs that waited in the expiry set with an expired score, and none of
  these IDs waits afterwards; only a primary with a connection frame has its observation replaced, by what
  \<open>realizedWait\<close> answers, and a prediction is verified exactly when the observed delay is at least 15 seconds
  and half of the predicted one. On a healthy connection these are exactly the first 100 by expiry whose
  documents can be read; the observation that counts for a framed primary is the wait for the first
  boardable departure; every outcome is recorded, in the history of its transfer or of its stop; these
  predictions and their documents are gone, and the others are untouched.\<close>

theorem sweep_finalizes_once:
  assumes "redis_client R ks" and "sweepOnce R (store_recorders R now nano) e now r = (res, r')"
  shows "(\<forall>out. res = Inr out \<longrightarrow>
      (\<exists>cl ps. distinct cl \<and> map (pendings (ks r)) cl = map Some ps \<and> length out \<le> 100
         \<and> list_all2 finalized ps out
         \<and> list_all2 (\<lambda>p oc. \<exists>s. same_delays (ks r) (ks s) \<and> oc = outcome_of (fst (observe R e p s))) ps out
         \<and> (\<forall>i\<in>set cl. waiting (ks r) i \<and> expired_by (ks r) (i_to_f64 now) i \<and> \<not> waiting (ks r') i)))
    \<and> (\<forall>healthy z. healthy_redis R ks healthy \<and> healthy r \<and> plain_time now
        \<and> zset (ks r) expiryKey = Some z \<and> distinct (map fst z)
        \<and> (\<forall>i p. pendings (ks r) i = Some p \<longrightarrow>
             plain_departures (delays (ks r)) (el_graph e) p (candidate_departures (el_graph e) p)
             \<and> zset (ks r) (outcome_key p) \<noteq> None) \<longrightarrow>
       (\<exists>xs due. mset xs = mset (filter (\<lambda>x. snd x \<le> of_int now) z) \<and> sorted (map snd xs)
         \<and> due = List.map_filter member_id (map fst (take 100 xs))
         \<and> res = Inr (map (\<lambda>p. outcome_of (settled (delays (ks r)) (el_graph e) p)) (List.map_filter (pendings (ks r)) due))
         \<and> (\<forall>p\<in>set (List.map_filter (pendings (ks r)) due).
              recorded (ks r') now nano (settled (delays (ks r)) (el_graph e) p))
         \<and> (\<forall>i. waiting (ks r') i = (waiting (ks r) i \<and> i \<notin> set due)
              \<and> pendings (ks r') i = (if i \<in> set due then None else pendings (ks r) i))))"
proof (intro conjI allI impI, goal_cases)
  case (1 out)
  from redis_client.sweep_any [OF assms(1) assms(2) [unfolded 1]] show ?case .
next
  case (2 healthy z)
  then show ?case by (elim conjE) (rule healthy_redis.sweep_exact [OF _ assms(2)])
qed

text \<open>The prediction of the example, in a store where its connection is known to be late.\<close>

definition late_store :: mem_redis where
  "late_store = snd (Add mem_client 1000000000000 demo_pending demo_redis)"

lemma late_store_data:
  "pendings (mem_ks late_store) i = (if i = ''p1'' then Some demo_pending else None)"
  "zset (mem_ks late_store) expiryKey = Some [(JStr ''p1'', 2800)]"
  "zset (mem_ks late_store) (outcome_key demo_pending) = Some []"
  "mem_healthy late_store" "same_delays (mem_ks demo_redis) (mem_ks late_store)"
proof -
  have d: "mr_data late_store = mr_data demo_redis @ [(''pending:pred:p1'', VStr (marshal_pending demo_pending)),
      (''pending:idx:MTA:A:Q'', VZSet [(JStr ''p1'', 2800)]), (''pending:expiry'', VZSet [(JStr ''p1'', 2800)])]"
    by code_simp
  have k: "fst ` set (mr_data demo_redis) = {''delay:MTA:W_1:a''}" by code_simp
  then have n: "map_of (mr_data demo_redis) x = None" if "x \<noteq> ''delay:MTA:W_1:a''" for x
    using that by (simp add: map_of_eq_None_iff del: mem_ks_simps)
  have m: "mem_ks late_store x = (case map_of (mr_data demo_redis) x of
      None \<Rightarrow> map_of [(''pending:pred:p1'', VStr (marshal_pending demo_pending)),
      (''pending:idx:MTA:A:Q'', VZSet [(JStr ''p1'', 2800)]), (''pending:expiry'', VZSet [(JStr ''p1'', 2800)])] x
    | Some v \<Rightarrow> Some v)" for x
    by (simp add: mem_ks_def d map_add_def del: mem_ks_simps split: option.split)
  have ok: "pending_ok demo_pending" by (simp add: pending_ok_def demo_pending_def in_i32_def in_i64_def)
  show "pendings (mem_ks late_store) i = (if i = ''p1'' then Some demo_pending else None)"
    using unmarshal_marshal_pending [OF ok] by (simp add: pendings_def m n pendingKey_def pendingKeyPrefix_def del: mem_ks_simps)
  show "zset (mem_ks late_store) expiryKey = Some [(JStr ''p1'', 2800)]"
    unfolding zset_def m expiryKey_def by (simp add: n del: mem_ks_simps)
  show "zset (mem_ks late_store) (outcome_key demo_pending) = Some []"
    unfolding zset_def m by (simp add: n outcome_key_def historyKey_def demo_pending_def del: mem_ks_simps)
  show "mem_healthy late_store" by code_simp
  show "same_delays (mem_ks demo_redis) (mem_ks late_store)"
    by (auto simp: same_delays_def delay_key_def m split: option.split)
qed

lemma late_wait:
  "realized_spec (delays (mem_ks demo_redis)) demo_graph demo_pending (candidate_departures demo_graph demo_pending) = Some 600"
  "plain_departures (delays (mem_ks demo_redis)) demo_graph demo_pending (candidate_departures demo_graph demo_pending)"
proof -
  have f: "pd_SourceStation demo_pending = ''P''" "pd_RouteID demo_pending = ''A''"
    "pd_SchedConnDepSecs demo_pending = 36030" "pd_EarliestCatchSecs demo_pending = 36500"
    by (simp_all add: demo_pending_def)
  have u: "usable demo_graph demo_pending (demo_sst ''W_2'' ''a'' 36600 36630 1)"
    by (simp add: usable_def demo_pending_def demo_sst_def demo_graph_facts)
  have t: "DepartureSecs (demo_sst x y a b c) = b" for x y a b c by (simp add: demo_sst_def)
  show "realized_spec (delays (mem_ks demo_redis)) demo_graph demo_pending (candidate_departures demo_graph demo_pending) = Some 600"
    using u by (simp add: f demo_deps realized_spec_def t demo_actual)
  show "plain_departures (delays (mem_ks demo_redis)) demo_graph demo_pending (candidate_departures demo_graph demo_pending)"
    by (simp add: plain_departures_def demo_deps demo_actual f in_i32_def)
qed

theorem sweep_finalizes_once_witness:
  "\<exists>oc r'. sweepOnce mem_client (store_recorders mem_client 2900 5) demo_evaluator 2900 late_store = (Inr [oc], r')
     \<and> oc_Pending oc = demo_pending\<lparr>pd_ObservedMax := 600, pd_Matched := True\<rparr> \<and> oc_Verified oc
     \<and> recorded (mem_ks r') 2900 5 (oc_Pending oc) \<and> pendings (mem_ks r') ''p1'' = None"
proof -
  obtain res r' where s: "sweepOnce mem_client (store_recorders mem_client 2900 5) demo_evaluator 2900 late_store = (res, r')"
    by fastforce
  let ?p = "demo_pending\<lparr>pd_ObservedMax := 600, pd_Matched := True\<rparr>"
  have e: "el_graph demo_evaluator = demo_graph" by (simp add: demo_evaluator_def)
  have st: "settled (delays (mem_ks late_store)) demo_graph demo_pending = ?p"
    unfolding same_delays_settled(1) [OF late_store_data(5)] by (simp add: settled_def late_wait) (simp add: demo_pending_def)
  have "\<forall>i p. pendings (mem_ks late_store) i = Some p \<longrightarrow>
      plain_departures (delays (mem_ks late_store)) (el_graph demo_evaluator) p (candidate_departures (el_graph demo_evaluator) p)
      \<and> zset (mem_ks late_store) (outcome_key p) \<noteq> None"
    using late_wait(2) late_store_data(3) by (simp add: late_store_data(1) e same_delays_settled(2) [OF late_store_data(5)])
  then have hyp: "healthy_redis mem_client mem_ks mem_healthy \<and> mem_healthy late_store \<and> plain_time 2900
      \<and> zset (mem_ks late_store) expiryKey = Some [(JStr ''p1'', 2800)] \<and> distinct (map fst [(JStr ''p1'', 2800 :: rat)])
      \<and> (\<forall>i p. pendings (mem_ks late_store) i = Some p \<longrightarrow>
      plain_departures (delays (mem_ks late_store)) (el_graph demo_evaluator) p (candidate_departures (el_graph demo_evaluator) p)
      \<and> zset (mem_ks late_store) (outcome_key p) \<noteq> None)"
    using late_store_data(2,4) mem.healthy_redis_axioms by (simp add: plain_time_def)
  obtain xs due where x: "mset xs = mset (filter (\<lambda>x. snd x \<le> of_int 2900) [(JStr ''p1'', 2800 :: rat)])"
    "due = List.map_filter member_id (map fst (take 100 xs))"
    "res = Inr (map (\<lambda>p. outcome_of (settled (delays (mem_ks late_store)) demo_graph p)) (List.map_filter (pendings (mem_ks late_store)) due))"
    "\<forall>p\<in>set (List.map_filter (pendings (mem_ks late_store)) due).
       recorded (mem_ks r') 2900 5 (settled (delays (mem_ks late_store)) demo_graph p)"
    "\<forall>i. waiting (mem_ks r') i = (waiting (mem_ks late_store) i \<and> i \<notin> set due)
       \<and> pendings (mem_ks r') i = (if i \<in> set due then None else pendings (mem_ks late_store) i)"
    using conjunct2 [OF sweep_finalizes_once [OF mem.redis_client_axioms s], THEN spec, THEN spec, THEN mp, OF hyp]
    unfolding e by (elim exE conjE) (rule that)
  from x(1) have "xs = [(JStr ''p1'', 2800)]" by simp
  then have due: "due = [''p1'']" using x(2) by (simp add: map_filter_simps member_id_def)
  have "res = Inr [outcome_of ?p]" "recorded (mem_ks r') 2900 5 ?p" "pendings (mem_ks r') ''p1'' = None"
    using x(3-5) by (simp_all add: due map_filter_simps late_store_data(1) st)
  moreover have "oc_Verified (outcome_of ?p)"
    by (subst outcome_verified) (simp_all add: demo_pending_def in_i32_def)
  ultimately show ?thesis using s by (intro exI [of _ "outcome_of ?p"] exI [of _ r']) simp
qed

end
