(* ===== verification/Reliability.thy ===== *)
theory Reliability
  imports ServerProps
begin

text \<open>
  What \<open>GetTransferStats\<close> (\<open>internal/propagation/history.go\<close>) and the handler \<open>GetTransferReliability\<close> answer:
  the history keys of a station and hour are found by a glob pattern and taken apart again, and each pair
  with samples in the retention window is listed with their mean and number.
\<close>

section \<open>Keys\<close>

abbreviation colon_free :: "string \<Rightarrow> bool" where
  "colon_free s \<equiv> CHR '':'' \<notin> set s"

lemma glob_star_append: "glob (CHR ''*'' # ps) s \<longleftrightarrow> (\<exists>a b. s = a @ b \<and> glob ps b)"
proof (induction s)
  case (Cons c s)
  have "(\<exists>a b. c # s = a @ b \<and> glob ps b) \<longleftrightarrow> glob ps (c # s) \<or> (\<exists>a b. s = a @ b \<and> glob ps b)"
    by (auto simp: Cons_eq_append_conv)
  then show ?case using Cons by simp
qed simp

lemma itoa_glob_free: "glob_free (itoa n)"
proof -
  have d: "is_digit c \<Longrightarrow> c \<noteq> CHR ''*'' \<and> c \<noteq> CHR ''?'' \<and> c \<noteq> CHR ''['' \<and> c \<noteq> CHR 0x5C" for c by (auto simp: is_digit_def)
  have "0 \<le> m \<Longrightarrow> glob_free (show_digits m)" for m
    using show_digits_digits [of m] d by (auto simp: glob_free_def list_all_iff)
  then show ?thesis by (cases "n < 0") (auto simp: itoa_def glob_free_def)
qed

definition stats_pattern :: "string \<Rightarrow> int \<Rightarrow> string" where
  "stats_pattern station hour = ''history:*:*:'' @ station @ '':'' @ itoa hour"

lemma stats_pattern_glob:
  assumes "glob_free station"
  shows "glob (stats_pattern station hour) key \<longleftrightarrow> (\<exists>a b. key = historyKey a b station hour)"
proof -
  have f: "glob_free ''history:''" "glob_free '':''" "glob_free (station @ '':'' @ itoa hour)"
    using assms itoa_glob_free [of hour] by (auto simp: glob_free_def)
  have tail: "glob (station @ '':'' @ itoa hour) s \<longleftrightarrow> s = station @ '':'' @ itoa hour" for s
    using glob_literal_append [OF f(3), of "[]" s] by simp
  have "stats_pattern station hour
      = ''history:'' @ CHR ''*'' # '':'' @ CHR ''*'' # '':'' @ station @ '':'' @ itoa hour"
    by (simp add: stats_pattern_def)
  then show ?thesis
    unfolding historyKey_def
    by (simp only: glob_literal_append [OF f(1)] glob_star_append glob_literal_append [OF f(2)] tail) (simp, metis)
qed

lemma str_splitn_parts:
  "str_splitn c (Suc n) s = ps \<Longrightarrow> length ps = Suc n \<Longrightarrow>
   \<exists>qs r. ps = qs @ [r] \<and> length qs = n \<and> (\<forall>q \<in> set qs. c \<notin> set q) \<and> s = concat (map (\<lambda>q. q @ [c]) qs) @ r"
proof (induction n arbitrary: s ps)
  case (Suc n)
  obtain i where i: "str_index c s = Some i"
    using Suc.prems by (cases "str_index c s") auto
  from str_index_Some [OF i] obtain a d where s: "s = a @ c # d" "c \<notin> set a" "take i s = a" "drop (i + 1) s = d"
    using id_take_nth_drop [of i s] by fastforce
  have ps: "ps = a # str_splitn c (Suc n) d" using Suc.prems(1) i s(3,4) by simp
  then have "length (str_splitn c (Suc n) d) = Suc n" using Suc.prems(2) by simp
  from Suc.IH [OF refl this] obtain qs r where "str_splitn c (Suc n) d = qs @ [r]" "length qs = n"
    "\<forall>q \<in> set qs. c \<notin> set q" "d = concat (map (\<lambda>q. q @ [c]) qs) @ r"
    by blast
  then show ?case
    using s(1,2) ps by (intro exI [of _ "a # qs"] exI [of _ r]) simp
qed auto

lemma str_splitn_join: "c \<notin> set p \<Longrightarrow> str_splitn c (Suc (Suc n)) (p @ c # q) = p # str_splitn c (Suc n) q"
  by (simp add: str_index_append)

lemma atoi_colon_free: "snd (atoi s) \<Longrightarrow> colon_free s"
  using is_digit_facts by (fastforce simp: atoi_def Let_def list_all_iff split: list.splits if_splits)

text \<open>A key of the station and hour is taken apart into its routes exactly when they are free of colons.\<close>

lemma key_routes_history:
  assumes "colon_free station" "in_i64 hour"
  shows "key_routes (historyKey a b station hour) = (if colon_free a \<and> colon_free b then Some (a, b) else None)"
proof (cases "colon_free a \<and> colon_free b")
  case True
  let ?s1 = "station @ CHR '':'' # itoa hour" let ?b1 = "b @ CHR '':'' # ?s1" let ?a1 = "a @ CHR '':'' # ?b1"
  have "str_splitn CHR '':'' 5 (''history'' @ CHR '':'' # ?a1) = [''history'', a, b, station, itoa hour]"
    using True assms(1) str_splitn_join [of "CHR '':''" "''history''" 3 ?a1] str_splitn_join [of "CHR '':''" a 2 ?b1]
      str_splitn_join [of "CHR '':''" b 1 ?s1] str_splitn_join [of "CHR '':''" station 0 "itoa hour"]
    by (simp add: numeral_eq_Suc del: str_splitn.simps(3))
  moreover have "historyKey a b station hour = ''history'' @ CHR '':'' # ?a1" by (simp add: historyKey_def)
  ultimately have "str_splitn CHR '':'' 5 (historyKey a b station hour) = [''history'', a, b, station, itoa hour]" by simp
  then show ?thesis using True assms(2) by (simp add: key_routes_def Let_def atoi_itoa)
next
  case False
  let ?ps = "str_splitn CHR '':'' 5 (historyKey a b station hour)"
  have "\<not> snd (atoi (?ps ! 4))" if len: "length ?ps = 5"
  proof
    assume ok: "snd (atoi (?ps ! 4))"
    obtain qs r where p: "?ps = qs @ [r]" "length qs = 4" "\<forall>q \<in> set qs. colon_free q"
      "historyKey a b station hour = concat (map (\<lambda>q. q @ '':'') qs) @ r"
      using str_splitn_parts [of "CHR '':''" 4 "historyKey a b station hour" ?ps] len
      unfolding eval_nat_numeral by blast
    have zero: "count_list q (CHR '':'') = 0 \<longleftrightarrow> colon_free q" for q by (simp add: count_list_0_iff)
    have "colon_free r" using ok p(1,2) atoi_colon_free by (simp add: nth_append)
    moreover have "count_list (concat (map (\<lambda>q. q @ '':'') qs)) (CHR '':'') = length qs" if "\<forall>q \<in> set qs. colon_free q" for qs
      using that by (induction qs) (simp_all add: zero)
    ultimately have "count_list (historyKey a b station hour) (CHR '':'') = 4" using p by (simp add: zero)
    then have "count_list a (CHR '':'') + count_list b (CHR '':'') = 0"
      by (simp add: historyKey_def)
    with False zero show False by simp
  qed
  then show ?thesis using False by (auto simp: key_routes_def Let_def)
qed

section \<open>Samples\<close>

text \<open>The impacts of a pair that lie in the retention window; a key of another type holds none.\<close>

definition pair_samples :: "keyspace \<Rightarrow> string \<Rightarrow> string \<Rightarrow> string \<Rightarrow> int \<Rightarrow> int64 \<Rightarrow> int multiset" where
  "pair_samples K a b station hour now =
     (case zset K (historyKey a b station hour) of
        None \<Rightarrow> {#}
      | Some z \<Rightarrow> mset (values_in (map_option ob_DownstreamImpact \<circ> unmarshal_observation)
                    (filter (\<lambda>x. of_int (now - historyRetentionSecs) \<le> snd x) z)))"

definition pair_stat :: "string \<Rightarrow> string \<Rightarrow> string \<Rightarrow> int multiset \<Rightarrow> TransferStat" where
  "pair_stat a b station M =
     \<lparr>ts_FromRouteID = a, ts_ToRouteID = b, ts_StationID = station,
      ts_AvgDelayWhenBroken = fst (mean_spec M), ts_SampleCount = int (size M)\<rparr>"

definition stat_of :: "keyspace \<Rightarrow> string \<Rightarrow> int \<Rightarrow> int64 \<Rightarrow> string \<Rightarrow> TransferStat option" where
  "stat_of K station hour now key =
     (case key_routes key of
        None \<Rightarrow> None
      | Some (a, b) \<Rightarrow>
          if pair_samples K a b station hour now = {#} then None
          else Some (pair_stat a b station (pair_samples K a b station hour now)))"

lemma pair_samples_key: "pair_samples K a b station hour now \<noteq> {#} \<Longrightarrow> K (historyKey a b station hour) \<noteq> None"
  by (cases "K (historyKey a b station hour)") (simp_all add: pair_samples_def zset_def)

lemma stat_of_key:
  assumes "colon_free station" "in_i64 hour"
  shows "stat_of K station hour now (historyKey a b station hour) = Some x \<longleftrightarrow>
    colon_free a \<and> colon_free b \<and> pair_samples K a b station hour now \<noteq> {#}
      \<and> x = pair_stat a b station (pair_samples K a b station hour now)"
  by (auto simp: stat_of_def key_routes_history [OF assms])

context healthy_redis
begin

lemma average_impact_samples:
  assumes "GetAverageImpact R a b station hour now r = (res, r')" "healthy r" "plain_time now"
  shows "ks r' = ks r \<and> healthy r' \<and>
    (res = Inr (mean_spec (pair_samples (ks r) a b station hour now))
     \<or> isl res \<and> pair_samples (ks r) a b station hour now = {#})"
proof (cases "zset (ks r) (historyKey a b station hour)")
  case None
  obtain res1 r1 where a: "rd_ZRangeByScore R (historyKey a b station hour)
      (Some (i_to_f64 (i64 (now - historyRetentionSecs)))) None None r = (res1, r1)" by fastforce
  have "ks r1 = ks r" "res1 = Inl RedisErr" "healthy r1"
    using ZRangeByScore_law [OF a] ZRangeByScore_healthy [OF assms(2) a] None by auto
  then show ?thesis using assms(1) a None
    by (auto simp: GetAverageImpact_def average_members_def Let_def pair_samples_def)
next
  case (Some z)
  then show ?thesis using average_members_mean [OF assms(1) [unfolded GetAverageImpact_def] assms(2,3) Some]
    by (simp add: pair_samples_def)
qed

lemma collect_stats_exact:
  "collect_stats R station hour now keys stats r = (stats', r') \<Longrightarrow> healthy r \<Longrightarrow> plain_time now \<Longrightarrow>
   ks r' = ks r \<and> healthy r' \<and> stats' = stats @ List.map_filter (stat_of (ks r) station hour now) keys"
proof (induction keys arbitrary: stats r)
  case (Cons key keys)
  show ?case
  proof (cases "key_routes key")
    case None
    then show ?thesis using Cons by (simp add: map_filter_simps stat_of_def)
  next
    case (Some ab)
    obtain a b where ab: "ab = (a, b)" by fastforce
    obtain res r1 where g: "GetAverageImpact R a b station hour now r = (res, r1)" by fastforce
    note 1 = average_impact_samples [OF g Cons.prems(2,3)]
    let ?M = "pair_samples (ks r) a b station hour now"
    have "collect_stats R station hour now keys (stats @ (if ?M = {#} then [] else [pair_stat a b station ?M])) r1
        = (stats', r')"
      using Cons.prems(1) Some ab g 1
      by (cases "mean_spec ?M") (auto simp: pair_stat_def mean_spec_def split: if_splits sum.splits)
    from Cons.IH [OF this _ Cons.prems(3)] 1 Some ab show ?thesis
      by (auto simp: map_filter_simps stat_of_def)
  qed
qed (simp add: map_filter_simps)

lemma transfer_stats_exact:
  assumes "GetTransferStats R station hour now r = ((stats, e), r')" "healthy r" "plain_time now"
    and "colon_free station" "glob_free station" "in_i64 hour"
  shows "ks r' = ks r \<and> e = None \<and>
    set stats = {st. \<exists>a b. colon_free a \<and> colon_free b \<and> pair_samples (ks r) a b station hour now \<noteq> {#}
                   \<and> st = pair_stat a b station (pair_samples (ks r) a b station hour now)}"
proof -
  obtain keys e1 r1 where s: "rd_Scan R (stats_pattern station hour) r = ((keys, e1), r1)"
    by (metis prod.exhaust)
  have h: "healthy r1" "e1 = None" using Scan_healthy [OF assms(2) s] by simp_all
  have keys: "set keys = {k. ks r k \<noteq> None \<and> (\<exists>a b. k = historyKey a b station hour)}" and k1: "ks r1 = ks r"
    using Scan_law [OF s] h(2) by (simp_all add: stats_pattern_glob [OF assms(5)])
  obtain stats2 r2 where c: "collect_stats R station hour now keys [] r1 = (stats2, r2)" by fastforce
  note 2 = collect_stats_exact [OF c h(1) assms(3)]
  have "stats = stats2" "e = None" "r' = r2"
    using assms(1) s c h(2) by (simp_all add: GetTransferStats_def stats_pattern_def)
  moreover have "x \<in> set (List.map_filter (stat_of (ks r) station hour now) keys) \<longleftrightarrow>
      (\<exists>a b. colon_free a \<and> colon_free b \<and> pair_samples (ks r) a b station hour now \<noteq> {#}
         \<and> x = pair_stat a b station (pair_samples (ks r) a b station hour now))" for x
  proof -
    have "x \<in> set (List.map_filter (stat_of (ks r) station hour now) keys) \<longleftrightarrow>
        (\<exists>a b. ks r (historyKey a b station hour) \<noteq> None
           \<and> stat_of (ks r) station hour now (historyKey a b station hour) = Some x)"
      unfolding set_map_filter_iff keys by blast
    then show ?thesis unfolding stat_of_key [OF assms(4,6)] using pair_samples_key by blast
  qed
  ultimately show ?thesis using 2 k1 by auto
qed

end

section \<open>The answer\<close>

text \<open>C34: On a healthy connection \<open>GetTransferReliability\<close> answers, for a station whose name has no
  colon and no glob character, with one entry per transfer pair of that station and hour that has an
  impact recorded in the last 30 days, and with nothing else: the entry names the pair, its average is
  the mean of those impacts as a float and its count their number; the reliability percentage is never
  filled in. Pairs that have a colon in a route id have no entry.\<close>

theorem transfer_reliability_exact:
  assumes "healthy_redis R ks healthy" and "healthy r"
    and "GetTransferReliability R s now station hour r = (res, r')"
    and "ParentStationID (sv_graph s) station = S" and "colon_free S" and "glob_free S"
    and "plain_time now" and "in_i64 hour"
  shows "ks r' = ks r \<and> (\<exists>ts. res = Inr ts \<and>
    set ts = {m. \<exists>a b M. colon_free a \<and> colon_free b \<and> M = pair_samples (ks r) a b S hour now \<and> M \<noteq> {#} \<and>
      m = \<lparr>tr_FromRouteId = a, tr_ToRouteId = b, tr_StationId = S, tr_ReliabilityPct = 0,
           tr_AvgDelayWhenBroken = f32 (fst (mean_spec M)), tr_SampleCount = i32 (int (size M))\<rparr>})"
proof -
  obtain stats e r1 where g: "GetTransferStats R S hour now r = ((stats, e), r1)" by (metis prod.exhaust)
  note 1 = healthy_redis.transfer_stats_exact [OF assms(1) g assms(2,7,5,6,8)]
  have res: "res = Inr (map transfer_stats_message stats)" "r' = r1"
    using assms(3) g 1 by (simp_all add: GetTransferReliability_def assms(4))
  have "transfer_stats_message (pair_stat a b S M) =
      \<lparr>tr_FromRouteId = a, tr_ToRouteId = b, tr_StationId = S, tr_ReliabilityPct = 0,
       tr_AvgDelayWhenBroken = f32 (fst (mean_spec M)), tr_SampleCount = i32 (int (size M))\<rparr>" for a b M
    by (simp add: transfer_stats_message_def pair_stat_def)
  note t = this [symmetric]
  have "set (map transfer_stats_message stats) = transfer_stats_message ` set stats" by simp
  then show ?thesis using 1 res unfolding t by (intro conjI exI [of _ "map transfer_stats_message stats"]) auto
qed

definition demo_history :: mem_redis where
  "demo_history = \<lparr>mr_data = [(historyKey ''A'' ''G'' ''P'' 8, VZSet
     [(marshal_observation \<lparr>ob_SourceDelay = 400, ob_DownstreamImpact = 540, ob_At = 5\<rparr>, 1728036000)])],
     mr_fail = []\<rparr>"

theorem transfer_reliability_exact_witness:
  "\<exists>ts m. fst (GetTransferReliability mem_client demo_service 1728038000 ''P'' 8 demo_history) = Inr ts
     \<and> m \<in> set ts \<and> tr_FromRouteId m = ''A'' \<and> tr_ToRouteId m = ''G'' \<and> tr_SampleCount m = 1"
proof -
  obtain res r' where g: "GetTransferReliability mem_client demo_service 1728038000 ''P'' 8 demo_history = (res, r')"
    by fastforce
  have h: "mem_healthy demo_history" by code_simp
  have p: "ParentStationID (sv_graph demo_service) ''P'' = ''P''" by (simp add: demo_service_def)
  have "zset (mem_ks demo_history) (historyKey ''A'' ''G'' ''P'' 8) = Some
      [(marshal_observation \<lparr>ob_SourceDelay = 400, ob_DownstreamImpact = 540, ob_At = 5\<rparr>, 1728036000)]"
    by (simp add: zset_def demo_history_def mem_ks_def del: mem_ks_simps)
  then have M: "pair_samples (mem_ks demo_history) ''A'' ''G'' ''P'' 8 1728038000 = {#540#}"
    by (simp add: pair_samples_def historyRetentionSecs_def historyRetentionDays_def unmarshal_marshal_observation in_i64_def)
  have c: "colon_free ''P''" "glob_free ''P''" "plain_time 1728038000" "in_i64 8"
    by (simp_all add: glob_free_def plain_time_def in_i64_def)
  let ?m = "\<lparr>tr_FromRouteId = ''A'', tr_ToRouteId = ''G'', tr_StationId = ''P'', tr_ReliabilityPct = 0,
       tr_AvgDelayWhenBroken = f32 (fst (mean_spec {#540#})), tr_SampleCount = i32 1\<rparr>"
  from transfer_reliability_exact [OF mem.healthy_redis_axioms h g p c] obtain ts where
    ts: "res = Inr ts" "set ts = {m. \<exists>a b M. colon_free a \<and> colon_free b
      \<and> M = pair_samples (mem_ks demo_history) a b ''P'' 8 1728038000 \<and> M \<noteq> {#} \<and>
      m = \<lparr>tr_FromRouteId = a, tr_ToRouteId = b, tr_StationId = ''P'', tr_ReliabilityPct = 0,
           tr_AvgDelayWhenBroken = f32 (fst (mean_spec M)), tr_SampleCount = i32 (int (size M))\<rparr>}" by blast
  have "?m \<in> set ts" unfolding ts(2) using M
    by (intro CollectI exI [of _ "''A''"] exI [of _ "''G''"] exI [of _ "{#540#}"]) simp
  moreover have "i32 1 = 1" by (simp add: i32_def)
  ultimately show ?thesis using g ts(1) by (intro exI [of _ ts] exI [of _ ?m]) simp
qed

end
