(* ===== verification/Severity.thy ===== *)
theory Severity
  imports Transfers "HOL-Library.Product_Lexorder"
begin

text \<open>
  How bad an impact is (\<open>internal/transfer/detector.go\<close>, the levels of \<open>proto/propagation.proto\<close>): the levels are
  ordered by their numbers, and a larger delay never makes a connection safer.
\<close>

section \<open>The order of the levels\<close>

fun level_rank :: "TransferImpact_ImpactLevel \<Rightarrow> int \<times> nat" where
  "level_rank AT_RISK = (0, 0)"
| "level_rank BROKEN = (1, 0)"
| "level_rank (ImpactLevel_Other n) = (n, 1)"

lemma level_rank_inj: "level_rank a = level_rank b \<Longrightarrow> a = b"
  by (cases a; cases b) auto

instantiation TransferImpact_ImpactLevel :: linorder
begin

definition less_eq_TransferImpact_ImpactLevel :: "TransferImpact_ImpactLevel \<Rightarrow> TransferImpact_ImpactLevel \<Rightarrow> bool" where
  "less_eq_TransferImpact_ImpactLevel a b \<longleftrightarrow> level_rank a \<le> level_rank b"

definition less_TransferImpact_ImpactLevel :: "TransferImpact_ImpactLevel \<Rightarrow> TransferImpact_ImpactLevel \<Rightarrow> bool" where
  "less_TransferImpact_ImpactLevel a b \<longleftrightarrow> level_rank a < level_rank b"

instance
  by standard
    (auto simp: less_eq_TransferImpact_ImpactLevel_def less_TransferImpact_ImpactLevel_def
      intro: order_trans level_rank_inj antisym)

end

lemma level_order [simp]: "AT_RISK \<le> l \<longleftrightarrow> l = AT_RISK \<or> l = BROKEN \<or> (\<exists>n \<ge> 0. l = ImpactLevel_Other n)"
  "AT_RISK < BROKEN"
  by (cases l) (auto simp: less_eq_TransferImpact_ImpactLevel_def less_TransferImpact_ImpactLevel_def)

section \<open>One connection\<close>

definition remaining_margin :: "int \<Rightarrow> ScheduledStopTime \<Rightarrow> int32 \<Rightarrow> int32 \<Rightarrow> int32" where
  "remaining_margin effTod dep d c = i32 (i32 (i32 (DepartureSecs dep - effTod) - d) + c)"

lemma impact_of_None:
  "impact_of g now ev xfer toRoute effTod dep c = None \<longleftrightarrow>
     i32 (min_transfer_time xfer) \<le> remaining_margin effTod dep (ev_DelaySeconds ev) c
     \<and> i32 (min_transfer_time xfer + 60) \<le> remaining_margin effTod dep (ev_DelaySeconds ev) c"
  by (auto simp: impact_of_def Let_def atRiskBuffer_def remaining_margin_def split: list.splits)

text \<open>Times and delays below a million seconds leave int32 room.\<close>

lemma remaining_margin_plain:
  assumes "0 \<le> DepartureSecs dep \<and> DepartureSecs dep \<le> 1000000" "0 \<le> effTod \<and> effTod < 172800"
    and "\<bar>d\<bar> \<le> 1000000" "\<bar>c\<bar> \<le> 1000000"
  shows "remaining_margin effTod dep d c = DepartureSecs dep - effTod - d + c"
proof -
  have "i32 (DepartureSecs dep - effTod) = DepartureSecs dep - effTod"
    "i32 (DepartureSecs dep - effTod - d) = DepartureSecs dep - effTod - d"
    "i32 (DepartureSecs dep - effTod - d + c) = DepartureSecs dep - effTod - d + c"
    by (intro i32_id; use assms in \<open>auto simp: in_i32_def abs_le_iff\<close>)+
  then show ?thesis by (simp add: remaining_margin_def)
qed

definition worse :: "TransferImpact \<Rightarrow> TransferImpact \<Rightarrow> bool" where
  "worse i j \<longleftrightarrow> ti_StationId j = ti_StationId i \<and> ti_ToRouteId j = ti_ToRouteId i \<and> ti_Level i \<le> ti_Level j
     \<and> ti_OriginalTransferMarginSeconds j = ti_OriginalTransferMarginSeconds i
     \<and> ti_RemainingMarginSeconds j \<le> ti_RemainingMarginSeconds i"

lemma impact_of_worse:
  assumes "impact_of g now ev xfer toRoute effTod dep c = Some i"
    and "remaining_margin effTod dep d c \<le> remaining_margin effTod dep (ev_DelaySeconds ev) c"
  shows "\<exists>j. impact_of g now (ev\<lparr>ev_DelaySeconds := d\<rparr>) xfer toRoute effTod dep c = Some j \<and> worse i j"
proof -
  note i = impact_of_fields [OF assms(1), folded remaining_margin_def]
  have "impact_of g now (ev\<lparr>ev_DelaySeconds := d\<rparr>) xfer toRoute effTod dep c \<noteq> None"
    using i(6,8) assms(2) unfolding impact_of_None by auto
  then obtain j where j: "impact_of g now (ev\<lparr>ev_DelaySeconds := d\<rparr>) xfer toRoute effTod dep c = Some j" by auto
  note jf = impact_of_fields [OF j, folded remaining_margin_def]
  have "ti_RemainingMarginSeconds j \<le> ti_RemainingMarginSeconds i" using i(6) jf(6) assms(2) by simp
  with i jf j show ?thesis by (auto simp: worse_def)
qed

section \<open>The whole detector\<close>

definition bounded_delays :: "keyspace \<Rightarrow> bool" where
  "bounded_delays m \<longleftrightarrow> (\<forall>k ds. delays m k = Some ds \<longrightarrow> \<bar>sd_DelaySeconds ds\<bar> \<le> 1000000)"

lemma known_delay_bounded: "bounded_delays m \<Longrightarrow> \<bar>known_delay (delays m) g a t s\<bar> \<le> 1000000"
  by (auto simp: known_delay_def bounded_delays_def split: option.splits)

lemma evaluate_delay_impacts:
  assumes "healthy_redis R ks healthy" and "healthy r"
    and "EvaluateDelay R local now g publisher ev (r, p) = (imps, w')"
  shows "imp \<in> set imps \<longleftrightarrow> 0 < ev_DelaySeconds ev \<and> (\<exists>(xfer, toRoute) \<in> set (all_pairs g ev).
    pair_impact (known_delay (delays (ks r)) g (ev_AgencyId ev)) g now ev (arrival_tod local now g ev) xfer toRoute
      = Some imp)"
proof (cases "ev_DelaySeconds ev \<le> 0 \<or> GetTransfersFrom g (ev_StopId ev) = []")
  case True
  then show ?thesis using assms(3) by (auto simp: EvaluateDelay_def all_pairs_def Let_def split: if_splits)
next
  case False
  obtain out r1 where f: "foldl (\<lambda>st (xfer, toRoute).
      evaluate_pair R g now ev (arrival_tod local now g ev) xfer toRoute st) ([], r) (all_pairs g ev) = (out, r1)"
    by fastforce
  note ex = healthy_redis.evaluate_pairs_exact [OF assms(1) f assms(2)]
  have "imps = out" using assms(3) False by (auto simp: EvaluateDelay_def Let_def evaluate_transfers_pairs f)
  then show ?thesis using ex False by (simp add: set_map_filter_iff split_beta)
qed

text \<open>C5: more delay never makes a connection safer: with times and delays below a million seconds, every
  impact of an event has a counterpart when the same event reports a larger delay: for the same route at the
  same station, at least at the same level, with the same scheduled margin and no larger a remaining one.\<close>

theorem more_delay_never_safer:
  assumes "healthy_redis R ks healthy" and "healthy r" and "sorted_by_stop g" and "bounded_times g"
    and "bounded_delays (ks r)" and "ev_DelaySeconds ev \<le> d" and "d \<le> 1000000"
    and "EvaluateDelay R local now g publisher ev (r, p) = (imps, w1)"
    and "EvaluateDelay R local now g publisher (ev\<lparr>ev_DelaySeconds := d\<rparr>) (r, p) = (imps', w2)"
  shows "\<forall>i \<in> set imps. \<exists>j \<in> set imps'. worse i j"
proof
  fix i assume "i \<in> set imps"
  let ?dl = "known_delay (delays (ks r)) g (ev_AgencyId ev)" and ?tod = "arrival_tod local now g ev"
  from \<open>i \<in> set imps\<close> obtain xfer toRoute where x: "0 < ev_DelaySeconds ev" "(xfer, toRoute) \<in> set (all_pairs g ev)"
    "pair_impact ?dl g now ev ?tod xfer toRoute = Some i"
    unfolding evaluate_delay_impacts [OF assms(1,2,8)] by auto
  obtain effTod dep where c: "toRoute \<noteq> ev_RouteId ev" "connection g xfer toRoute ?tod = Some (effTod, dep)"
    "impact_of g now ev xfer toRoute effTod dep (?dl (TripID dep) (ToStopID xfer)) = Some i"
    using x(3) by (auto simp: pair_impact_def split: if_splits option.splits)
  have mt: "MinTransferTime xfer \<le> 1000000"
    using x(2) bounded_timesD(2) [OF assms(4)] by (auto simp: all_pairs_def GetTransfersFrom_def)
  note facts = connection_facts [OF assms(3,4) conjunct1 [OF arrival_tod_range] conjunct2 [OF arrival_tod_range] mt c(2)]
  note plain = remaining_margin_plain [OF facts(5,6) _ known_delay_bounded [OF assms(5)]]
  have "remaining_margin effTod dep d (?dl (TripID dep) (ToStopID xfer))
      \<le> remaining_margin effTod dep (ev_DelaySeconds ev) (?dl (TripID dep) (ToStopID xfer))"
    using x(1) assms(6,7) by (simp add: plain)
  from impact_of_worse [OF c(3) this] obtain j where
    j: "impact_of g now (ev\<lparr>ev_DelaySeconds := d\<rparr>) xfer toRoute effTod dep (?dl (TripID dep) (ToStopID xfer)) = Some j"
    "worse i j" by blast
  have "arrival_tod local now g (ev\<lparr>ev_DelaySeconds := d\<rparr>) = ?tod" "all_pairs g (ev\<lparr>ev_DelaySeconds := d\<rparr>) = all_pairs g ev"
    by (simp_all add: arrival_tod_def all_pairs_def Let_def)
  then have "j \<in> set imps'"
    unfolding evaluate_delay_impacts [OF assms(1,2,9)] using x(1,2) c(1,2) j(1) assms(6)
    by (auto simp: pair_impact_def intro!: bexI [of _ "(xfer, toRoute)"])
  with j(2) show "\<exists>j \<in> set imps'. worse i j" by blast
qed

lemma demo_bounded_delays: "bounded_delays (mem_ks demo_redis)"
proof -
  have "wf_event (demo_delay ARRIVAL_DELAY ''a'' 400 100)" by (rule demo_delay_ok) (simp_all add: in_i32_def in_i64_def)
  from mem.ProcessEvent_cases [OF demo_redis_eq this demo_delay_ok(2,3)] show ?thesis
    by (auto simp: bounded_delays_def apply_event_def demo_delay_def first_state_def split: if_splits)
qed

theorem more_delay_never_safer_witness:
  "\<exists>imps w j. EvaluateDelay mem_client (\<lambda>_. 0) 7 demo_graph (Some (\<lambda>imp p. (True, p @ [imp])))
       (demo_late\<lparr>ev_DelaySeconds := 400\<rparr>) (demo_redis, []) = (imps, w) \<and> j \<in> set imps \<and> worse demo_impact j"
proof -
  obtain imps w where e: "EvaluateDelay mem_client (\<lambda>_. 0) 7 demo_graph (Some (\<lambda>imp p. (True, p @ [imp])))
      (demo_late\<lparr>ev_DelaySeconds := 400\<rparr>) (demo_redis, []) = (imps, w)" by (metis prod.exhaust)
  have h: "mem_healthy demo_redis" by code_simp
  have d: "ev_DelaySeconds demo_late \<le> 400" "(400 :: int) \<le> 1000000" by (simp_all add: demo_late_def)
  from more_delay_never_safer [OF mem.healthy_redis_axioms h built_sorted [OF demo_built] demo_bounded
      demo_bounded_delays d demo_evaluate e] e
  show ?thesis by auto
qed

end
