(* ===== verification/Pipeline.thy ===== *)
theory Pipeline
  imports ProcessorProps ServerProps Kafka
begin

text \<open>
  The path of an event through the system: published by the ingestor (\<open>internal/ingest/kafka.go\<close>), delivered from
  its partition to the processor (\<open>cmd/processor/main.go\<close>), reconciled in Redis (\<open>internal/state/manager.go\<close>)
  and reported by the server (\<open>internal/server/handlers.go\<close>).
\<close>

section \<open>The specification\<close>

text \<open>The delay table after events, each handled at its own time.\<close>

definition handled_from ::
  "location \<Rightarrow> TransitGraph \<Rightarrow> (string \<Rightarrow> DelayState option) \<Rightarrow> (DelayEvent \<times> int64) list
   \<Rightarrow> string \<Rightarrow> DelayState option" where
  "handled_from local g =
     foldl (\<lambda>m (ev0, t). let ev = fst (enrichEvent local t g ev0) in apply_event (delay_route g ev) ev m)"

text \<open>What a client sees of a delay table for one route.\<close>

definition reported ::
  "TransitGraph \<Rightarrow> string \<Rightarrow> string \<Rightarrow> (string \<Rightarrow> DelayState option) \<Rightarrow> StopDelay set" where
  "reported g agencyID route m =
     {stop_delay (network_stop_name g (sd_StopID d)) d | d rest.
        m (''delay:'' @ agencyID @ '':'' @ rest) = Some d \<and> 60 < DelayState.abs32 (sd_DelaySeconds d) \<and> sd_RouteID d = route}"

abbreviation route_delays :: "(string, RouteState) gomap \<Rightarrow> string \<Rightarrow> StopDelay list" where
  "route_delays routes route \<equiv> (case mget routes route of None \<Rightarrow> [] | Some rs \<Rightarrow> rs_Delays rs)"

section \<open>Composition\<close>

lemma effects_handled:
  "list_all2 (\<lambda>d ev. ch_unmarshal h (cm_Value (dl_Message d)) = Some ev) ds evs \<Longrightarrow>
   effects h local ds (replicate (length ds) 1) m = handled_from local (ch_graph h) m (zip evs (map dl_now ds))"
  by (induction ds evs arbitrary: m rule: list_all2_induct) (simp_all add: handled_from_def effect_def Let_def)

lemma reported_state:
  assumes "healthy_redis R ks healthy" and "healthy r" and "glob_free (sv_agencyID s)"
    and "GetNetworkState R s now r = (res, r')"
  shows "\<exists>routes. res = Inr \<lparr>nr_Routes = routes, nr_AsOf = now\<rparr>
    \<and> (\<forall>route. set (route_delays routes route) = reported (sv_graph s) (sv_agencyID s) route (delay_table (ks r)))"
proof -
  from network_state_by_route [OF assms] obtain found routes where n:
    "res = Inr \<lparr>nr_Routes = routes, nr_AsOf = now\<rparr>"
    "set found = {ds. (\<exists>rest. delays (ks r) (''delay:'' @ sv_agencyID s @ '':'' @ rest) = Some ds)
                       \<and> 60 < DelayState.abs32 (sd_DelaySeconds ds)}"
    "\<forall>route. mget routes route =
         (let ds = filter (\<lambda>d. sd_RouteID d = route) found
          in if ds = [] then None
             else Some \<lparr>rs_RouteId = route,
                        rs_Delays = map (\<lambda>d. stop_delay (network_stop_name (sv_graph s) (sd_StopID d)) d) ds\<rparr>)"
    by (elim exE conjE) (rule that; assumption)
  have "delay_table (ks r) (''delay:'' @ rest) = delays (ks r) (''delay:'' @ rest)" for rest
    by (simp add: delay_table_def delay_key_def)
  note t = this
  have "set (route_delays routes route)
      = (\<lambda>d. stop_delay (network_stop_name (sv_graph s) (sd_StopID d)) d) ` {d \<in> set found. sd_RouteID d = route}" for route
    by (auto simp: n(3) [rule_format] Let_def filter_empty_conv)
  moreover have "reported (sv_graph s) (sv_agencyID s) route (delay_table (ks r))
      = (\<lambda>d. stop_delay (network_stop_name (sv_graph s) (sd_StopID d)) d) ` {d \<in> set found. sd_RouteID d = route}" for route
    unfolding reported_def n(2) t by blast
  ultimately show ?thesis using n(1) by (intro exI [of _ routes]) simp
qed

section \<open>From the publisher to the client\<close>

text \<open>C1: the events that the ingestor publishes reach the client. Assume a processor that joined before them
  consumes one partition, in order, each message once, on a healthy connection where every delay document
  can be read and the other goroutines keep it so. Then, whatever sends fail or are retried, it handles
  copies of the published events of that partition, every acknowledged one among them, and marks them all;
  the network state asked for next lists under each route exactly the delays above a minute of the delay
  table; and at every key that nothing else changed meanwhile (another claim, or an expiry after two
  hours) that table holds what the reconciliation makes of the earlier content and these events, in the
  order of the log and each enriched when it was handled.\<close>

theorem published_delays_are_reported:
  assumes "healthy_redis (ch_rdb h) ks healthy" and "kafka_cluster S view part"
    and "plain_events (ch_unmarshal h)" and "glob_free (sv_agencyID s)"
    and "\<forall>ev\<in>set evs. \<forall>b. marshal ev = Some b \<longrightarrow> ch_unmarshal h b = Some ev"
    and "NewKafkaPublisher S brokers topic n w0 = (Inr k, w)" and "\<forall>(p, m) \<in> cl_tried (view w0). pm_Topic m \<noteq> topic"
    and "publish_all (publish_event S marshal k) evs w = (oks, w')"
    and "map (cm_Value \<circ> dl_Message \<circ> snd) ds
       = map pm_Value (drop (length (cl_log (view w0) topic q)) (cl_log (view w') topic q))"
    and "healthy (pc_redis st)" and "decodable (ks (pc_redis st))"
    and "\<forall>(others, d)\<in>set ds. \<forall>s. healthy (pc_redis s) \<and> decodable (ks (pc_redis s)) \<longrightarrow>
      healthy (pc_redis (others s)) \<and> decodable (ks (pc_redis (others s)))"
    and "ConsumeClaim h local topic (int q) ds st = (err, marked, st')"
    and "GetNetworkState (ch_rdb h) s now (pc_redis st') = (res, r')"
  shows "\<exists>sent routes.
      delivered (\<lambda>ev. marshal ev \<noteq> None \<and> part topic (ev_RouteId ev) = q) {} evs oks sent
    \<and> list_all2 (\<lambda>d ev. ch_unmarshal h (cm_Value (dl_Message (snd d))) = Some ev) ds sent
    \<and> err = None \<and> marked = map (dl_Message \<circ> snd) ds \<and> res = Inr \<lparr>nr_Routes = routes, nr_AsOf = now\<rparr>
    \<and> (\<forall>route. set (route_delays routes route)
         = reported (sv_graph s) (sv_agencyID s) route (delay_table (ks (pc_redis st'))))
    \<and> (\<forall>key. (\<forall>(others, d)\<in>set ds. \<forall>s. delay_table (ks (pc_redis (others s))) key = delay_table (ks (pc_redis s)) key)
         \<longrightarrow> delay_table (ks (pc_redis st')) key
             = handled_from local (ch_graph h) (delay_table (ks (pc_redis st))) (zip sent (map (dl_now \<circ> snd) ds)) key)"
proof -
  from kafka_cluster.events_delivered [OF assms(2,6-8)] obtain sent where
    sent: "delivered (\<lambda>ev. marshal ev \<noteq> None \<and> part topic (ev_RouteId ev) = q) {} evs oks sent" and
    log: "cl_log (view w') topic q = cl_log (view w0) topic q
        @ map (\<lambda>ev. \<lparr>pm_Topic = topic, pm_Key = ev_RouteId ev, pm_Value = the (marshal ev)\<rparr>) sent" by blast
  have "list_all2 (\<lambda>v ev. ch_unmarshal h v = Some ev) (map (\<lambda>ev. the (marshal ev)) sent) sent"
    unfolding list_all2_map1 using delivered_set [OF sent] assms(5) by (intro list.rel_refl_strong) auto
  moreover have "map (\<lambda>d. cm_Value (dl_Message (snd d))) ds = map (\<lambda>ev. the (marshal ev)) sent"
    using assms(9) by (simp add: log comp_def)
  ultimately have l: "list_all2 (\<lambda>d ev. ch_unmarshal h (cm_Value (dl_Message (snd d))) = Some ev) ds sent"
    unfolding list_all2_map1 [of "\<lambda>v ev. ch_unmarshal h v = Some ev" "\<lambda>d. cm_Value (dl_Message (snd d))", symmetric]
    by simp
  then have l': "list_all2 (\<lambda>d ev. ch_unmarshal h (cm_Value (dl_Message d)) = Some ev) (map snd ds) sent"
    by (simp add: list_all2_map1)
  obtain st1 where c: "claim_loop h local (lag_key topic (int q)) ds st = (err, marked, st1)"
    "st' = st1\<lparr>pc_lags := mdel (lag_key topic (int q)) (pc_lags st1)\<rparr>"
    using assms(13) by (auto simp: ConsumeClaim_def split: prod.splits)
  note ready = healthy_redis.ready_def [OF assms(1)]
  have "healthy_redis.ready ks healthy st" using assms(10,11) by (simp add: ready)
  moreover have "\<forall>(others, d)\<in>set ds. \<forall>s. healthy_redis.ready ks healthy s \<longrightarrow> healthy_redis.ready ks healthy (others s)"
    using assms(12) by (simp add: ready)
  ultimately have handled: "err = None \<and> marked = map (dl_Message \<circ> snd) ds \<and> healthy (pc_redis st')
      \<and> (\<forall>key. (\<forall>(others, d)\<in>set ds. \<forall>s. healthy_redis.ready ks healthy s \<longrightarrow>
             delay_table (ks (pc_redis (others s))) key = delay_table (ks (pc_redis s)) key)
           \<longrightarrow> delay_table (ks (pc_redis st')) key
               = effects h local (map snd ds) (replicate (length ds) 1) (delay_table (ks (pc_redis st))) key)"
    using healthy_redis.claim_loop_ready_at [OF assms(1) c(1) refl assms(3)] by (simp add: c(2) ready)
  have "effects h local (map snd ds) (replicate (length ds) 1) m
      = handled_from local (ch_graph h) m (zip sent (map (dl_now \<circ> snd) ds))" for m
    using effects_handled [OF l'] by simp
  note e = this
  from reported_state [OF assms(1) _ assms(4,14)] handled obtain routes where
    "res = Inr \<lparr>nr_Routes = routes, nr_AsOf = now\<rparr>"
    "\<forall>route. set (route_delays routes route)
       = reported (sv_graph s) (sv_agencyID s) route (delay_table (ks (pc_redis st')))" by blast
  with sent l handled show ?thesis unfolding e
    by (intro exI [of _ sent] exI [of _ routes] conjI) (blast | fast)+
qed

text \<open>Two events on two routes, the second partition consumed; the first send is retried.\<close>

definition demo_late_train :: DelayEvent where
  "demo_late_train = demo_delay ARRIVAL_DELAY ''a'' 400 100"

definition demo_shuttle :: DelayEvent where
  "demo_shuttle = demo_late_train\<lparr>ev_RouteId := ''GS''\<rparr>"

definition demo_consumer :: "(mem_redis, TransferImpact list, DelayEvent) consumerHandler" where
  "demo_consumer =
     \<lparr>ch_rdb = mem_client, ch_publish = (\<lambda>imp p. (True, p @ [imp])), ch_engine = demo_engine,
      ch_predPub = (\<lambda>res p. (True, p)), ch_eval = demo_evaluator, ch_graph = demo_graph,
      ch_unmarshal = (\<lambda>ev. if ev \<in> {demo_late_train, demo_shuttle} then Some ev else None)\<rparr>"

definition demo_claim :: "int64 \<Rightarrow> ((mem_redis, TransferImpact list) processor \<Rightarrow> (mem_redis, TransferImpact list) processor)
    \<times> DelayEvent delivery" where
  "demo_claim off = (id, \<lparr>dl_Message = \<lparr>cm_Offset = off, cm_Value = demo_late_train\<rparr>, dl_HighWaterMark = 2, dl_now = 200 + off,
     dl_cancelled = (\<lambda>_. False)\<rparr>)"

lemma demo_handled:
  "(case handled_from (\<lambda>_. 0) demo_graph (\<lambda>_. None) [(demo_late_train, 200), (demo_late_train, 201)] ''delay:MTA:W_1:a'' of
      None \<Rightarrow> False | Some d \<Rightarrow> sd_DelaySeconds d = 400 \<and> sd_RouteID d = ''A'')"
  by (simp add: handled_from_def demo_late_train_def enrichEvent_def enrichable_def demo_delay_def delay_route_def Let_def
      apply_event_def event_key_def delayKey_def first_state_def next_state_def smooth_def DelayState.abs32_def
      smoothingThreshold_def i32_def)

lemma demo_published_ok:
  "plain_events (ch_unmarshal demo_consumer)"
  by (auto simp: demo_consumer_def plain_events_def demo_shuttle_def demo_late_train_def demo_delay_def
      in_i32_def in_i64_def wf_event_def glob_free_def)

theorem published_delays_are_reported_witness:
  "\<exists>k w oks c st' routes. NewKafkaPublisher mem_sarama [] ''t'' 10
         (demo_cluster [None, None, None, None, None, Some (OtherError ''EOF'')]) = (Inr k, w)
     \<and> publish_all (publish_event mem_sarama Some k) [demo_late_train, demo_shuttle] w = (oks, c)
     \<and> map pm_Value (cl_log (mem_view (\<lambda>_. length) c) ''t'' 1) = [demo_late_train, demo_late_train]
     \<and> ConsumeClaim demo_consumer (\<lambda>_. 0) ''t'' 1 [demo_claim 0, demo_claim 1] (demo_processor empty_redis)
         = (None, map (dl_Message \<circ> snd) [demo_claim 0, demo_claim 1], st')
     \<and> fst (GetNetworkState mem_client demo_service 500 (pc_redis st')) = Inr \<lparr>nr_Routes = routes, nr_AsOf = 500\<rparr>
     \<and> 400 \<in> sp_DelaySeconds ` set (route_delays routes ''A'')"
proof -
  let ?evs = "[demo_late_train, demo_shuttle]" and ?ds = "[demo_claim 0, demo_claim 1]" and ?v = "mem_view (\<lambda>_. length)"
  let ?c = "demo_cluster [None, None, None, None, None, Some (OtherError ''EOF'')]"
  let ?k = "\<lparr>kp_producer = 1, kp_topic = ''t''\<rparr>"
  obtain w where n: "NewKafkaPublisher mem_sarama [] ''t'' 10 ?c = (Inr ?k, w)"
    "w = (demo_cluster [Some (OtherError ''EOF'')])\<lparr>mc_topics := [''t'', ''__consumer_offsets''], mc_producers := [1],
           mc_config := (\<lambda>_. NewConfig)(1 := NewConfig\<lparr>sc_Return_Successes := Some True, sc_RequiredAcks := Some WaitForLocal,
                                                      sc_Partitioner := Some HashPartitioner\<rparr>)\<rparr>"
    by (simp add: demo_publisher_opens)
  obtain oks c where p: "publish_all (publish_event mem_sarama Some ?k) ?evs w = (oks, c)" by fastforce
  then have log: "map pm_Value (cl_log (?v c) ''t'' 1) = [demo_late_train, demo_late_train]"
    by (auto simp: n(2) publish_event_def KafkaPublisher_Publish_def sent_ok_def mem_sarama_def next_fault_def demo_cluster_def
        mem_view_def to_partition_def demo_shuttle_def demo_late_train_def demo_delay_def eval_nat_numeral)
  obtain err marked st' where cc: "ConsumeClaim demo_consumer (\<lambda>_. 0) ''t'' (int 1) ?ds (demo_processor empty_redis)
      = (err, marked, st')" by (metis prod.exhaust)
  obtain res r' where g: "GetNetworkState mem_client demo_service 500 (pc_redis st') = (res, r')" by fastforce
  have h: "mem_healthy (pc_redis (demo_processor empty_redis))" "decodable (mem_ks (pc_redis (demo_processor empty_redis)))"
    "delay_table (mem_ks (pc_redis (demo_processor empty_redis))) = (\<lambda>_. None)"
    by (simp_all add: demo_processor_def mem_healthy_def empty_redis_def decodable_def mem_ks_def delay_table_def
        delays_def fun_eq_iff)
  have f: "ch_rdb demo_consumer = mem_client" "ch_graph demo_consumer = demo_graph" "glob_free (sv_agencyID demo_service)"
    "sv_graph demo_service = demo_graph" "sv_agencyID demo_service = ''MTA''"
    by (simp_all add: demo_consumer_def demo_service_def glob_free_def)
  have codec: "\<forall>ev\<in>set ?evs. \<forall>b. Some ev = Some b \<longrightarrow> ch_unmarshal demo_consumer b = Some ev"
    by (simp add: demo_consumer_def)
  have e: "cl_log (?v ?c) ''t'' 1 = []" "\<forall>(p, m) \<in> cl_tried (?v ?c). pm_Topic m \<noteq> ''t''"
    by (simp_all add: mem_view_def demo_cluster_def to_partition_def)
  have d: "map (cm_Value \<circ> dl_Message \<circ> snd) ?ds = map pm_Value (drop (length (cl_log (?v ?c) ''t'' 1)) (cl_log (?v c) ''t'' 1))"
    using log by (simp add: e(1) [unfolded One_nat_def] demo_claim_def)
  have others: "\<forall>(others, d)\<in>set ?ds. \<forall>s. mem_healthy (pc_redis s) \<and> decodable (mem_ks (pc_redis s)) \<longrightarrow>
      mem_healthy (pc_redis (others s)) \<and> decodable (mem_ks (pc_redis (others s)))"
    by (simp add: demo_claim_def)
  note main = published_delays_are_reported [OF _ memk.kafka_cluster_axioms demo_published_ok f(3) codec n(1) e(2) p d
      _ _ _ cc, unfolded f, OF mem.healthy_redis_axioms h(1,2) others g]
  obtain sent routes where
    r: "list_all2 (\<lambda>d ev. ch_unmarshal demo_consumer (cm_Value (dl_Message (snd d))) = Some ev) ?ds sent"
    "err = None" "marked = map (dl_Message \<circ> snd) ?ds" "res = Inr \<lparr>nr_Routes = routes, nr_AsOf = 500\<rparr>"
    "\<forall>route. set (route_delays routes route) = reported demo_graph ''MTA'' route (delay_table (mem_ks (pc_redis st')))"
    "\<forall>key. (\<forall>(others, d)\<in>set ?ds. \<forall>s. delay_table (mem_ks (pc_redis (others s))) key = delay_table (mem_ks (pc_redis s)) key)
         \<longrightarrow> delay_table (mem_ks (pc_redis st')) key
             = handled_from (\<lambda>_. 0) demo_graph (delay_table (mem_ks (pc_redis (demo_processor empty_redis))))
                 (zip sent (map (dl_now \<circ> snd) ?ds)) key"
    using main by (elim exE conjE) (rule that)
  have "sent = [demo_late_train, demo_late_train]"
    using r(1) by (auto simp: list_all2_Cons1 demo_claim_def demo_consumer_def)
  then have t: "delay_table (mem_ks (pc_redis st')) ''delay:MTA:W_1:a''
      = handled_from (\<lambda>_. 0) demo_graph (\<lambda>_. None) [(demo_late_train, 200), (demo_late_train, 201)] ''delay:MTA:W_1:a''"
    using r(6) by (simp add: demo_claim_def h(3))
  with demo_handled obtain ds where "delay_table (mem_ks (pc_redis st')) (''delay:'' @ ''MTA'' @ '':'' @ ''W_1:a'') = Some ds"
    "sd_DelaySeconds ds = 400" "sd_RouteID ds = ''A''" by (auto split: option.splits)
  then have "stop_delay (network_stop_name demo_graph (sd_StopID ds)) ds \<in> set (route_delays routes ''A'')"
    unfolding r(5) [rule_format] reported_def by (intro CollectI exI conjI) (auto simp: DelayState.abs32_def)
  then have "400 \<in> sp_DelaySeconds ` set (route_delays routes ''A'')"
    using \<open>sd_DelaySeconds ds = 400\<close> by (force simp: stop_delay_def image_iff)
  then show ?thesis using p n(1) cc g log r(2-4)
    by (intro exI [of _ ?k] exI [of _ w] exI [of _ oks] exI [of _ c] exI [of _ st'] exI [of _ routes])
      (simp del: publish_all.simps)
qed

end
