(* ===== verification/Spec2Isabelle.thy ===== *)
theory Spec2Isabelle
  imports InitialDelay ProcessorProps ServerProps Ingestor Startup Dashboard Metrics Sweep Reliability
    Severity Pipeline
begin

text \<open>
  A verification development of urban-goggles, a Go system that follows transit delays: it polls
  GTFS-realtime feeds, keeps the reconciled delays in Redis, detects broken transfers, predicts how a delay
  spreads, checks its predictions against what is observed, and serves all of it over gRPC.

  \<^bold>\<open>How the parts work together.\<close> The ingestor polls the feeds, normalizes each trip update, diffs it against
  what it published last and publishes what moved to Kafka. The processor consumes these events: it fills
  in a delay from the static schedule where the feed has none, reconciles the event with the delay state in
  Redis, matches it against the pending predictions, evaluates the transfers at the stop, and for a broken
  transfer starts a propagation, whose predictions are tracked and published. A sweeper finalizes expired
  predictions into history stores, which the engine reads for its next predictions. The server answers from
  the delay state, the engine and the history, and fans alerts out to its clients.

  \<^bold>\<open>The theories.\<close> Paths are under \<open>src/\<close>.

  \<^item> \<open>Prelude\<close>: int32/int64 wrap-around and truncating division, Go maps as association lists, the string
    functions. \<open>Float64\<close>: IEEE-754 rounding on rationals, \<open>math.Pow\<close>, \<open>math.Round\<close>, conversions.
    \<open>Messages\<close>: the protobuf messages. \<open>Redis\<close>: JSON documents, the Redis client and its contract as the
    locales \<open>redis_client\<close> (any command may fail) and \<open>healthy_redis\<close> (none does), both interpreted by an
    in-memory server. \<open>GoHeap\<close>: \<open>container/heap\<close> with its heap invariant.
  \<^item> \<open>GtfsParser\<close> (\<open>internal/graph/parser.go\<close>), \<open>Graph\<close>, \<open>BuildGraph\<close>, \<open>GraphProps\<close> (\<open>graph.go\<close>, \<open>types.go\<close>),
    \<open>Headway\<close> (\<open>headway.go\<close>): the static feed, the schedule graph and its queries. Lemmas: the parsers never
    index out of range, the graph is well formed and indexes exactly the trips that run, each query equals
    its reference definition.
  \<^item> \<open>Normalizer\<close>, \<open>Differ\<close>, \<open>Poller\<close> (\<open>internal/ingest/normalizer.go\<close>, \<open>differ.go\<close>, \<open>poller.go\<close>, \<open>kafka.go\<close>):
    the ingestor. Lemmas: one event per reportable update, an event is selected when it moved past a
    threshold, what fails to publish is selected again.
  \<^item> \<open>Kafka\<close> (\<open>kafka.go\<close> of \<open>internal/ingest\<close>, \<open>internal/transfer\<close> and \<open>internal/propagation\<close>): creating the topic,
    connecting, publishing and closing, over the client library's contract, the locale \<open>kafka_cluster\<close>,
    which an in-memory cluster interprets. It promises delivery at least once, and only what the producer's
    own configuration gives: a send may write any number of copies of what was tried before it or with it,
    a success at least one if the producer waits for the log, and only a hashing producer binds a key to a
    partition. Lemmas: a connected publisher has its topic and leaks no client on an error, a lost race for
    the topic, and the events of a route are delivered in order on one partition.
    \<open>Ingestor\<close> (\<open>cmd/ingestor/main.go\<close>): start-up, and the pollers and the throughput reporter as concurrent
    goroutines, the relation \<open>ingestor_step\<close>: a poll is a sequence of steps (fetch and diff, each publication,
    each commit with its count, the prune), and the reporter reads one counter after the other. A poller whose
    steps are not interrupted does \<open>pollOnce\<close> (\<open>poll_alone\<close>), and its own ledger provides the contract
    \<open>event_publisher\<close> in any environment.
  \<^item> \<open>Config\<close> (\<open>internal/propagation/config.go\<close>, \<open>internal/ingest/config.go\<close>): defaults and loading.
  \<^item> \<open>DelayState\<close> (\<open>internal/state/manager.go\<close>): the delay documents. Lemmas: \<open>ProcessEvent\<close> implements the
    reconciliation of an abstract delay table, observation times never go back, smoothing stays between
    the observations, the scans are exact.
  \<^item> \<open>Enrich\<close> (\<open>cmd/processor/enrich.go\<close>), \<open>Transfers\<close> (\<open>internal/transfer/detector.go\<close>): lemmas that enrichment
    picks the delay of smallest magnitude and that exactly the endangered connections are reported.
    \<open>Severity\<close> makes the impact levels a linear order; more delay never makes a connection safer.
  \<^item> \<open>History\<close> (\<open>internal/propagation/history.go\<close>, \<open>stopimpact.go\<close>), \<open>Propagation\<close>, \<open>PropagationProps\<close>,
    \<open>InitialDelay\<close> (\<open>engine.go\<close>, \<open>kafka.go\<close>): the engine. Lemmas: the walk ends within its limits, every
    impact rests on an earlier one, confidences and delays are in bounds.
  \<^item> \<open>Pending\<close>, \<open>Evaluator\<close>, \<open>EvaluatorProps\<close>, \<open>Tracking\<close>, \<open>Feedback\<close> (\<open>internal/evaluation/pending.go\<close>,
    \<open>evaluator.go\<close>): predictions tracked, matched, finalized. The locale \<open>outcome_recorder\<close> is what the sweeper
    needs of a recorder; the history stores provide it over every Redis client (\<open>sublocale\<close>). Lemmas: what
    is stored and updated, and the outcome is what the engine reads. \<open>Sweep\<close>: which predictions a sweep takes,
    what it observes for each, and that it records every outcome and removes exactly these predictions.
  \<^item> \<open>Processor\<close>, \<open>Frames\<close>, \<open>ProcessorProps\<close> (\<open>cmd/processor/main.go\<close>): the handler of a message and the
    transitions of the process as the relation \<open>processor_step\<close>. \<open>Frames\<close> shows that only \<open>ProcessEvent\<close>
    writes delay documents, which composes the components: a marked message took effect at least once, on a
    healthy connection exactly once, and the invariant holds in every interleaving. A message, a propagation
    and a sweep are one transition each, so the claims of two partitions do not interleave within a message,
    and a crash falls between transitions.
  \<^item> \<open>Server\<close>, \<open>ServerProps\<close> (\<open>internal/server/handlers.go\<close>, \<open>alerts.go\<close>): the handlers as compositions of the
    components, and the alert broker as the relation \<open>alert_step\<close>. \<open>Reliability\<close>: which transfer pairs the
    history answers with.
  \<^item> \<open>Startup\<close> (\<open>cmd/processor/main.go\<close>, \<open>cmd/server/main.go\<close>): the \<open>main\<close> functions over the record \<open>host\<close> of
    everything a process finds on its machine. Lemmas: what each exit leaves behind, stored delays stay
    well formed over any sequence of lives of the processor, both processes agree. The shutdown is the relation
    \<open>shutdown_step\<close>, in which the calls of the propagations in flight interleave: it ends, with every result
    published.
  \<^item> \<open>Dashboard\<close> (\<open>cmd/delays\<close>, \<open>cmd/client\<close>, \<open>cmd/consumer\<close>): what the tools print, as records of values.
  \<^item> \<open>Metrics\<close> (\<open>internal/metrics/metrics.go\<close>): the collectors, their registration and, per component, the
    updates it makes, as a list computed beside the component's own definition. The locale
    \<open>metrics_registry\<close> is what the registry promises; an in-memory registry interprets it. Lemmas: no call
    panics, and the counters agree with what the handler did.
  \<^item> \<open>Pipeline\<close>: the way of an event through all of it, from the ingestor's publisher over a partition, the
    processor and Redis to the client of the server.

  \<^bold>\<open>How the model corresponds to the code.\<close> A struct is a record with the code's field names, an operation
  one definition of the same name over explicit state: the Redis connection, the Kafka producer, the broker.
  A mutex-protected operation is one transition (\<open>Publish\<close> of the broker holds a read lock only, so two calls
  may overlap; what one subscriber sees is still a sequence of sends). A call reads the clock at most once, as an argument. An
  error return is \<open>Inl\<close>, a nil pointer or a map miss \<open>None\<close>, a Go panic an error value of its own. \<open>range\<close>
  over a map visits the association list in order, and properties hold for every such order. int is the
  64-bit int. A float is the rational number it stands for, rounded after each operation (no fused
  multiply-add, as on amd64; an out-of-range float to int32 conversion gives the least int32, as there).
  \<open>sort.Slice\<close> is a stable sort by the key. Time zones are offset functions of the Unix time.

  \<^bold>\<open>Loops and fuel.\<close> Every loop but one is structural recursion or a \<open>fun\<close> with a measure. The queue loop of
  \<open>Propagate\<close> is \<open>while_option\<close>, so \<open>None\<close> would be a walk that never ends; \<open>propagate_terminates\<close> excludes
  it (each round adds an impact, of which there are at most \<open>MaxImpacts\<close>, or shrinks the queue). No fuel is
  used. The endless loops of the goroutines (\<open>Start\<close>, \<open>RunSweeper\<close>, \<open>monitorLag\<close>, \<open>ConsumeClaim\<close>,
  \<open>RunKafkaConsumer\<close>, \<open>StreamAlerts\<close>) are functions of the list of what their \<open>select\<close> or channel yields.

  \<^bold>\<open>Arguments of the model.\<close> Redis (through its contract; expiry is a deletion between operations), the Kafka
  client library (through its contract) and its deliveries, the Prometheus registry (likewise), the HTTP client, the protobuf codec, the CSV and YAML readers, the IANA zone
  database and the clock. JSON documents are trees, their text encoding is taken to be lossless.

  \<^bold>\<open>Not modelled.\<close> Parsing of flags, signals (a context that is done is an input), the metrics listeners, the
  gRPC transport, log lines, and the padding and decimals of printed values. Generated protobuf code beyond
  the fields and getters in use. The goroutines of the processor interleave between whole operations, not
  between the Redis commands of one operation. The \<open>index\<close> field of a queue item, which nothing reads, and
  letters beyond ASCII in \<open>strings.TrimSpace\<close>. Durations that are only measured are arguments.
\<close>

end
